(* ===== verification/Cpp_Prelude.thy ===== *)
theory Cpp_Prelude
  imports Main "HOL-Library.Word"
begin

unbundle bit_operations_syntax

text \<open>
  Shared vocabulary of the development: the fixed-width integers of the C++ sources, the
  conversion between bytes and characters, the \<open>std::string\<close> operations the sources call
  (\<open>find\<close>, \<open>find_last_of\<close>, \<open>substr\<close>) and \<open>std::to_string\<close>, with the lemmas on them that
  the component theories share.
\<close>

section \<open>Lemma collections\<close>

named_theorems string_simps \<open>rewriting with the string operations of the standard library\<close>
named_theorems keeps_intros \<open>preservation of a state predicate by a computation\<close>
named_theorems wire_simps \<open>byte layouts of the binary frames\<close>

section \<open>Integer types\<close>

type_synonym uint8_t = "8 word"
type_synonym uint32_t = "32 word"
type_synonym uint64_t = "64 word"
type_synonym int64_t = "64 word"
type_synonym bytes = "uint8_t list"

text \<open>
  A \<open>double\<close> is the bit pattern of its IEEE 754 binary64 representation; the sources move
  doubles around and convert integers to them, they never compute with them.
\<close>

type_synonym double = "64 word"

text \<open>
  \<open>const char *\<close> and \<open>const uint8_t *\<close> views of the same storage: \<open>reinterpret_cast\<close>
  between them keeps every byte.
\<close>

definition char_of_byte :: "uint8_t \<Rightarrow> char" where
  "char_of_byte b = char_of (unat b)"

definition byte_of_char :: "char \<Rightarrow> uint8_t" where
  "byte_of_char c = word_of_nat (of_char c)"

lemma byte_of_char_of_byte [simp]: "byte_of_char (char_of_byte b) = b"
proof -
  have "unat b < 256"
    using unsigned_less [of b] by simp
  then show ?thesis
    by (simp add: byte_of_char_def char_of_byte_def)
qed

lemma char_of_byte_of_char [simp]: "char_of_byte (byte_of_char c) = c"
proof -
  have "of_char c < (256 :: nat)"
    by (rule nat_of_char_less_256)
  then have "unat (byte_of_char c) = of_char c"
    by (simp add: byte_of_char_def unat_of_nat)
  then show ?thesis
    by (simp add: char_of_byte_def)
qed

definition bytes_of_string :: "string \<Rightarrow> bytes" where
  "bytes_of_string s = map byte_of_char s"

definition string_of_bytes :: "bytes \<Rightarrow> string" where
  "string_of_bytes bs = map char_of_byte bs"

lemma string_of_bytes_of_string [simp]: "string_of_bytes (bytes_of_string s) = s"
  by (simp add: string_of_bytes_def bytes_of_string_def o_def)

lemma bytes_of_string_of_bytes [simp]: "bytes_of_string (string_of_bytes bs) = bs"
  by (simp add: string_of_bytes_def bytes_of_string_def o_def)

lemma length_bytes_of_string [simp]: "length (bytes_of_string s) = length s"
  by (simp add: bytes_of_string_def)

lemma length_string_of_bytes [simp]: "length (string_of_bytes bs) = length bs"
  by (simp add: string_of_bytes_def)


section \<open>std::string\<close>

text \<open>\<open>starts_with p s\<close>: the characters of \<open>p\<close> are the first characters of \<open>s\<close>.\<close>

fun starts_with :: "string \<Rightarrow> string \<Rightarrow> bool" where
  "starts_with [] s = True"
| "starts_with (p # ps) [] = False"
| "starts_with (p # ps) (c # cs) = (p = c \<and> starts_with ps cs)"

lemma starts_with_iff: "starts_with p s \<longleftrightarrow> take (length p) s = p"
  by (induction p s rule: starts_with.induct) auto

lemma starts_with_append [simp]: "starts_with p (p @ s)"
  by (simp add: starts_with_iff)

lemma starts_with_length: "starts_with p s \<Longrightarrow> length p \<le> length s"
  by (induction p s rule: starts_with.induct) auto

text \<open>\<open>s.find(needle)\<close>: the first position of \<open>needle\<close>, \<open>None\<close> for \<open>npos\<close>.\<close>

fun str_find0 :: "string \<Rightarrow> string \<Rightarrow> nat option" where
  "str_find0 needle [] = (if needle = [] then Some 0 else None)"
| "str_find0 needle (c # cs) =
     (if starts_with needle (c # cs) then Some 0 else map_option Suc (str_find0 needle cs))"

text \<open>\<open>s.find(needle, pos)\<close>: \<open>npos\<close> when \<open>pos\<close> lies beyond the end.\<close>

definition str_find :: "string \<Rightarrow> string \<Rightarrow> nat \<Rightarrow> nat option" where
  "str_find s needle pos =
     (if length s < pos then None else map_option (\<lambda>i. pos + i) (str_find0 needle (drop pos s)))"

text \<open>\<open>s.find_last_of(c)\<close>.\<close>

fun find_last_of :: "string \<Rightarrow> char \<Rightarrow> nat option" where
  "find_last_of [] c = None"
| "find_last_of (x # xs) c =
     (case find_last_of xs c of
        Some i \<Rightarrow> Some (Suc i)
      | None \<Rightarrow> (if x = c then Some 0 else None))"

lemma str_find0_Some:
  "str_find0 needle s = Some i \<Longrightarrow>
     i + length needle \<le> length s \<and> starts_with needle (drop i s)"
proof (induction needle s arbitrary: i rule: str_find0.induct)
  case (1 needle)
  then show ?case by (simp split: if_splits)
next
  case (2 needle c cs)
  show ?case
  proof (cases "starts_with needle (c # cs)")
    case True
    with "2.prems" show ?thesis
      using starts_with_length [OF True] by auto
  next
    case False
    with "2.prems" obtain j where j: "str_find0 needle cs = Some j" "i = Suc j"
      by auto
    with "2.IH" [OF False j(1)] show ?thesis by simp
  qed
qed

lemma str_find0_least:
  "str_find0 needle s = Some i \<Longrightarrow> j < i \<Longrightarrow> \<not> starts_with needle (drop j s)"
proof (induction needle s arbitrary: i j rule: str_find0.induct)
  case (1 needle)
  then show ?case by (simp split: if_splits)
next
  case (2 needle c cs)
  then show ?case
    by (cases j) (auto split: if_splits)
qed

lemma str_find0_None:
  "str_find0 needle s = None \<longleftrightarrow> (\<forall>u v. s \<noteq> u @ needle @ v)"
proof (induction needle s rule: str_find0.induct)
  case (1 needle)
  then show ?case by auto
next
  case (2 needle c cs)
  show ?case
  proof (cases "starts_with needle (c # cs)")
    case True
    then have "take (length needle) (c # cs) = needle"
      by (simp add: starts_with_iff)
    then have "c # cs = [] @ needle @ drop (length needle) (c # cs)"
      by (metis append_Nil append_take_drop_id)
    with True show ?thesis
      by (metis option.distinct(1) str_find0.simps(2))
  next
    case False
    then have "c # cs \<noteq> needle @ v" for v
      by (metis starts_with_append)
    then have "c # cs = u @ needle @ v \<longleftrightarrow> (\<exists>u'. u = c # u' \<and> cs = u' @ needle @ v)" for u v
      by (cases u) auto
    then show ?thesis
      using "2.IH" [OF False] False by auto
  qed
qed

lemma str_find0_single_notin:
  "str_find0 [c] s = None \<longleftrightarrow> c \<notin> set s"
  by (simp add: str_find0_None in_set_conv_decomp)

lemma str_find0_single_append:
  "c \<notin> set u \<Longrightarrow> str_find0 [c] (u @ c # v) = Some (length u)"
  by (induction u) auto

lemma find_last_of_None: "find_last_of s c = None \<longleftrightarrow> c \<notin> set s"
  by (induction s) (auto split: option.splits)

lemma find_last_of_Some:
  "find_last_of s c = Some i \<Longrightarrow> i < length s \<and> s ! i = c \<and> c \<notin> set (drop (Suc i) s)"
proof (induction s arbitrary: i)
  case Nil
  then show ?case by simp
next
  case (Cons x xs)
  then show ?case
    by (auto simp: find_last_of_None split: option.splits if_splits)
qed

lemma find_last_of_append:
  "c \<notin> set v \<Longrightarrow> find_last_of (u @ c # v) c = Some (length u)"
proof (induction u)
  case Nil
  then have "find_last_of v c = None"
    by (simp add: find_last_of_None)
  then show ?case by simp
qed simp

text \<open>\<open>s.substr(pos, n)\<close> for \<open>pos\<close> within the string; \<open>n = npos\<close> is \<open>drop\<close>.\<close>

definition substr :: "string \<Rightarrow> nat \<Rightarrow> nat \<Rightarrow> string" where
  "substr s pos n = take n (drop pos s)"

section \<open>std::to_string\<close>

fun to_string :: "nat \<Rightarrow> string" where
  "to_string n =
     (if n < 10 then [char_of (48 + n)] else to_string (n div 10) @ [char_of (48 + n mod 10)])"

declare to_string.simps [simp del]

text \<open>Reading decimal digits back, used to state that printed numbers are injective.\<close>

definition parse_nat :: "string \<Rightarrow> nat" where
  "parse_nat s = foldl (\<lambda>a c. 10 * a + (of_char c - 48)) 0 s"

lemma parse_to_string: "parse_nat (to_string n) = n"
proof (induction n rule: to_string.induct)
  case (1 n)
  show ?case
  proof (cases "n < 10")
    case True
    then show ?thesis
      by (subst to_string.simps) (simp add: parse_nat_def)
  next
    case False
    with "1.IH" have "foldl (\<lambda>a c. 10 * a + (of_char c - 48)) 0 (to_string (n div 10)) = n div 10"
      by (simp add: parse_nat_def)
    with False show ?thesis
      by (subst to_string.simps) (simp add: parse_nat_def)
  qed
qed

lemma to_string_inject [simp]: "to_string m = to_string n \<longleftrightarrow> m = n"
  by (metis parse_to_string)

lemma to_string_not_Nil [simp]: "to_string n \<noteq> []"
  by (subst to_string.simps) simp

definition to_string_u32 :: "uint32_t \<Rightarrow> string" where
  "to_string_u32 w = to_string (unat w)"

end
