(* ===== verification/Cpp_Containers.thy ===== *)
theory Cpp_Containers
  imports Cpp_Prelude "HOL-Library.AList"
begin

text \<open>
  The associative containers of the sources.  A \<open>std::map\<close> or \<open>std::unordered_map\<close> is an
  association list with distinct keys, whose order is the container's iteration order; a
  \<open>std::unordered_set\<close> is a list without repetitions.  The laws the clients use are the
  locale \<open>assoc_container\<close>, interpreted on these definitions; the facts on loops that
  insert or erase several keys are proved once inside the locale.
\<close>

section \<open>The interface of an associative container\<close>

locale assoc_container =
  fixes empty :: "'m"
    and find :: "'m \<Rightarrow> 'k \<Rightarrow> 'v option"
    and assign :: "'k \<Rightarrow> 'v \<Rightarrow> 'm \<Rightarrow> 'm"
    and emplace :: "'k \<Rightarrow> 'v \<Rightarrow> 'm \<Rightarrow> 'm"
    and erase :: "'k \<Rightarrow> 'm \<Rightarrow> 'm"
    and invar :: "'m \<Rightarrow> bool"
  assumes find_empty: "find empty k = None"
    and find_assign: "invar m \<Longrightarrow> find (assign k v m) = (find m)(k \<mapsto> v)"
    and find_emplace: "invar m \<Longrightarrow>
      find (emplace k v m) = (if find m k = None then (find m)(k \<mapsto> v) else find m)"
    and find_erase: "invar m \<Longrightarrow> find (erase k m) = (find m)(k := None)"
    and invar_empty: "invar empty"
    and invar_assign: "invar m \<Longrightarrow> invar (assign k v m)"
    and invar_emplace: "invar m \<Longrightarrow> invar (emplace k v m)"
    and invar_erase: "invar m \<Longrightarrow> invar (erase k m)"
begin

lemmas container_invar = invar_empty invar_assign invar_emplace invar_erase
lemmas container_find = find_empty find_assign find_emplace find_erase

text \<open>Erasing a list of keys, as a loop over \<open>erase\<close> does.\<close>

lemma erase_all:
  "invar m \<Longrightarrow> invar (fold erase ks m) \<and>
     (\<forall>k. find (fold erase ks m) k = (if k \<in> set ks then None else find m k))"
proof (induction ks arbitrary: m)
  case Nil
  then show ?case by simp
next
  case (Cons x ks)
  from Cons.IH [OF invar_erase [OF Cons.prems, of x]] show ?case
    by (auto simp: find_erase [OF Cons.prems])
qed

lemmas find_erase_all = erase_all [THEN conjunct2, THEN spec]
lemmas invar_erase_all = erase_all [THEN conjunct1]

text \<open>Inserting a list of entries: an entry already there is kept, and of two new entries
  with one key the first stays.\<close>

lemma emplace_all:
  "invar m \<Longrightarrow> invar (fold (\<lambda>(k, v). emplace k v) kvs m) \<and>
     (\<forall>k. find (fold (\<lambda>(k, v). emplace k v) kvs m) k =
        (case find m k of Some v \<Rightarrow> Some v | None \<Rightarrow> map_of kvs k))"
proof (induction kvs arbitrary: m)
  case Nil
  then show ?case by (simp split: option.splits)
next
  case (Cons kv kvs)
  obtain x v where kv: "kv = (x, v)" by (cases kv)
  from Cons.IH [OF invar_emplace [OF Cons.prems, of x v]] show ?case
    by (auto simp: kv find_emplace [OF Cons.prems] split: option.splits)
qed

lemmas find_emplace_all = emplace_all [THEN conjunct2, THEN spec]
lemmas invar_emplace_all = emplace_all [THEN conjunct1]

text \<open>Erasing what was just inserted under a new key gives the lookups back.\<close>

lemma erase_emplace:
  "invar m \<Longrightarrow> find m k = None \<Longrightarrow> find (erase k (emplace k v m)) = find m"
  by (simp add: find_erase invar_emplace find_emplace fun_upd_idem)

end

section \<open>Association lists\<close>

definition m_find :: "('k \<times> 'v) list \<Rightarrow> 'k \<Rightarrow> 'v option" where
  "m_find m k = map_of m k"

definition m_contains :: "('k \<times> 'v) list \<Rightarrow> 'k \<Rightarrow> bool" where
  "m_contains m k = (m_find m k \<noteq> None)"

text \<open>\<open>m[k] = v\<close>, or the assignment through a reference found in the container.\<close>

definition m_assign :: "'k \<Rightarrow> 'v \<Rightarrow> ('k \<times> 'v) list \<Rightarrow> ('k \<times> 'v) list" where
  "m_assign k v m = AList.update k v m"

text \<open>\<open>m.emplace(k, v)\<close>: nothing happens when the key is there.\<close>

definition m_emplace :: "'k \<Rightarrow> 'v \<Rightarrow> ('k \<times> 'v) list \<Rightarrow> ('k \<times> 'v) list" where
  "m_emplace k v m = (if m_contains m k then m else m @ [(k, v)])"

definition m_erase :: "'k \<Rightarrow> ('k \<times> 'v) list \<Rightarrow> ('k \<times> 'v) list" where
  "m_erase k m = AList.delete k m"

definition m_keys :: "('k \<times> 'v) list \<Rightarrow> 'k list" where
  "m_keys m = map fst m"

text \<open>The keys of a container are pairwise different.\<close>

definition m_invar :: "('k \<times> 'v) list \<Rightarrow> bool" where
  "m_invar m = distinct (m_keys m)"

lemma m_find_None_iff: "m_find m k = None \<longleftrightarrow> k \<notin> set (m_keys m)"
  by (auto simp: m_find_def m_keys_def map_of_eq_None_iff)

lemma m_contains_iff: "m_contains m k \<longleftrightarrow> k \<in> set (m_keys m)"
  by (simp add: m_contains_def m_find_None_iff)

interpretation al: assoc_container "[] :: ('k \<times> 'v) list" m_find m_assign m_emplace m_erase m_invar
proof (unfold_locales, goal_cases)
  case (1 k)
  show ?case by (simp add: m_find_def)
next
  case (2 m k v)
  show ?case by (simp add: m_find_def m_assign_def update_conv fun_eq_iff)
next
  case (3 m k v)
  show ?case
    by (auto simp: m_find_def m_emplace_def m_contains_def fun_eq_iff map_add_def
        split: option.splits)
next
  case (4 m k)
  show ?case by (simp add: m_find_def m_erase_def delete_conv fun_eq_iff)
next
  case 5
  show ?case by (simp add: m_invar_def m_keys_def)
next
  case (6 m k v)
  then show ?case by (simp add: m_invar_def m_keys_def m_assign_def distinct_update)
next
  case (7 m k v)
  then show ?case
    by (auto simp: m_invar_def m_emplace_def m_contains_iff) (auto simp: m_keys_def)
next
  case (8 m k)
  then show ?case by (simp add: m_invar_def m_keys_def m_erase_def distinct_delete)
qed

lemma m_find_assign [simp]: "m_find (m_assign k v m) k' = (if k' = k then Some v else m_find m k')"
  by (simp add: m_find_def m_assign_def update_conv)

lemma m_find_erase [simp]: "m_find (m_erase k m) k' = (if k' = k then None else m_find m k')"
  by (simp add: m_find_def m_erase_def delete_conv)

lemma m_find_emplace [simp]:
  "m_find (m_emplace k v m) k' = (if k' = k \<and> m_find m k = None then Some v else m_find m k')"
  by (auto simp: m_find_def m_emplace_def m_contains_def map_add_def split: option.splits)

lemma m_find_Nil [simp]: "m_find [] k = None"
  by (simp add: m_find_def)

lemma m_find_Cons [simp]: "m_find ((a, b) # m) k = (if k = a then Some b else m_find m k)"
  by (simp add: m_find_def)

lemma m_keys_assign [simp]:
  "m_keys (m_assign k v m) = (if k \<in> set (m_keys m) then m_keys m else m_keys m @ [k])"
  by (simp add: m_keys_def m_assign_def update_keys)

lemma m_keys_emplace [simp]:
  "m_keys (m_emplace k v m) = (if k \<in> set (m_keys m) then m_keys m else m_keys m @ [k])"
  by (simp add: m_emplace_def m_contains_iff) (simp add: m_keys_def)

lemma set_keys_erase [simp]: "set (m_keys (m_erase k m)) = set (m_keys m) - {k}"
  by (auto simp: m_keys_def m_erase_def AList.delete_eq)

lemma m_find_mem: "m_find m k = Some v \<Longrightarrow> (k, v) \<in> set m"
  by (simp add: m_find_def map_of_SomeD)

lemma m_find_iff_mem: "m_invar m \<Longrightarrow> m_find m k = Some v \<longleftrightarrow> (k, v) \<in> set m"
  by (simp add: m_find_def m_invar_def m_keys_def)

lemma set_erase: "set (m_erase k m) = {(k', v) \<in> set m. k' \<noteq> k}"
  by (auto simp: m_erase_def AList.delete_eq)

lemma m_find_map_values:
  "m_find (map (\<lambda>(k, v). (k, f k v)) m) k = map_option (f k) (m_find m k)"
  by (induction m) (auto simp: m_find_def)

lemma m_keys_map_values [simp]: "m_keys (map (\<lambda>(k, v). (k, f k v)) m) = m_keys m"
  by (simp add: m_keys_def case_prod_unfold o_def)

section \<open>Unordered sets\<close>

definition s_insert :: "'a \<Rightarrow> 'a list \<Rightarrow> 'a list" where
  "s_insert x xs = (if x \<in> set xs then xs else xs @ [x])"

definition s_erase :: "'a \<Rightarrow> 'a list \<Rightarrow> 'a list" where
  "s_erase x xs = removeAll x xs"

text \<open>The set of the elements of a range, in the order of their first occurrence.\<close>

definition s_of :: "'a list \<Rightarrow> 'a list" where
  "s_of xs = fold s_insert xs []"

lemma set_s_insert [simp]: "set (s_insert x xs) = insert x (set xs)"
  by (auto simp: s_insert_def)

lemma set_s_erase [simp]: "set (s_erase x xs) = set xs - {x}"
  by (simp add: s_erase_def)

lemma distinct_s_insert [simp]: "distinct (s_insert x xs) = distinct xs"
  by (auto simp: s_insert_def)

lemma distinct_s_erase: "distinct xs \<Longrightarrow> distinct (s_erase x xs)"
  by (simp add: s_erase_def distinct_removeAll)

lemma set_fold_s_insert [simp]: "set (fold s_insert xs ys) = set xs \<union> set ys"
  by (induction xs arbitrary: ys) auto

lemma distinct_fold_s_insert [simp]: "distinct (fold s_insert xs ys) = distinct ys"
  by (induction xs arbitrary: ys) auto

lemma set_fold_s_erase [simp]: "set (fold s_erase xs ys) = set ys - set xs"
  by (induction xs arbitrary: ys) auto

lemma distinct_fold_s_erase: "distinct ys \<Longrightarrow> distinct (fold s_erase xs ys)"
  by (induction xs arbitrary: ys) (auto intro: distinct_s_erase)

lemma set_s_of [simp]: "set (s_of xs) = set xs"
  by (simp add: s_of_def)

lemma distinct_s_of [simp]: "distinct (s_of xs)"
  by (simp add: s_of_def)

end
