(* ===== verification/Cpp_Monad.thy ===== *)
theory Cpp_Monad
  imports Cpp_Containers
begin

text \<open>
  Effects of the C++ sources: a computation takes the state of the program and gives an
  outcome and the new state.  An exception keeps the state reached when it was thrown, as
  in C++, where nothing is rolled back; undefined behaviour (or an assertion failure that
  ends the process) is an outcome of its own, which no handler catches.
\<close>

section \<open>Exceptions and outcomes\<close>

text \<open>
  The exception classes the sources throw or tell apart in a \<open>catch\<close> clause.
  \<open>ChannelError\<close>, \<open>ClientChannelError\<close> and \<open>ServiceError\<close> are the subclasses of
  \<open>ExceptionWithId<uint32_t>\<close>; \<open>StdException\<close> stands for every other class derived from
  \<open>std::exception\<close>, \<open>OtherException\<close> for what only \<open>catch (...)\<close> receives.
\<close>

datatype exn =
    ChannelError uint32_t string
  | ClientChannelError uint32_t string
  | ServiceError uint32_t string
  | DefinitionNotFoundError string
  | StdException string
  | OtherException

datatype 'a outcome = Ok 'a | Throw exn | UB string

text \<open>\<open>ExceptionWithId<uint32_t>::id()\<close>, defined for that class only.\<close>

fun exn_id :: "exn \<Rightarrow> uint32_t option" where
  "exn_id (ChannelError i m) = Some i"
| "exn_id (ClientChannelError i m) = Some i"
| "exn_id (ServiceError i m) = Some i"
| "exn_id _ = None"

text \<open>\<open>std::exception::what()\<close>, \<open>None\<close> for an object that is no \<open>std::exception\<close>.\<close>

fun exn_what :: "exn \<Rightarrow> string option" where
  "exn_what (ChannelError i m) = Some m"
| "exn_what (ClientChannelError i m) = Some m"
| "exn_what (ServiceError i m) = Some m"
| "exn_what (DefinitionNotFoundError m) = Some m"
| "exn_what (StdException m) = Some m"
| "exn_what OtherException = None"

section \<open>Pure outcomes\<close>

fun obind :: "'a outcome \<Rightarrow> ('a \<Rightarrow> 'b outcome) \<Rightarrow> 'b outcome" where
  "obind (Ok a) k = k a"
| "obind (Throw e) k = Throw e"
| "obind (UB u) k = UB u"

text \<open>A loop that pushes the converted elements onto a vector; the first failure leaves it.\<close>

fun omap :: "('a \<Rightarrow> 'b outcome) \<Rightarrow> 'a list \<Rightarrow> 'b list outcome" where
  "omap f [] = Ok []"
| "omap f (x # xs) = obind (f x) (\<lambda>y. obind (omap f xs) (\<lambda>ys. Ok (y # ys)))"

lemma omap_cong [fundef_cong]:
  "xs = ys \<Longrightarrow> (\<And>x. x \<in> set ys \<Longrightarrow> f x = g x) \<Longrightarrow> omap f xs = omap g ys"
  by (induction ys arbitrary: xs) auto

lemma obind_eq_Ok: "obind m k = Ok b \<longleftrightarrow> (\<exists>a. m = Ok a \<and> k a = Ok b)"
  by (cases m) auto

lemma omap_Ok: "(\<And>x. x \<in> set xs \<Longrightarrow> f x = Ok (g x)) \<Longrightarrow> omap f xs = Ok (map g xs)"
  by (induction xs) auto

lemma omap_eq_Ok_length: "omap f xs = Ok ys \<Longrightarrow> length ys = length xs"
  by (induction xs arbitrary: ys) (auto simp: obind_eq_Ok)

section \<open>Computations\<close>

type_synonym ('s, 'a) cpp = "'s \<Rightarrow> 'a outcome \<times> 's"

definition ret :: "'a \<Rightarrow> ('s, 'a) cpp" where
  "ret a s = (Ok a, s)"

definition throw :: "exn \<Rightarrow> ('s, 'a) cpp" where
  "throw e s = (Throw e, s)"

text \<open>A pure outcome as a computation that leaves the state alone.\<close>

definition lift :: "'a outcome \<Rightarrow> ('s, 'a) cpp" where
  "lift r s = (r, s)"

definition gets :: "('s \<Rightarrow> 'a) \<Rightarrow> ('s, 'a) cpp" where
  "gets f s = (Ok (f s), s)"

definition modify :: "('s \<Rightarrow> 's) \<Rightarrow> ('s, unit) cpp" where
  "modify f s = (Ok (), f s)"

definition bind :: "('s, 'a) cpp \<Rightarrow> ('a \<Rightarrow> ('s, 'b) cpp) \<Rightarrow> ('s, 'b) cpp" where
  "bind m k s =
     (case m s of
        (Ok a, t) \<Rightarrow> k a t
      | (Throw e, t) \<Rightarrow> (Throw e, t)
      | (UB u, t) \<Rightarrow> (UB u, t))"

text \<open>Sequencing without a value.\<close>

definition seq :: "('s, unit) cpp \<Rightarrow> ('s, 'b) cpp \<Rightarrow> ('s, 'b) cpp" where
  "seq m k = bind m (\<lambda>_. k)"

text \<open>\<open>try { m } catch (...) { h e }\<close>, where \<open>h\<close> tells the classes apart.\<close>

definition try_catch :: "('s, 'a) cpp \<Rightarrow> (exn \<Rightarrow> ('s, 'a) cpp) \<Rightarrow> ('s, 'a) cpp" where
  "try_catch m h s =
     (case m s of
        (Throw e, t) \<Rightarrow> h e t
      | r \<Rightarrow> r)"

text \<open>A range-based \<open>for\<close> loop; an exception leaves the loop.\<close>

fun for_each :: "'x list \<Rightarrow> ('x \<Rightarrow> ('s, unit) cpp) \<Rightarrow> ('s, unit) cpp" where
  "for_each [] body = ret ()"
| "for_each (x # xs) body = seq (body x) (for_each xs body)"

text \<open>A loop that threads a local variable.\<close>

fun for_fold :: "'x list \<Rightarrow> ('x \<Rightarrow> 'a \<Rightarrow> ('s, 'a) cpp) \<Rightarrow> 'a \<Rightarrow> ('s, 'a) cpp" where
  "for_fold [] body a = ret a"
| "for_fold (x # xs) body a = bind (body x a) (\<lambda>a'. for_fold xs body a')"

definition whenever :: "bool \<Rightarrow> ('s, unit) cpp \<Rightarrow> ('s, unit) cpp" where
  "whenever b m = (if b then m else ret ())"

lemmas cpp_defs = ret_def throw_def lift_def gets_def modify_def bind_def seq_def try_catch_def
  whenever_def

subsection \<open>Laws\<close>

lemma ret_bind [simp]: "bind (ret a) k = k a"
  by (simp add: fun_eq_iff cpp_defs)

lemma throw_bind [simp]: "bind (throw e) k = throw e"
  by (simp add: fun_eq_iff cpp_defs)

lemma bind_ret [simp]: "bind m ret = m"
  by (auto simp: fun_eq_iff cpp_defs split: prod.splits outcome.splits)

lemma bind_assoc: "bind (bind m k) l = bind m (\<lambda>a. bind (k a) l)"
  by (auto simp: fun_eq_iff cpp_defs split: prod.splits outcome.splits)

lemma lift_simps [simp]:
  "lift (Ok a) = ret a" "lift (Throw e) = throw e"
  by (simp_all add: fun_eq_iff cpp_defs)

lemma modify_modify: "seq (modify f) (modify g) = modify (\<lambda>s. g (f s))"
  by (simp add: cpp_defs fun_eq_iff)

lemma seq_ret [simp]: "seq (ret ()) m = m"
  by (simp add: seq_def)

lemma seq_throw [simp]: "seq (throw e) m = throw e"
  by (simp add: seq_def)

lemma for_each_append: "for_each (xs @ ys) body = seq (for_each xs body) (for_each ys body)"
  by (induction xs) (simp_all add: seq_def bind_assoc)

section \<open>Pre- and postconditions\<close>

text \<open>
  \<open>triple P m Q E\<close>: from a state with \<open>P\<close>, the computation \<open>m\<close> returns a value in a state with
  \<open>Q\<close>, or throws in a state with \<open>E\<close>, or has undefined behaviour, of which nothing is said.
\<close>

definition triple :: "('s \<Rightarrow> bool) \<Rightarrow> ('s, 'a) cpp \<Rightarrow> ('a \<Rightarrow> 's \<Rightarrow> bool) \<Rightarrow> ('s \<Rightarrow> bool) \<Rightarrow> bool" where
  "triple P m Q E \<longleftrightarrow>
     (\<forall>s. P s \<longrightarrow> (case m s of (Ok a, t) \<Rightarrow> Q a t | (Throw e, t) \<Rightarrow> E t | (UB u, t) \<Rightarrow> True))"

lemma tripleI:
  "(\<And>s. P s \<Longrightarrow> (case m s of (Ok a, t) \<Rightarrow> Q a t | (Throw e, t) \<Rightarrow> E t | (UB u, t) \<Rightarrow> True)) \<Longrightarrow>
     triple P m Q E"
  by (simp add: triple_def)

lemma triple_Ok: "triple P m Q E \<Longrightarrow> P s \<Longrightarrow> m s = (Ok a, t) \<Longrightarrow> Q a t"
  by (force simp: triple_def)

lemma triple_Throw: "triple P m Q E \<Longrightarrow> P s \<Longrightarrow> m s = (Throw e, t) \<Longrightarrow> E t"
  by (force simp: triple_def)

lemma triple_ret: "(\<And>s. P s \<Longrightarrow> Q a s) \<Longrightarrow> triple P (ret a) Q E"
  by (simp add: triple_def cpp_defs)

lemma triple_throw: "(\<And>s. P s \<Longrightarrow> E s) \<Longrightarrow> triple P (throw e) Q E"
  by (simp add: triple_def cpp_defs)

lemma triple_gets: "(\<And>s. P s \<Longrightarrow> Q (f s) s) \<Longrightarrow> triple P (gets f) Q E"
  by (simp add: triple_def cpp_defs)

lemma triple_modify: "(\<And>s. P s \<Longrightarrow> Q () (f s)) \<Longrightarrow> triple P (modify f) Q E"
  by (simp add: triple_def cpp_defs)

lemma triple_lift:
  "(\<And>s a. P s \<Longrightarrow> r = Ok a \<Longrightarrow> Q a s) \<Longrightarrow> (\<And>s. P s \<Longrightarrow> E s) \<Longrightarrow> triple P (lift r) Q E"
  by (cases r) (simp_all add: triple_def cpp_defs)

lemma triple_bind:
  assumes m: "triple P m Q E" and k: "\<And>a. triple (Q a) (k a) R E"
  shows "triple P (bind m k) R E"
proof (rule tripleI)
  fix s
  assume "P s"
  with m show "case bind m k s of (Ok a, t) \<Rightarrow> R a t | (Throw e, t) \<Rightarrow> E t | (UB u, t) \<Rightarrow> True"
    using k by (fastforce simp: bind_def triple_def split: prod.splits outcome.splits)
qed

lemma triple_seq:
  "triple P m (\<lambda>_. Q) E \<Longrightarrow> triple Q k R E \<Longrightarrow> triple P (seq m k) R E"
  unfolding seq_def by (rule triple_bind)

lemma triple_try_catch:
  assumes m: "triple P m Q E'" and h: "\<And>e. triple E' (h e) Q E"
  shows "triple P (try_catch m h) Q E"
proof (rule tripleI)
  fix s
  assume "P s"
  with m show "case try_catch m h s of (Ok a, t) \<Rightarrow> Q a t | (Throw e, t) \<Rightarrow> E t | (UB u, t) \<Rightarrow> True"
    using h by (fastforce simp: try_catch_def triple_def split: prod.splits outcome.splits)
qed

lemma triple_for_each:
  "(\<And>x. x \<in> set xs \<Longrightarrow> triple P (body x) (\<lambda>_. P) E) \<Longrightarrow> triple P (for_each xs body) (\<lambda>_. P) E"
proof (induction xs)
  case Nil
  show ?case by (simp add: triple_ret)
next
  case (Cons x xs)
  show ?case
    unfolding for_each.simps
    by (rule triple_seq [where Q = P]) (simp_all add: Cons)
qed

lemma triple_conseq:
  "triple P' m Q' E' \<Longrightarrow> (\<And>s. P s \<Longrightarrow> P' s) \<Longrightarrow> (\<And>a s. Q' a s \<Longrightarrow> Q a s) \<Longrightarrow>
     (\<And>s. E' s \<Longrightarrow> E s) \<Longrightarrow> triple P m Q E"
  unfolding triple_def by (fastforce split: prod.splits outcome.splits)

lemma triple_if:
  "(b \<Longrightarrow> triple P m Q E) \<Longrightarrow> (\<not> b \<Longrightarrow> triple P n Q E) \<Longrightarrow> triple P (if b then m else n) Q E"
  by simp

section \<open>State predicates a computation keeps\<close>

text \<open>\<open>keeps P m\<close>: whether \<open>m\<close> returns or throws, \<open>P\<close> holds afterwards where it held before.\<close>

definition keeps :: "('s \<Rightarrow> bool) \<Rightarrow> ('s, 'a) cpp \<Rightarrow> bool" where
  "keeps P m = triple P m (\<lambda>_. P) P"

lemma keepsI:
  assumes "\<And>s. P s \<Longrightarrow> P (snd (m s))"
  shows "keeps P m"
  unfolding keeps_def
proof (rule tripleI)
  fix s
  assume "P s"
  then have "P (snd (m s))" by (rule assms)
  then show "case m s of (Ok a, t) \<Rightarrow> P t | (Throw e, t) \<Rightarrow> P t | (UB u, t) \<Rightarrow> True"
    by (cases "m s") (simp split: outcome.split)
qed

lemma keeps_Ok: "keeps P m \<Longrightarrow> P s \<Longrightarrow> m s = (Ok a, t) \<Longrightarrow> P t"
  unfolding keeps_def by (rule triple_Ok)

lemma keeps_Throw: "keeps P m \<Longrightarrow> P s \<Longrightarrow> m s = (Throw e, t) \<Longrightarrow> P t"
  unfolding keeps_def by (rule triple_Throw)

lemma triple_quiet: "keeps P m \<Longrightarrow> (\<And>s. P s \<Longrightarrow> E s) \<Longrightarrow> triple P m (\<lambda>_. P) E"
  unfolding keeps_def by (erule triple_conseq) auto

lemma keeps_ret [keeps_intros]: "keeps P (ret a)"
  by (simp add: keeps_def triple_ret)

lemma keeps_throw [keeps_intros]: "keeps P (throw e)"
  by (simp add: keeps_def triple_throw)

lemma keeps_lift [keeps_intros]: "keeps P (lift r)"
  by (simp add: keeps_def triple_lift)

lemma keeps_gets [keeps_intros]: "keeps P (gets f)"
  by (simp add: keeps_def triple_gets)

lemma keeps_modify: "(\<And>s. P s \<Longrightarrow> P (f s)) \<Longrightarrow> keeps P (modify f)"
  by (simp add: keeps_def triple_modify)

lemma keeps_bind [keeps_intros]: "keeps P m \<Longrightarrow> (\<And>a. keeps P (k a)) \<Longrightarrow> keeps P (bind m k)"
  unfolding keeps_def by (rule triple_bind)

lemma keeps_seq [keeps_intros]: "keeps P m \<Longrightarrow> keeps P k \<Longrightarrow> keeps P (seq m k)"
  unfolding keeps_def by (rule triple_seq)

lemma keeps_try_catch [keeps_intros]:
  "keeps P m \<Longrightarrow> (\<And>e. keeps P (h e)) \<Longrightarrow> keeps P (try_catch m h)"
  unfolding keeps_def by (rule triple_try_catch)

lemma keeps_for_each [keeps_intros]:
  "(\<And>x. x \<in> set xs \<Longrightarrow> keeps P (body x)) \<Longrightarrow> keeps P (for_each xs body)"
  unfolding keeps_def by (rule triple_for_each)

lemma keeps_for_fold [keeps_intros]:
  "(\<And>x a. x \<in> set xs \<Longrightarrow> keeps P (body x a)) \<Longrightarrow> keeps P (for_fold xs body a)"
  by (induction xs arbitrary: a) (auto intro: keeps_intros)

lemma keeps_if [keeps_intros]:
  "(b \<Longrightarrow> keeps P m) \<Longrightarrow> (\<not> b \<Longrightarrow> keeps P n) \<Longrightarrow> keeps P (if b then m else n)"
  by simp

lemma keeps_whenever [keeps_intros]: "(b \<Longrightarrow> keeps P m) \<Longrightarrow> keeps P (whenever b m)"
  by (simp add: whenever_def keeps_ret)

lemma keeps_option [keeps_intros]:
  "(x = None \<Longrightarrow> keeps P m) \<Longrightarrow> (\<And>a. x = Some a \<Longrightarrow> keeps P (k a)) \<Longrightarrow>
     keeps P (case x of None \<Rightarrow> m | Some a \<Rightarrow> k a)"
  by (cases x) auto

lemma keeps_prod [keeps_intros]:
  "(\<And>a b. x = (a, b) \<Longrightarrow> keeps P (k a b)) \<Longrightarrow> keeps P (case x of (a, b) \<Rightarrow> k a b)"
  by (cases x) auto

lemma keeps_Let [keeps_intros]: "(\<And>x. x = t \<Longrightarrow> keeps P (k x)) \<Longrightarrow> keeps P (let x = t in k x)"
  by simp

text \<open>The value read is that of the state the rest starts from.\<close>

lemma keeps_bind_gets:
  assumes "\<And>v. keeps (\<lambda>s. P s \<and> f s = v) (k v)"
  shows "keeps P (bind (gets f) k)"
  unfolding keeps_def
proof (rule triple_bind)
  show "triple P (gets f) (\<lambda>v s. P s \<and> f s = v) P"
    by (rule triple_gets) simp
  show "triple (\<lambda>s. P s \<and> f s = v) (k v) (\<lambda>_. P) P" for v
    using assms [of v] unfolding keeps_def by (rule triple_conseq) auto
qed

text \<open>Two kept predicates are kept together.\<close>

lemma keeps_conj: "keeps P m \<Longrightarrow> keeps Q m \<Longrightarrow> keeps (\<lambda>s. P s \<and> Q s) m"
  unfolding keeps_def triple_def by (fastforce split: prod.splits outcome.splits)

text \<open>\<open>framed f m\<close>: whether it returns or throws, the computation leaves the part \<open>f\<close> of the
  state as it was.\<close>

definition framed :: "('s \<Rightarrow> 'a) \<Rightarrow> ('s, 'b) cpp \<Rightarrow> bool" where
  "framed f m = (\<forall>v. keeps (\<lambda>s. f s = v) m)"

lemma framedI: "(\<And>v. keeps (\<lambda>s. f s = v) m) \<Longrightarrow> framed f m"
  by (simp add: framed_def)

text \<open>A predicate on that part of the state, together with any other fact of it, is kept.\<close>

lemma framed_keeps: "framed f m \<Longrightarrow> (\<And>s t. f s = f t \<Longrightarrow> P s \<Longrightarrow> P t) \<Longrightarrow> keeps P m"
  unfolding framed_def keeps_def triple_def by (fastforce split: prod.splits outcome.splits)

text \<open>A call into a library that throws a \<open>std::exception\<close> with the given text, and a computation whose behaviour
  is undefined.\<close>

definition rcl :: "string + 'a \<Rightarrow> 'a outcome" where
  "rcl r = (case r of Inl what \<Rightarrow> Throw (StdException what) | Inr a \<Rightarrow> Ok a)"

definition ub :: "string \<Rightarrow> ('s, 'a) cpp" where
  "ub what = lift (UB what)"

definition quoted :: "string \<Rightarrow> string" where
  "quoted s = [CHR 0x27] @ s @ [CHR 0x27]"

lemma framed_weaken: "framed f m \<Longrightarrow> (\<And>s t. f s = f t \<Longrightarrow> g s = g t) \<Longrightarrow> framed g m"
  by (rule framedI, erule framed_keeps) metis

lemma framed_keepsD: "framed f m \<Longrightarrow> keeps (\<lambda>s. f s = v) m"
  by (simp add: framed_def)

lemma keeps_prod_app [keeps_intros]:
  "(\<And>a b. x = (a, b) \<Longrightarrow> keeps P (k a b z)) \<Longrightarrow> keeps P ((case x of (a, b) \<Rightarrow> k a b) z)"
  by (cases x) auto

end
