(* ===== verification/Wire.thy ===== *)
theory Wire
  imports Cpp_Monad
begin

text \<open>
  The binary layer of \<open>cobridge_base\<close>: the little-endian helpers of \<open>serialization.hpp\<close> and
  \<open>ServiceResponse\<close> (also \<open>ServiceRequest\<close>) of \<open>common.hpp\<close> and \<open>serialization.cpp\<close>.  Memory
  is a list of bytes; an access outside it is undefined behaviour, so that memory safety is
  a statement of the model.
\<close>

section \<open>Memory accesses\<close>

text \<open>Storing bytes at an offset of a buffer, and loading a number of them from it.\<close>

definition poke :: "nat \<Rightarrow> bytes \<Rightarrow> bytes \<Rightarrow> bytes outcome" where
  "poke off bs buf =
     (if off + length bs \<le> length buf
      then Ok (take off buf @ bs @ drop (off + length bs) buf)
      else UB ''write out of bounds'')"

definition peek :: "nat \<Rightarrow> nat \<Rightarrow> bytes \<Rightarrow> bytes outcome" where
  "peek off n buf =
     (if off + n \<le> length buf then Ok (take n (drop off buf)) else UB ''read out of bounds'')"

lemma peek_eq_Ok [wire_simps]:
  "off + n \<le> length buf \<Longrightarrow> peek off n buf = Ok (take n (drop off buf))"
  by (simp add: peek_def)

lemma poke_append [wire_simps]:
  "off = length pre \<Longrightarrow> length old = length bs \<Longrightarrow> poke off bs (pre @ old @ post) = Ok (pre @ bs @ post)"
  by (simp add: poke_def)

section \<open>Little-endian integers\<close>

text \<open>
  On either branch of \<open>ARCH_IS_BIG_ENDIAN\<close> the bytes in memory are those written out by the
  shifts; on a little-endian machine the native store has the same effect.
\<close>

definition uint32_LE :: "uint32_t \<Rightarrow> bytes" where
  "uint32_LE val =
     [ucast (val AND 0xff), ucast (drop_bit 8 val AND 0xff),
      ucast (drop_bit 16 val AND 0xff), ucast (drop_bit 24 val AND 0xff)]"

definition uint64_LE :: "uint64_t \<Rightarrow> bytes" where
  "uint64_LE val =
     [ucast (val AND 0xff), ucast (drop_bit 8 val AND 0xff),
      ucast (drop_bit 16 val AND 0xff), ucast (drop_bit 24 val AND 0xff),
      ucast (drop_bit 32 val AND 0xff), ucast (drop_bit 40 val AND 0xff),
      ucast (drop_bit 48 val AND 0xff), ucast (drop_bit 56 val AND 0xff)]"

definition write_uint32_LE :: "nat \<Rightarrow> uint32_t \<Rightarrow> bytes \<Rightarrow> bytes outcome" where
  "write_uint32_LE off val buf = poke off (uint32_LE val) buf"

definition write_uint64_LE :: "nat \<Rightarrow> uint64_t \<Rightarrow> bytes \<Rightarrow> bytes outcome" where
  "write_uint64_LE off val buf = poke off (uint64_LE val) buf"

fun uint32_of_LE :: "bytes \<Rightarrow> uint32_t" where
  "uint32_of_LE (b0 # b1 # b2 # b3 # bs) =
     ucast b0 OR push_bit 8 (ucast b1) OR push_bit 16 (ucast b2) OR push_bit 24 (ucast b3)"
| "uint32_of_LE _ = 0"

definition read_uint32_LE :: "nat \<Rightarrow> bytes \<Rightarrow> uint32_t outcome" where
  "read_uint32_LE off buf = obind (peek off 4 buf) (\<lambda>bs. Ok (uint32_of_LE bs))"

lemma length_uint32_LE [simp]: "length (uint32_LE v) = 4"
  by (simp add: uint32_LE_def)

lemma length_uint64_LE [simp]: "length (uint64_LE v) = 8"
  by (simp add: uint64_LE_def)

text \<open>Storing \<open>w & 0xff\<close> in a byte keeps the low byte of \<open>w\<close>.\<close>

lemma low_byte [wire_simps]: "ucast (w AND 0xff) = (ucast w :: uint8_t)"
proof (rule bit_word_eqI)
  fix n
  assume "n < LENGTH(8)"
  moreover have "w AND 0xff = take_bit 8 w"
    by (simp add: take_bit_eq_mask mask_eq_exp_minus_1)
  ultimately show "bit (ucast (w AND 0xff) :: uint8_t) n = bit (ucast w :: uint8_t) n"
    by (simp add: bit_simps)
qed

lemma uint32_of_uint32_LE [simp, wire_simps]: "uint32_of_LE (uint32_LE v @ bs) = v"
proof (simp add: uint32_LE_def low_byte, rule bit_word_eqI)
  fix n
  assume "n < LENGTH(32)"
  then consider "n < 8" | "8 \<le> n" "n < 16" | "16 \<le> n" "n < 24" | "24 \<le> n" "n < 32"
    by fastforce
  then show "bit (ucast (ucast v :: 8 word) OR
       push_bit 8 (ucast (ucast (drop_bit 8 v) :: 8 word)) OR
       push_bit 16 (ucast (ucast (drop_bit 16 v) :: 8 word)) OR
       push_bit 24 (ucast (ucast (drop_bit 24 v) :: 8 word)) :: uint32_t) n = bit v n"
    by cases (auto simp: bit_simps)
qed

lemma uint32_of_uint32_LE' [simp]: "uint32_of_LE (uint32_LE v) = v"
  using uint32_of_uint32_LE [of v "[]"] by simp

lemma uint32_LE_of_LE: "uint32_LE (uint32_of_LE (b0 # b1 # b2 # b3 # bs)) = [b0, b1, b2, b3]"
proof -
  define w :: uint32_t where
    "w = ucast b0 OR push_bit 8 (ucast b1) OR push_bit 16 (ucast b2) OR push_bit 24 (ucast b3)"
  have "ucast w = b0"
    by (rule bit_word_eqI) (auto simp: w_def bit_simps)
  moreover have "ucast (drop_bit 8 w) = b1"
    by (rule bit_word_eqI) (auto simp: w_def bit_simps dest: bit_imp_le_length)
  moreover have "ucast (drop_bit 16 w) = b2"
    by (rule bit_word_eqI) (auto simp: w_def bit_simps dest: bit_imp_le_length)
  moreover have "ucast (drop_bit 24 w) = b3"
    by (rule bit_word_eqI) (auto simp: w_def bit_simps dest: bit_imp_le_length)
  ultimately show ?thesis
    by (simp add: uint32_LE_def low_byte flip: w_def)
qed

lemma uint32_LE_inject [simp]: "uint32_LE v = uint32_LE w \<longleftrightarrow> v = w"
  by (metis uint32_of_uint32_LE')

text \<open>
  The same promise for every width: what is written at an offset is read back there, and
  nothing else of the buffer changes.
\<close>

lemma read_write_uint32_LE:
  assumes "off + 4 \<le> length buf"
  shows "\<exists>buf'. write_uint32_LE off v buf = Ok buf' \<and> length buf' = length buf \<and>
    read_uint32_LE off buf' = Ok v \<and> take off buf' = take off buf \<and>
    drop (off + 4) buf' = drop (off + 4) buf"
  using assms by (auto simp: write_uint32_LE_def poke_def read_uint32_LE_def peek_def)

section \<open>ServiceResponse\<close>

record service_response =
  service_id :: uint32_t
  call_id :: uint32_t
  encoding :: string
  serv_data :: bytes

type_synonym service_request = service_response

definition ServiceResponse_size :: "service_response \<Rightarrow> nat" where
  "ServiceResponse_size r = 4 + 4 + 4 + length (encoding r) + length (serv_data r)"

definition MAX_ENCODING_LENGTH :: nat where
  "MAX_ENCODING_LENGTH = 256"

text \<open>
  \<open>ServiceResponse::read\<close> assigns the fields of \<open>this\<close> one after the other, so that a
  message refused half way leaves the first fields overwritten.
\<close>

definition ServiceResponse_read :: "bytes \<Rightarrow> (service_response, unit) cpp" where
  "ServiceResponse_read data =
     (let data_length = length data in
      if data_length < 12
      then throw (StdException (''ServiceResponse message too short: '' @ to_string data_length @
             '' bytes (minimum 12)''))
      else
        bind (lift (read_uint32_LE 0 data)) (\<lambda>sid.
        seq (modify (\<lambda>r. r\<lparr>service_id := sid\<rparr>)) (
        bind (lift (read_uint32_LE 4 data)) (\<lambda>cid.
        seq (modify (\<lambda>r. r\<lparr>call_id := cid\<rparr>)) (
        bind (lift (read_uint32_LE 8 data)) (\<lambda>len.
        let encoding_length = unat len; offset = 12 in
        if MAX_ENCODING_LENGTH < encoding_length
        then throw (StdException (''ServiceResponse encoding length too large: '' @
               to_string encoding_length @ '' bytes (max '' @ to_string MAX_ENCODING_LENGTH @ '')''))
        else if data_length < offset + encoding_length
        then throw (StdException (''ServiceResponse encoding length '' @ to_string encoding_length @
               '' exceeds remaining data '' @ to_string (data_length - offset) @ '' bytes''))
        else
          bind (lift (peek offset encoding_length data)) (\<lambda>enc.
          seq (modify (\<lambda>r. r\<lparr>encoding := string_of_bytes enc\<rparr>)) (
          let offset = offset + encoding_length in
          if data_length < offset
          then throw (StdException (''ServiceResponse offset '' @ to_string offset @
                 '' exceeds data length '' @ to_string data_length))
          else
            bind (lift (peek offset (data_length - offset) data)) (\<lambda>payload.
            modify (\<lambda>r. r\<lparr>serv_data := payload\<rparr>))))))))))"

text \<open>\<open>ServiceResponse::write\<close> at the address \<open>buf + off\<close>.\<close>

definition ServiceResponse_write :: "service_response \<Rightarrow> nat \<Rightarrow> bytes \<Rightarrow> bytes outcome" where
  "ServiceResponse_write r off buf =
     obind (write_uint32_LE off (service_id r) buf) (\<lambda>buf.
     obind (write_uint32_LE (off + 4) (call_id r) buf) (\<lambda>buf.
     obind (write_uint32_LE (off + 8) (word_of_nat (length (encoding r))) buf) (\<lambda>buf.
     obind (poke (off + 12) (bytes_of_string (encoding r)) buf) (\<lambda>buf.
     poke (off + 12 + length (encoding r)) (serv_data r) buf))))"

text \<open>The layout as one byte string: what a reader of the protocol document expects.\<close>

definition service_response_bytes :: "service_response \<Rightarrow> bytes" where
  "service_response_bytes r =
     uint32_LE (service_id r) @ uint32_LE (call_id r) @
     uint32_LE (word_of_nat (length (encoding r))) @
     bytes_of_string (encoding r) @ serv_data r"

lemma length_service_response_bytes [simp]:
  "length (service_response_bytes r) = ServiceResponse_size r"
  by (simp add: service_response_bytes_def ServiceResponse_size_def)

lemma obind_assoc: "obind (obind m k) l = obind m (\<lambda>a. obind (k a) l)"
  by (cases m) auto

lemma ServiceResponse_write_layout:
  assumes "off + ServiceResponse_size r \<le> length buf"
  shows "ServiceResponse_write r off buf =
    Ok (take off buf @ service_response_bytes r @ drop (off + ServiceResponse_size r) buf)"
  using assms
  by (simp add: ServiceResponse_write_def write_uint32_LE_def poke_def ServiceResponse_size_def
      service_response_bytes_def ac_simps)

text \<open>The fields a reader finds in a frame, and the frames it accepts.\<close>

definition frame_encoding_length :: "bytes \<Rightarrow> nat" where
  "frame_encoding_length data = unat (uint32_of_LE (take 4 (drop 8 data)))"

definition frame_accepted :: "bytes \<Rightarrow> bool" where
  "frame_accepted data \<longleftrightarrow> 12 \<le> length data \<and>
     frame_encoding_length data \<le> MAX_ENCODING_LENGTH \<and>
     12 + frame_encoding_length data \<le> length data"

definition frame_fields :: "bytes \<Rightarrow> service_response" where
  "frame_fields data =
     \<lparr>service_id = uint32_of_LE (take 4 data),
      call_id = uint32_of_LE (take 4 (drop 4 data)),
      encoding = string_of_bytes (take (frame_encoding_length data) (drop 12 data)),
      serv_data = drop (12 + frame_encoding_length data) data\<rparr>"

lemmas ServiceResponse_read_unfold =
  ServiceResponse_read_def read_uint32_LE_def frame_encoding_length_def frame_fields_def Let_def
  cpp_defs

lemma ServiceResponse_read_accepted:
  "frame_accepted data \<Longrightarrow> ServiceResponse_read data r = (Ok (), frame_fields data)"
  by (simp add: ServiceResponse_read_unfold frame_accepted_def wire_simps)

lemma ServiceResponse_read_refused:
  "\<not> frame_accepted data \<Longrightarrow> \<exists>m. fst (ServiceResponse_read data r) = Throw (StdException m)"
  by (auto simp: ServiceResponse_read_unfold frame_accepted_def wire_simps)

lemma frame_of_service_response:
  assumes "length (encoding r) \<le> MAX_ENCODING_LENGTH"
  shows "frame_accepted (service_response_bytes r)" "frame_fields (service_response_bytes r) = r"
proof -
  have n: "frame_encoding_length (service_response_bytes r) = length (encoding r)"
    using assms by (simp add: frame_encoding_length_def service_response_bytes_def
        MAX_ENCODING_LENGTH_def unat_of_nat)
  then show "frame_accepted (service_response_bytes r)"
    using assms by (simp add: frame_accepted_def ServiceResponse_size_def)
  show "frame_fields (service_response_bytes r) = r"
    by (simp add: frame_fields_def n) (simp add: service_response_bytes_def)
qed

lemma split_four: "4 \<le> length xs \<Longrightarrow> \<exists>a b c d ys. xs = a # b # c # d # ys"
  by (auto simp: numeral_eq_Suc Suc_le_length_iff)

lemma uint32_LE_take4: "4 \<le> length xs \<Longrightarrow> uint32_LE (uint32_of_LE (take 4 xs)) = take 4 xs"
  using split_four [of xs] uint32_LE_of_LE [where bs = "[]"] by (auto simp del: uint32_of_LE.simps)

lemma service_response_of_frame:
  assumes "frame_accepted data"
  shows "service_response_bytes (frame_fields data) = data"
proof -
  from assms have len: "12 + frame_encoding_length data \<le> length data"
    by (simp add: frame_accepted_def)
  have "word_of_nat (frame_encoding_length data) = uint32_of_LE (take 4 (drop 8 data))"
    by (simp add: frame_encoding_length_def)
  moreover have "length (take (frame_encoding_length data) (drop 12 data)) = frame_encoding_length data"
    using len by simp
  ultimately have "service_response_bytes (frame_fields data) =
      take 4 data @ take 4 (drop 4 data) @ take 4 (drop 8 data) @
      take (frame_encoding_length data) (drop 12 data) @ drop (12 + frame_encoding_length data) data"
    using len
    by (simp add: service_response_bytes_def frame_fields_def uint32_LE_take4 del: length_take)
  also have "\<dots> = take (12 + frame_encoding_length data) data @ drop (12 + frame_encoding_length data) data"
    using take_add [of 4 4 data] take_add [of 8 4 data] by (simp add: take_add)
  also have "\<dots> = data"
    by simp
  finally show ?thesis .
qed

section \<open>Properties\<close>

text \<open>C25: A service response with an encoding of at most 256 bytes, written at any offset of a
  buffer with room for \<open>size()\<close> bytes, is read back as it was, whatever the object read into
  held before; the write stays within the buffer.\<close>

theorem service_response_roundtrip:
  assumes "length (encoding r) \<le> MAX_ENCODING_LENGTH"
    and "off + ServiceResponse_size r \<le> length buf"
  shows "\<exists>buf'. ServiceResponse_write r off buf = Ok buf' \<and> length buf' = length buf \<and>
    take off buf' = take off buf \<and>
    ServiceResponse_read (take (ServiceResponse_size r) (drop off buf')) old = (Ok (), r)"
  using assms
  by (simp add: ServiceResponse_write_layout ServiceResponse_read_accepted frame_of_service_response)

theorem service_response_roundtrip_witness:
  "\<exists>buf'. ServiceResponse_write
       \<lparr>service_id = 1, call_id = 2, encoding = ''json'', serv_data = [1, 2, 3]\<rparr> 1 (replicate 20 0) = Ok buf' \<and>
     length buf' = length (replicate 20 (0 :: uint8_t)) \<and>
     take 1 buf' = take 1 (replicate 20 0) \<and>
     ServiceResponse_read (take (ServiceResponse_size
         \<lparr>service_id = 1, call_id = 2, encoding = ''json'', serv_data = [1, 2, 3]\<rparr>) (drop 1 buf'))
       \<lparr>service_id = 0, call_id = 0, encoding = [], serv_data = []\<rparr> =
     (Ok (), \<lparr>service_id = 1, call_id = 2, encoding = ''json'', serv_data = [1, 2, 3]\<rparr>)"
  by (rule service_response_roundtrip) (simp_all add: MAX_ENCODING_LENGTH_def ServiceResponse_size_def)

text \<open>C26: Reading never leaves the frame: on every byte string \<open>ServiceResponse::read\<close> either
  throws a \<open>std::runtime_error\<close> or returns, and it returns exactly when the frame has twelve
  bytes, an encoding length of at most 256 and that many bytes after the header.\<close>

theorem service_response_read_total:
  "if 12 \<le> length data \<and> unat (uint32_of_LE (take 4 (drop 8 data))) \<le> 256 \<and>
      12 + unat (uint32_of_LE (take 4 (drop 8 data))) \<le> length data
   then fst (ServiceResponse_read data r) = Ok ()
   else \<exists>m. fst (ServiceResponse_read data r) = Throw (StdException m)"
  using ServiceResponse_read_accepted [of data r] ServiceResponse_read_refused [of data r]
  by (auto simp: frame_accepted_def frame_encoding_length_def MAX_ENCODING_LENGTH_def)

text \<open>The accepted frames are canonical: writing what was read from a frame into a buffer
  of its length gives the same bytes.\<close>

lemma service_response_canonical:
  assumes "ServiceResponse_read data old = (Ok (), r)" and "length buf = length data"
  shows "ServiceResponse_write r 0 buf = Ok data"
proof -
  have acc: "frame_accepted data"
    using assms(1) ServiceResponse_read_refused [of data old] by auto
  then have r: "service_response_bytes r = data"
    using assms(1) ServiceResponse_read_accepted [OF acc, of old] service_response_of_frame by auto
  then have "ServiceResponse_size r = length data"
    by (simp flip: length_service_response_bytes)
  with r assms(2) show ?thesis
    by (simp add: ServiceResponse_write_layout)
qed

lemma service_response_canonical_witness:
  "ServiceResponse_write \<lparr>service_id = 7, call_id = 1, encoding = ''a'', serv_data = [9]\<rparr> 0
     (replicate 14 0) = Ok [7, 0, 0, 0, 1, 0, 0, 0, 1, 0, 0, 0, 97, 9]"
  by (rule service_response_canonical
      [where old = "\<lparr>service_id = 0, call_id = 0, encoding = [], serv_data = []\<rparr>"])
    (code_simp, simp)

end
