(* ===== verification/Base64.thy ===== *)
theory Base64
  imports Wire
begin

text \<open>
  \<open>base64_encode\<close> and \<open>base64_decode\<close> of \<open>cobridge_base/src/base64.cpp\<close>, used for parameters
  of type byte array, and the proof that decoding inverts encoding.
\<close>

section \<open>Encoding\<close>

definition ALPHABET :: string where
  "ALPHABET = ''ABCDEFGHIJKLMNOPQRSTUVWXYZabcdefghijklmnopqrstuvwxyz0123456789+/''"

definition alphabet_at :: "uint8_t \<Rightarrow> char" where
  "alphabet_at w = ALPHABET ! unat w"

text \<open>The loop over groups of three bytes and the \<open>switch\<close> on the one or two bytes left.\<close>

fun base64_encode :: "bytes \<Rightarrow> string" where
  "base64_encode (a # b # c # rest) =
     [alphabet_at (drop_bit 2 a),
      alphabet_at (push_bit 4 (a AND 0x03) OR drop_bit 4 b),
      alphabet_at (push_bit 2 (b AND 0x0F) OR drop_bit 6 c),
      alphabet_at (c AND 0x3F)] @ base64_encode rest"
| "base64_encode [a, b] =
     [alphabet_at (drop_bit 2 a),
      alphabet_at (push_bit 4 (a AND 0x03) OR drop_bit 4 b),
      alphabet_at (push_bit 2 (b AND 0x0F)), CHR ''='']"
| "base64_encode [a] =
     [alphabet_at (drop_bit 2 a), alphabet_at (push_bit 4 (a AND 0x03)), CHR ''='', CHR ''='']"
| "base64_encode [] = []"

section \<open>Decoding\<close>

text \<open>The chain of range tests on one character: the six bits it stands for.\<close>

definition base64_digit :: "char \<Rightarrow> uint32_t option" where
  "base64_digit c =
     (let v = of_char c :: nat in
      if 0x41 \<le> v \<and> v \<le> 0x5A then Some (word_of_nat (v - 0x41))
      else if 0x61 \<le> v \<and> v \<le> 0x7A then Some (word_of_nat (v - 0x47))
      else if 0x30 \<le> v \<and> v \<le> 0x39 then Some (word_of_nat (v + 0x04))
      else if v = 0x2B then Some 0x3E
      else if v = 0x2F then Some 0x3F
      else None)"

text \<open>
  The two nested loops, one character per step: \<open>i\<close> counts within a group of four, \<open>temp\<close>
  is never reset, \<open>it\<close> are the characters from the iterator to the end.  Running off the end
  within a group would dereference \<open>input.end()\<close>.
\<close>

fun base64_loop :: "nat \<Rightarrow> uint32_t \<Rightarrow> bytes \<Rightarrow> string \<Rightarrow> bytes outcome" where
  "base64_loop i temp decoded [] =
     (if i = 0 then Ok decoded else UB ''dereference of the end iterator'')"
| "base64_loop i temp decoded (c # it) =
     (let temp = push_bit 6 temp in
      case base64_digit c of
        Some d \<Rightarrow>
          let temp = temp OR d in
          if i = 3
          then base64_loop 0 temp
                 (decoded @ [ucast (drop_bit 16 temp AND 0xff), ucast (drop_bit 8 temp AND 0xff),
                             ucast (temp AND 0xff)]) it
          else base64_loop (Suc i) temp decoded it
      | None \<Rightarrow>
          if c = CHR ''='' then
            if length (c # it) = 1
            then Ok (decoded @ [ucast (drop_bit 16 temp AND 0xff), ucast (drop_bit 8 temp AND 0xff)])
            else if length (c # it) = 2
            then Ok (decoded @ [ucast (drop_bit 10 temp AND 0xff)])
            else Throw (StdException ''Invalid padding in base64!'')
          else Throw (StdException ''Invalid character in base64!''))"

definition base64_decode :: "string \<Rightarrow> bytes outcome" where
  "base64_decode input =
     (if length input mod 4 \<noteq> 0 then Throw (StdException ''Invalid base64 length!'')
      else base64_loop 0 0 [] input)"

section \<open>Digits\<close>

lemma alphabet_digits:
  "list_all2 (\<lambda>c n. base64_digit c = Some (word_of_nat n)) ALPHABET [0..<64]"
proof -
  have "[0..<64] = 0 # 1 # [2..<64 :: nat]"
    by (simp add: upt_conv_Cons del: upt_rec_numeral flip: numeral_2_eq_2)
  then show ?thesis
    by (simp add: ALPHABET_def base64_digit_def)
qed

lemma digit_of_alphabet:
  assumes "w < (64 :: uint8_t)"
  shows "base64_digit (alphabet_at w) = Some (ucast w)"
proof -
  from assms have "unat w < 64"
    by (simp add: word_less_nat_alt)
  then have "base64_digit (ALPHABET ! unat w) = Some (word_of_nat (unat w))"
    using list_all2_nthD2 [OF alphabet_digits, of "unat w"] by (simp del: upt_rec_numeral)
  then show ?thesis
    by (simp add: alphabet_at_def)
qed

lemma quad_indices:
  fixes a b c :: uint8_t
  shows "drop_bit 2 a < 64" "push_bit 4 (a AND 0x03) OR drop_bit 4 b < 64"
    "push_bit 2 (b AND 0x0F) OR drop_bit 6 c < 64" "c AND 0x3F < 64"
    "push_bit 4 (a AND 0x03) < 64" "push_bit 2 (b AND 0x0F) < 64"
proof -
  have lt: "w < 64" if "\<And>n. 6 \<le> n \<Longrightarrow> \<not> bit w n" for w :: uint8_t
  proof -
    have "w = take_bit 6 w"
      using that by (intro bit_word_eqI) (auto simp: bit_simps not_le intro: ccontr)
    then have "unat w = take_bit 6 (unat w)"
      by (metis unsigned_take_bit_eq)
    then have "unat w < 2 ^ 6"
      by (metis take_bit_nat_less_exp)
    then show ?thesis
      by (simp add: word_less_nat_alt)
  qed
  have m3: "(0x03 :: uint8_t) = mask 2" and mF: "(0x0F :: uint8_t) = mask 4"
    and m3F: "(0x3F :: uint8_t) = mask 6"
    by (simp_all add: mask_eq_exp_minus_1)
  show "drop_bit 2 a < 64" "push_bit 4 (a AND 0x03) OR drop_bit 4 b < 64"
    "push_bit 2 (b AND 0x0F) OR drop_bit 6 c < 64" "c AND 0x3F < 64"
    "push_bit 4 (a AND 0x03) < 64" "push_bit 2 (b AND 0x0F) < 64"
    unfolding m3 mF m3F by (intro lt; auto simp: bit_simps dest: bit_imp_le_length)+
qed

lemmas mask_numerals =
  mask_eq_exp_minus_1 [of 2, where 'a = "8 word", simplified, symmetric]
  mask_eq_exp_minus_1 [of 4, where 'a = "8 word", simplified, symmetric]
  mask_eq_exp_minus_1 [of 6, where 'a = "8 word", simplified, symmetric]

lemma lt8: "n < LENGTH(8) \<Longrightarrow> n = 0 \<or> n = 1 \<or> n = 2 \<or> n = 3 \<or> n = 4 \<or> n = 5 \<or> n = 6 \<or> n = 7"
  by auto

lemma byte_bit_high: "8 \<le> n \<Longrightarrow> \<not> bit (w :: uint8_t) n"
  by (auto dest: bit_imp_le_length)

text \<open>The four digits of a group, pushed through \<open>temp\<close>, whatever it held before.\<close>

definition digits4 :: "uint32_t \<Rightarrow> uint8_t \<Rightarrow> uint8_t \<Rightarrow> uint8_t \<Rightarrow> uint8_t \<Rightarrow> uint32_t" where
  "digits4 t i j k l = push_bit 6 (push_bit 6 (push_bit 6 (push_bit 6 t OR ucast i) OR ucast j) OR ucast k) OR ucast l"

lemma quad_bytes:
  fixes a b c :: uint8_t and t :: uint32_t
  defines "t' \<equiv> digits4 t (drop_bit 2 a) (push_bit 4 (a AND 0x03) OR drop_bit 4 b)
    (push_bit 2 (b AND 0x0F) OR drop_bit 6 c) (c AND 0x3F)"
  shows "ucast (drop_bit 16 t') = a" "ucast (drop_bit 8 t') = b" "ucast t' = c"
  unfolding t'_def digits4_def mask_numerals
  by (rule bit_word_eqI, drule lt8, elim disjE; simp add: bit_simps byte_bit_high)+

text \<open>The last group, with its padding characters.\<close>

definition digits3 :: "uint32_t \<Rightarrow> uint8_t \<Rightarrow> uint8_t \<Rightarrow> uint8_t \<Rightarrow> uint32_t" where
  "digits3 t i j k = push_bit 6 (push_bit 6 (push_bit 6 (push_bit 6 t OR ucast i) OR ucast j) OR ucast k)"

definition digits2 :: "uint32_t \<Rightarrow> uint8_t \<Rightarrow> uint8_t \<Rightarrow> uint32_t" where
  "digits2 t i j = push_bit 6 (push_bit 6 (push_bit 6 t OR ucast i) OR ucast j)"

lemma triple_bytes:
  fixes a b :: uint8_t and t :: uint32_t
  defines "t' \<equiv> digits3 t (drop_bit 2 a) (push_bit 4 (a AND 0x03) OR drop_bit 4 b) (push_bit 2 (b AND 0x0F))"
  shows "ucast (drop_bit 16 t') = a" "ucast (drop_bit 8 t') = b"
  unfolding t'_def digits3_def mask_numerals
  by (rule bit_word_eqI, drule lt8, elim disjE; simp add: bit_simps byte_bit_high)+

lemma pair_bytes:
  fixes a :: uint8_t and t :: uint32_t
  shows "ucast (drop_bit 10 (digits2 t (drop_bit 2 a) (push_bit 4 (a AND 0x03)))) = a"
  unfolding digits2_def mask_numerals
  by (rule bit_word_eqI, drule lt8, elim disjE; simp add: bit_simps byte_bit_high)

lemma pad_is_no_digit: "base64_digit (CHR ''='') = None"
  by (simp add: base64_digit_def)

lemma base64_loop_quad:
  assumes "i < 64" "j < 64" "k < 64" "l < 64"
  shows "base64_loop 0 t dec (alphabet_at i # alphabet_at j # alphabet_at k # alphabet_at l # it) =
    base64_loop 0 (digits4 t i j k l)
      (dec @ [ucast (drop_bit 16 (digits4 t i j k l)), ucast (drop_bit 8 (digits4 t i j k l)),
              ucast (digits4 t i j k l)]) it"
  using assms by (simp add: digit_of_alphabet Let_def low_byte digits4_def)

lemma base64_loop_triple:
  assumes "i < 64" "j < 64" "k < 64"
  shows "base64_loop 0 t dec [alphabet_at i, alphabet_at j, alphabet_at k, CHR ''=''] =
    Ok (dec @ [ucast (drop_bit 16 (digits3 t i j k)), ucast (drop_bit 8 (digits3 t i j k))])"
  using assms by (simp add: digit_of_alphabet Let_def low_byte digits3_def pad_is_no_digit)

lemma base64_loop_pair:
  assumes "i < 64" "j < 64"
  shows "base64_loop 0 t dec [alphabet_at i, alphabet_at j, CHR ''='', CHR ''=''] =
    Ok (dec @ [ucast (drop_bit 10 (digits2 t i j))])"
  using assms by (simp add: digit_of_alphabet Let_def low_byte digits2_def pad_is_no_digit)

lemma base64_loop_encode:
  "base64_loop 0 temp decoded (base64_encode data) = Ok (decoded @ data)"
proof (induction data arbitrary: temp decoded rule: base64_encode.induct)
  case (1 a b c rest)
  then show ?case
    by (simp only: base64_encode.simps append.simps append_assoc
        base64_loop_quad [OF quad_indices(1-4)] quad_bytes)
next
  case (2 a b)
  then show ?case
    by (simp only: base64_encode.simps base64_loop_triple [OF quad_indices(1,2,6)] triple_bytes)
next
  case (3 a)
  then show ?case
    by (simp only: base64_encode.simps base64_loop_pair [OF quad_indices(1,5)] pair_bytes)
next
  case 4
  then show ?case by simp
qed

lemma length_base64_encode: "length (base64_encode data) = (length data + 2) div 3 * 4"
proof (induction data rule: base64_encode.induct)
  case (1 a b c rest)
  have "(length (a # b # c # rest) + 2) div 3 = Suc ((length rest + 2) div 3)"
    using div_add_self1 [of 3 "length rest + 2"] by simp
  with 1 show ?case by simp
qed simp_all

section \<open>Safety of the decoder\<close>

lemma base64_loop_safe:
  "(i + length it) mod 4 = 0 \<Longrightarrow> i < 4 \<Longrightarrow> base64_loop i temp decoded it \<noteq> UB u"
proof (induction i temp decoded it rule: base64_loop.induct)
  case (1 i temp decoded)
  then show ?case by (auto simp: mod_less)
next
  case (2 i temp decoded c it)
  show ?case
  proof (cases "base64_digit c")
    case None
    then show ?thesis by (simp add: Let_def)
  next
    case (Some d)
    show ?thesis
    proof (cases "i = 3")
      case True
      have "(4 + length it) mod 4 = 0"
        using 2(3) True by simp
      then have "length it mod 4 = 0"
        by simp
      then show ?thesis
        using 2(1) [OF refl Some refl True] Some True by (simp add: Let_def)
    next
      case False
      then show ?thesis
        using 2(2) [OF refl Some refl False] "2.prems" Some by (simp add: Let_def)
    qed
  qed
qed

section \<open>Properties\<close>

text \<open>C27: Decoding inverts encoding for every byte string, and the encoding has four characters
  for every group of up to three bytes.\<close>

theorem base64_roundtrip:
  "base64_decode (base64_encode data) = Ok data \<and>
   length (base64_encode data) = (length data + 2) div 3 * 4"
  using base64_loop_encode [of 0 "[]" data]
  by (simp add: base64_decode_def length_base64_encode)

text \<open>Decoding is total: on every string it returns bytes or throws one of its three
  exceptions, and it never reads past the end of the input.\<close>

lemma base64_decode_total:
  "base64_decode input \<noteq> UB u"
  using base64_loop_safe [of 0 input 0 "[]" u] by (simp add: base64_decode_def)

end
