(* ===== verification/Json.thy ===== *)
theory Json
  imports Wire
begin

text \<open>
  The part of \<open>nlohmann::json\<close> (\<open>vendor/nlohmann_json/3.11.3\<close>) that the sources use: values,
  element access and conversions, with the exception each of them throws.  Text and binary
  forms are not modelled: parsing is an argument of the functions that call it.
\<close>

section \<open>Values\<close>

datatype json =
    JNull
  | JBool bool
  | JInt int64_t
  | JUint uint64_t
  | JFloat double
  | JStr string
  | JArr "json list"
  | JObj "(string \<times> json) list"

fun type_name :: "json \<Rightarrow> string" where
  "type_name JNull = ''null''"
| "type_name (JObj _) = ''object''"
| "type_name (JArr _) = ''array''"
| "type_name (JStr _) = ''string''"
| "type_name (JBool _) = ''boolean''"
| "type_name _ = ''number''"

section \<open>Objects\<close>

text \<open>
  An object is a \<open>std::map\<close>, iterated in the order of its keys, which \<open>std::string\<close> compares
  byte by byte.
\<close>

fun str_less :: "string \<Rightarrow> string \<Rightarrow> bool" where
  "str_less s [] = False"
| "str_less [] (d # ds) = True"
| "str_less (c # cs) (d # ds) = (of_char c < (of_char d :: nat) \<or> c = d \<and> str_less cs ds)"

fun jo_assign :: "string \<Rightarrow> 'v \<Rightarrow> (string \<times> 'v) list \<Rightarrow> (string \<times> 'v) list" where
  "jo_assign k v [] = [(k, v)]"
| "jo_assign k v ((k', v') # m) =
     (if k = k' then (k, v) # m
      else if str_less k k' then (k, v) # (k', v') # m
      else (k', v') # jo_assign k v m)"

definition jo_emplace :: "string \<Rightarrow> 'v \<Rightarrow> (string \<times> 'v) list \<Rightarrow> (string \<times> 'v) list" where
  "jo_emplace k v m = (if m_contains m k then m else jo_assign k v m)"

definition jo_invar :: "(string \<times> 'v) list \<Rightarrow> bool" where
  "jo_invar m = sorted_wrt str_less (m_keys m)"

lemma str_less_irrefl [simp]: "\<not> str_less s s"
  by (induction s) auto

lemma str_less_trans: "str_less s t \<Longrightarrow> str_less t u \<Longrightarrow> str_less s u"
proof (induction s t arbitrary: u rule: str_less.induct)
  case (3 c cs d ds)
  then show ?case by (cases u) auto
qed (auto elim: str_less.elims)

lemma str_less_linear: "str_less s t \<or> s = t \<or> str_less t s"
  by (induction s t rule: str_less.induct) (auto simp: neq_iff elim: str_less.elims)

lemma find_jo_assign [simp]:
  "m_find (jo_assign k v m) k' = (if k' = k then Some v else m_find m k')"
  by (induction k v m rule: jo_assign.induct) auto

lemma find_jo_emplace [simp]:
  "m_find (jo_emplace k v m) k' = (if k' = k \<and> m_find m k = None then Some v else m_find m k')"
  by (auto simp: jo_emplace_def m_contains_def)

lemma set_keys_jo_assign [simp]: "set (m_keys (jo_assign k v m)) = insert k (set (m_keys m))"
  by (induction k v m rule: jo_assign.induct) (auto simp: m_keys_def)

lemma invar_jo_assign: "jo_invar m \<Longrightarrow> jo_invar (jo_assign k v m)"
proof (induction k v m rule: jo_assign.induct)
  case (1 k v)
  then show ?case by (simp add: jo_invar_def m_keys_def)
next
  case (2 k v k' v' m)
  have cons: "jo_invar ((a, b) # n) \<longleftrightarrow> (\<forall>x \<in> set (m_keys n). str_less a x) \<and> jo_invar n"
    for a n and b :: 'a
    by (simp add: jo_invar_def m_keys_def)
  show ?case
  proof (cases "k = k' \<or> str_less k k'")
    case True
    with "2.prems" show ?thesis
      by (auto simp: cons m_keys_def intro: str_less_trans)
  next
    case False
    then have "str_less k' k"
      using str_less_linear by blast
    with False 2 show ?thesis
      by (auto simp: cons)
  qed
qed

lemma invar_jo_erase: "jo_invar m \<Longrightarrow> jo_invar (m_erase k m)"
  by (auto simp: jo_invar_def m_keys_def m_erase_def AList.delete_eq sorted_wrt_map sorted_wrt_filter)

interpretation jo: assoc_container "[] :: (string \<times> 'v) list" m_find jo_assign jo_emplace m_erase jo_invar
proof (unfold_locales, goal_cases)
  case (6 m k v)
  then show ?case by (rule invar_jo_assign)
next
  case (7 m k v)
  then show ?case by (simp add: jo_emplace_def invar_jo_assign)
next
  case (8 m k)
  then show ?case by (rule invar_jo_erase)
qed (auto simp: jo_emplace_def m_contains_def jo_invar_def m_keys_def)

text \<open>An object written as an initializer list.\<close>

definition jobject :: "(string \<times> json) list \<Rightarrow> json" where
  "jobject kvs = JObj (fold (\<lambda>(k, v). jo_emplace k v) kvs [])"

lemma jobject_find:
  "m_find (fold (\<lambda>(k, v). jo_emplace k v) kvs []) k = map_of kvs k"
  using jo.find_emplace_all [OF jo.invar_empty, of kvs k] by simp

text \<open>\<open>obj[k] = v\<close> on a value that is null (a new object) or an object.\<close>

fun j_put :: "string \<Rightarrow> json \<Rightarrow> json \<Rightarrow> json outcome" where
  "j_put k v JNull = Ok (JObj [(k, v)])"
| "j_put k v (JObj m) = Ok (JObj (jo_assign k v m))"
| "j_put k v j = Throw (StdException (''[json.exception.type_error.305] cannot use operator[] with a string argument with '' @ type_name j))"

section \<open>Element access\<close>

text \<open>\<open>j.find(k)\<close>: the end iterator for anything but an object.\<close>

fun j_find :: "json \<Rightarrow> string \<Rightarrow> json option" where
  "j_find (JObj m) k = m_find m k"
| "j_find j k = None"

text \<open>\<open>j.at(k)\<close>.\<close>

fun j_at :: "json \<Rightarrow> string \<Rightarrow> json outcome" where
  "j_at (JObj m) k =
     (case m_find m k of
        Some v \<Rightarrow> Ok v
      | None \<Rightarrow> Throw (StdException (''[json.exception.out_of_range.403] key '' @ [CHR 0x27] @ k @ [CHR 0x27] @ '' not found'')))"
| "j_at j k = Throw (StdException (''[json.exception.type_error.304] cannot use at() with '' @ type_name j))"

text \<open>\<open>j[k]\<close> on a constant value: a missing key violates the assertion in \<open>operator[]\<close>.\<close>

fun j_index :: "json \<Rightarrow> string \<Rightarrow> json outcome" where
  "j_index (JObj m) k =
     (case m_find m k of Some v \<Rightarrow> Ok v | None \<Rightarrow> UB ''operator[] of a missing key'')"
| "j_index j k = Throw (StdException (''[json.exception.type_error.305] cannot use operator[] with a string argument with '' @ type_name j))"

text \<open>A range-based \<open>for\<close> over a value: a primitive is a range of itself.\<close>

fun j_items :: "json \<Rightarrow> json list" where
  "j_items JNull = []"
| "j_items (JArr xs) = xs"
| "j_items (JObj m) = map snd m"
| "j_items j = [j]"

section \<open>Floating-point numbers\<close>

text \<open>
  Conversions between integers and IEEE 754 binary64: truncation towards zero (\<open>None\<close> for an
  infinity or a NaN), and rounding to nearest, ties to even.
\<close>

definition double_trunc :: "double \<Rightarrow> int option" where
  "double_trunc d =
     (let e = unat (take_bit 11 (drop_bit 52 d));
          f = uint (take_bit 52 d);
          m = (if e = 0 then f else 2 ^ 52 + f);
          x = (if e = 0 then 1 else e);
          a = (if 1075 \<le> x then m * 2 ^ (x - 1075) else m div 2 ^ (1075 - x))
      in if e = 2047 then None else Some (if bit d 63 then - a else a))"

text \<open>The position of the highest bit of a positive number.\<close>

fun high_bit :: "nat \<Rightarrow> nat" where
  "high_bit n = (if n \<le> 1 then 0 else Suc (high_bit (n div 2)))"

declare high_bit.simps [simp del]

text \<open>Significand (53 bits) and exponent of a positive number after rounding.\<close>

definition round_nearest :: "nat \<Rightarrow> nat \<times> nat" where
  "round_nearest n =
     (let b = high_bit n in
      if b \<le> 52 then (n * 2 ^ (52 - b), b)
      else
        let q = n div 2 ^ (b - 52); r = n mod 2 ^ (b - 52); half = 2 ^ (b - 53);
            q' = (if half < r \<or> half = r \<and> odd q then q + 1 else q)
        in if q' = 2 ^ 53 then (2 ^ 52, b + 1) else (q', b))"

definition double_of_int :: "int \<Rightarrow> double" where
  "double_of_int i =
     (if i = 0 then 0
      else case round_nearest (nat \<bar>i\<bar>) of (m, b) \<Rightarrow>
        word_of_nat ((if i < 0 then 2 ^ 63 else 0) + (b + 1023) * 2 ^ 52 + (m - 2 ^ 52)))"

section \<open>Conversions\<close>

definition type_error_302 :: "string \<Rightarrow> json \<Rightarrow> exn" where
  "type_error_302 want j =
     StdException (''[json.exception.type_error.302] type must be '' @ want @ '', but is '' @ type_name j)"

fun get_string :: "json \<Rightarrow> string outcome" where
  "get_string (JStr s) = Ok s"
| "get_string j = Throw (type_error_302 ''string'' j)"

fun get_bool :: "json \<Rightarrow> bool outcome" where
  "get_bool (JBool b) = Ok b"
| "get_bool j = Throw (type_error_302 ''boolean'' j)"

text \<open>\<open>static_cast\<close> from \<open>double\<close> to a \<open>w\<close>-bit integer: undefined outside its range.\<close>

definition double_to_u32 :: "double \<Rightarrow> uint32_t outcome" where
  "double_to_u32 d =
     (case double_trunc d of
        Some i \<Rightarrow> if 0 \<le> i \<and> i < 2 ^ 32 then Ok (word_of_int i) else UB ''float to integer overflow''
      | None \<Rightarrow> UB ''float to integer overflow'')"

definition double_to_i64 :: "double \<Rightarrow> int64_t outcome" where
  "double_to_i64 d =
     (case double_trunc d of
        Some i \<Rightarrow> if - (2 ^ 63) \<le> i \<and> i < 2 ^ 63 then Ok (word_of_int i) else UB ''float to integer overflow''
      | None \<Rightarrow> UB ''float to integer overflow'')"

text \<open>\<open>get<uint32_t>\<close> takes every arithmetic type, booleans included; integers wrap around.\<close>

fun get_u32 :: "json \<Rightarrow> uint32_t outcome" where
  "get_u32 (JUint w) = Ok (ucast w)"
| "get_u32 (JInt w) = Ok (ucast w)"
| "get_u32 (JFloat d) = double_to_u32 d"
| "get_u32 (JBool b) = Ok (if b then 1 else 0)"
| "get_u32 j = Throw (type_error_302 ''number'' j)"

fun get_i64 :: "json \<Rightarrow> int64_t outcome" where
  "get_i64 (JUint w) = Ok w"
| "get_i64 (JInt w) = Ok w"
| "get_i64 (JFloat d) = double_to_i64 d"
| "get_i64 j = Throw (type_error_302 ''number'' j)"

fun get_double :: "json \<Rightarrow> double outcome" where
  "get_double (JUint w) = Ok (double_of_int (uint w))"
| "get_double (JInt w) = Ok (double_of_int (sint w))"
| "get_double (JFloat d) = Ok d"
| "get_double j = Throw (type_error_302 ''number'' j)"

text \<open>\<open>get<std::vector<T>>\<close>.\<close>

fun get_array :: "(json \<Rightarrow> 'a outcome) \<Rightarrow> json \<Rightarrow> 'a list outcome" where
  "get_array f (JArr xs) = omap f xs"
| "get_array f j = Throw (type_error_302 ''array'' j)"

text \<open>A 32-bit number converted to JSON is an unsigned number.\<close>

definition json_u32 :: "uint32_t \<Rightarrow> json" where
  "json_u32 w = JUint (ucast w)"

lemma get_json_u32 [simp]: "get_u32 (json_u32 w) = Ok w"
  unfolding json_u32_def by (simp, rule bit_word_eqI, simp add: bit_simps)

text \<open>\<open>j.at(k).get<T>()\<close>.\<close>

definition at_get :: "(json \<Rightarrow> 'a outcome) \<Rightarrow> json \<Rightarrow> string \<Rightarrow> 'a outcome" where
  "at_get f j k = obind (j_at j k) f"

section \<open>Integers up to \<open>2\<^sup>5\<^sup>3\<close> are doubles\<close>

lemma high_bit_bounds: "0 < n \<Longrightarrow> 2 ^ high_bit n \<le> n \<and> n < 2 * 2 ^ high_bit n"
proof (induction n rule: high_bit.induct)
  case (1 n)
  show ?case
  proof (cases "n \<le> 1")
    case True
    with "1.prems" show ?thesis by (simp add: high_bit.simps [of n])
  next
    case False
    with "1.IH" have "2 ^ high_bit (n div 2) \<le> n div 2 \<and> n div 2 < 2 * 2 ^ high_bit (n div 2)"
      by simp
    with False show ?thesis
      by (subst (1 2) high_bit.simps) auto
  qed
qed

lemma high_bit_le:
  assumes "0 < n" "n < 2 ^ Suc k"
  shows "high_bit n \<le> k"
proof (rule ccontr)
  assume "\<not> high_bit n \<le> k"
  then have "(2 :: nat) ^ Suc k \<le> 2 ^ high_bit n"
    by (intro power_increasing) auto
  with high_bit_bounds [OF assms(1)] assms(2) show False by simp
qed

text \<open>The fields of a bit pattern put together from sign, exponent and fraction.\<close>

lemma double_fields:
  fixes e f :: nat and neg :: bool
  assumes "e < 2048" "f < 2 ^ 52"
  defines "w \<equiv> word_of_nat ((if neg then 2 ^ 63 else 0) + e * 2 ^ 52 + f) :: double"
  shows "unat (take_bit 11 (drop_bit 52 w)) = e" "uint (take_bit 52 w) = int f" "bit w 63 = neg"
proof -
  let ?n = "(if neg then 2 ^ 63 else 0) + e * 2 ^ 52 + f"
  have lt: "?n < 2 ^ 64"
    using assms by simp
  then have w: "unat w = ?n"
    unfolding w_def unat_of_nat by (intro mod_less) simp
  have n: "?n = ((if neg then 2048 else 0) + e) * 2 ^ 52 + f"
    by simp
  have d: "?n div 2 ^ 52 = (if neg then 2048 else 0) + e" "?n mod 2 ^ 52 = f"
    unfolding n using assms by (simp_all del: power_numeral power.simps)
  have "unat (take_bit 11 (drop_bit 52 w)) = take_bit 11 (drop_bit 52 (unat w))"
    using lt unfolding w [symmetric]
    by (simp add: unsigned_take_bit_eq unsigned_drop_bit_eq take_bit_nat_eq_self)
  also have "\<dots> = ?n div 2 ^ 52 mod 2 ^ 11"
    by (simp only: w take_bit_eq_mod drop_bit_eq_div)
  also have "\<dots> = e"
    unfolding d using assms by simp
  finally show "unat (take_bit 11 (drop_bit 52 w)) = e" .
  have "unat (take_bit 52 w) = take_bit 52 (unat w)"
    by (simp add: unsigned_take_bit_eq)
  also have "\<dots> = f"
    by (simp only: w take_bit_eq_mod d)
  finally show "uint (take_bit 52 w) = int f"
    by (metis uint_nat)
  have "bit w 63 = bit (unat w) (52 + 11)"
    by (simp add: bit_unsigned_iff)
  also have "\<dots> = bit (?n div 2 ^ 52) 11"
    by (simp only: w drop_bit_eq_div [symmetric] bit_drop_bit_eq o_def)
  also have "\<dots> = neg"
    unfolding d using assms(1) by (simp add: bit_iff_odd div_add_self1)
  finally show "bit w 63 = neg" .
qed

lemma round_nearest_exact:
  assumes "0 < n" "n \<le> 2 ^ 53" "round_nearest n = (m, b)"
  shows "2 ^ 52 \<le> m \<and> m < 2 ^ 53 \<and> b \<le> 53 \<and>
    (if 52 \<le> b then n = m * 2 ^ (b - 52) else n = m div 2 ^ (52 - b))"
proof (cases "n = 2 ^ 53")
  case True
  have "high_bit n = 53"
  proof (rule antisym)
    show "high_bit n \<le> 53"
      using True by (intro high_bit_le) auto
    have "(2 :: nat) ^ 53 < 2 ^ Suc (high_bit n)"
      using high_bit_bounds [OF assms(1)] True by simp
    then have "53 < Suc (high_bit n)"
      by (rule power_less_imp_less_exp [rotated]) simp
    then show "53 \<le> high_bit n" by simp
  qed
  with True assms(3) show ?thesis
    by (auto simp: round_nearest_def Let_def)
next
  case False
  with assms have le: "high_bit n \<le> 52"
    by (intro high_bit_le) auto
  let ?b = "high_bit n"
  have mb: "m = n * 2 ^ (52 - ?b)" "b = ?b"
    using assms(3) le by (auto simp: round_nearest_def Let_def)
  have "(2 :: nat) ^ ?b * 2 ^ (52 - ?b) = 2 ^ 52"
    using le by (simp flip: power_add)
  moreover have "2 ^ ?b * 2 ^ (52 - ?b) \<le> m" "m < 2 * 2 ^ ?b * 2 ^ (52 - ?b)"
    using high_bit_bounds [OF assms(1)] by (auto simp: mb)
  ultimately have "2 ^ 52 \<le> m \<and> m < 2 ^ 53"
    by simp
  then show ?thesis
    using le by (auto simp: mb)
qed

lemma double_of_int_exact:
  assumes "\<bar>i\<bar> \<le> 2 ^ 53"
  shows "double_trunc (double_of_int i) = Some i"
proof (cases "i = 0")
  case True
  then show ?thesis by (simp add: double_of_int_def double_trunc_def)
next
  case False
  define n where "n = nat \<bar>i\<bar>"
  have n: "0 < n" "n \<le> 2 ^ 53" "int n = \<bar>i\<bar>"
    using False assms by (auto simp: n_def nat_le_iff)
  obtain m b where mb: "round_nearest n = (m, b)"
    by (cases "round_nearest n")
  note bounds = round_nearest_exact [OF n(1,2) mb]
  let ?w = "word_of_nat ((if i < 0 then 2 ^ 63 else 0) + (b + 1023) * 2 ^ 52 + (m - 2 ^ 52)) :: double"
  have w: "double_of_int i = ?w"
    using False mb by (simp add: double_of_int_def n_def)
  have range: "b + 1023 < 2048" "m - 2 ^ 52 < 2 ^ 52"
    using bounds by auto
  have e: "unat (take_bit 11 (drop_bit 52 ?w)) = b + 1023"
    and f: "uint (take_bit 52 ?w) = int (m - 2 ^ 52)" and s: "bit ?w 63 = (i < 0)"
    by (rule double_fields [OF range])+
  have m: "(2 :: int) ^ 52 + int (m - 2 ^ 52) = int m"
    using bounds by simp
  have "(if 1075 \<le> b + 1023 then int m * 2 ^ (b + 1023 - 1075) else int m div 2 ^ (1075 - (b + 1023))) = int n"
    using bounds by (auto simp: zdiv_int split: if_splits)
  with bounds m have "double_trunc ?w = Some (if i < 0 then - int n else int n)"
    unfolding double_trunc_def e f s Let_def by (simp add: zdiv_int)
  with n(3) w show ?thesis by auto
qed

end
