(* ===== verification/Serialization.thy ===== *)
theory Serialization
  imports Base64 Json
begin

text \<open>
  The data of the protocol and its JSON form: channels and services (\<open>common.hpp\<close>), parameters
  (\<open>parameter.hpp\<close>, \<open>parameter.cpp\<close>) and the \<open>to_json\<close>/\<open>from_json\<close> overloads of
  \<open>serialization.cpp\<close>.
\<close>

section \<open>Channels and services\<close>

record channel_without_id =
  topic :: string
  ch_encoding :: string
  schema_name :: string
  schema :: string
  schema_encoding :: "string option"

record channel = channel_without_id +
  ch_id :: uint32_t

definition Channel :: "uint32_t \<Rightarrow> channel_without_id \<Rightarrow> channel" where
  "Channel i ch = channel_without_id.extend ch \<lparr>ch_id = i\<rparr>"

record client_advertisement =
  channel_id :: uint32_t
  adv_topic :: string
  adv_encoding :: string
  adv_schema_name :: string
  adv_schema :: bytes

record service_without_id =
  sv_name :: string
  sv_type :: string
  request_schema :: string
  response_schema :: string

record service = service_without_id +
  sv_id :: uint32_t

definition Service :: "service_without_id \<Rightarrow> uint32_t \<Rightarrow> service" where
  "Service s i = service_without_id.extend s \<lparr>sv_id = i\<rparr>"

definition channel_to_json :: "channel \<Rightarrow> json" where
  "channel_to_json c =
     (let j = jobject
        [(''id'', json_u32 (ch_id c)), (''topic'', JStr (topic c)), (''encoding'', JStr (ch_encoding c)),
         (''schemaName'', JStr (schema_name c)), (''schema'', JStr (schema c))]
      in case schema_encoding c of
           None \<Rightarrow> j
         | Some e \<Rightarrow> (case j_put ''schemaEncoding'' (JStr e) j of Ok j' \<Rightarrow> j' | _ \<Rightarrow> j))"

text \<open>\<open>j[k].get<std::string>()\<close>.\<close>

definition index_string :: "json \<Rightarrow> string \<Rightarrow> string outcome" where
  "index_string j k = obind (j_index j k) get_string"

definition channel_from_json :: "json \<Rightarrow> channel outcome" where
  "channel_from_json j =
     obind (case j_find j ''schemaEncoding'' of
              None \<Rightarrow> Ok None
            | Some _ \<Rightarrow> obind (index_string j ''schemaEncoding'') (\<lambda>s. Ok (Some s))) (\<lambda>se.
     obind (index_string j ''topic'') (\<lambda>t.
     obind (index_string j ''encoding'') (\<lambda>e.
     obind (index_string j ''schemaName'') (\<lambda>n.
     obind (index_string j ''schema'') (\<lambda>s.
     obind (obind (j_index j ''id'') get_u32) (\<lambda>i.
       Ok (Channel i \<lparr>topic = t, ch_encoding = e, schema_name = n, schema = s, schema_encoding = se\<rparr>)))))))"

definition service_to_json :: "service \<Rightarrow> json" where
  "service_to_json s = jobject
     [(''id'', json_u32 (sv_id s)), (''name'', JStr (sv_name s)), (''type'', JStr (sv_type s)),
      (''requestSchema'', JStr (request_schema s)), (''responseSchema'', JStr (response_schema s))]"

definition service_from_json :: "json \<Rightarrow> service outcome" where
  "service_from_json j =
     obind (obind (j_index j ''id'') get_u32) (\<lambda>i.
     obind (index_string j ''name'') (\<lambda>n.
     obind (index_string j ''type'') (\<lambda>t.
     obind (index_string j ''requestSchema'') (\<lambda>rq.
     obind (index_string j ''responseSchema'') (\<lambda>rs.
       Ok (Service \<lparr>sv_name = n, sv_type = t, request_schema = rq, response_schema = rs\<rparr> i))))))"

section \<open>Parameters\<close>

datatype ParameterSubscriptionOperation = SUBSCRIBE | UNSUBSCRIBE

datatype ParameterType =
    PARAMETER_NOT_SET
  | PARAMETER_BOOL
  | PARAMETER_INTEGER
  | PARAMETER_DOUBLE
  | PARAMETER_STRING
  | PARAMETER_ARRAY
  | PARAMETER_STRUCT
  | PARAMETER_BYTE_ARRAY

text \<open>
  The constructors of the class set the type tag and the value together, so that a value of
  the class is one of these; \<open>getValue<T>\<close> is the match on the constructor for \<open>T\<close>.
\<close>

datatype parameter_value =
    PNotSet
  | PBool bool
  | PInteger int64_t
  | PDouble double
  | PString string
  | PByteArray bytes
  | PArray "parameter_value list"
  | PStruct "(string \<times> parameter_value) list"

fun getType :: "parameter_value \<Rightarrow> ParameterType" where
  "getType PNotSet = PARAMETER_NOT_SET"
| "getType (PBool _) = PARAMETER_BOOL"
| "getType (PInteger _) = PARAMETER_INTEGER"
| "getType (PDouble _) = PARAMETER_DOUBLE"
| "getType (PString _) = PARAMETER_STRING"
| "getType (PByteArray _) = PARAMETER_BYTE_ARRAY"
| "getType (PArray _) = PARAMETER_ARRAY"
| "getType (PStruct _) = PARAMETER_STRUCT"

record parameter =
  p_name :: string
  p_value :: parameter_value

fun value_to_json :: "parameter_value \<Rightarrow> json" where
  "value_to_json PNotSet = JNull"
| "value_to_json (PBool b) = JBool b"
| "value_to_json (PInteger i) = JInt i"
| "value_to_json (PDouble d) = JFloat d"
| "value_to_json (PString s) = JStr s"
| "value_to_json (PByteArray bs) = JStr (base64_encode bs)"
| "value_to_json (PStruct m) = jobject (map (\<lambda>(k, v). (k, value_to_json v)) m)"
| "value_to_json (PArray vs) = JArr (map value_to_json vs)"

fun value_from_json :: "json \<Rightarrow> parameter_value outcome" where
  "value_from_json (JStr s) = Ok (PString s)"
| "value_from_json (JBool b) = Ok (PBool b)"
| "value_from_json (JInt i) = obind (get_i64 (JInt i)) (\<lambda>i. Ok (PInteger i))"
| "value_from_json (JUint i) = obind (get_i64 (JUint i)) (\<lambda>i. Ok (PInteger i))"
| "value_from_json (JFloat d) = obind (get_double (JFloat d)) (\<lambda>d. Ok (PDouble d))"
| "value_from_json (JObj m) =
     obind (omap (\<lambda>(k, v). obind (value_from_json v) (\<lambda>v'. Ok (k, v'))) m) (\<lambda>m'. Ok (PStruct m'))"
| "value_from_json (JArr vs) = obind (omap value_from_json vs) (\<lambda>vs'. Ok (PArray vs'))"
| "value_from_json JNull = Ok PNotSet"

text \<open>The \<open>type\<close> tag \<open>to_json\<close> adds where the JSON value does not tell the type.\<close>

fun type_tag :: "parameter_value \<Rightarrow> string option" where
  "type_tag (PByteArray _) = Some ''byte_array''"
| "type_tag (PDouble _) = Some ''float64''"
| "type_tag (PArray (PDouble _ # _)) = Some ''float64_array''"
| "type_tag _ = None"

definition parameter_to_json :: "parameter \<Rightarrow> json" where
  "parameter_to_json p =
     (let m = jo_assign ''name'' (JStr (p_name p)) [(''value'', value_to_json (p_value p))]
      in JObj (case type_tag (p_value p) of
                 None \<Rightarrow> m
               | Some t \<Rightarrow> jo_assign ''type'' (JStr t) m))"

text \<open>\<open>static_cast<double>(value.getValue<int64_t>())\<close>.\<close>

definition double_of_i64 :: "int64_t \<Rightarrow> double" where
  "double_of_i64 i = double_of_int (sint i)"

text \<open>The loop over a \<open>float64_array\<close>.\<close>

fun float64_elem :: "string \<Rightarrow> parameter_value \<Rightarrow> parameter_value outcome" where
  "float64_elem name (PInteger i) = Ok (PDouble (double_of_i64 i))"
| "float64_elem name (PDouble d) = Ok (PDouble d)"
| "float64_elem name v = Throw (StdException (''Parameter '' @ [CHR 0x27] @ name @ [CHR 0x27] @
     '' (float64_array) contains non-numeric elements.''))"

definition parameter_from_json :: "json \<Rightarrow> parameter outcome" where
  "parameter_from_json j =
     obind (index_string j ''name'') (\<lambda>name.
     if j_find j ''value'' = None then Ok \<lparr>p_name = name, p_value = PNotSet\<rparr>
     else
       obind (obind (j_index j ''value'') value_from_json) (\<lambda>param_val.
       obind (case j_find j ''type'' of Some t \<Rightarrow> get_string t | None \<Rightarrow> Ok []) (\<lambda>type.
       case param_val of
         PString s \<Rightarrow>
           if type = ''byte_array''
           then obind (base64_decode s) (\<lambda>bs. Ok \<lparr>p_name = name, p_value = PByteArray bs\<rparr>)
           else Ok \<lparr>p_name = name, p_value = param_val\<rparr>
       | PInteger i \<Rightarrow>
           if type = ''float64''
           then Ok \<lparr>p_name = name, p_value = PDouble (double_of_i64 i)\<rparr>
           else Ok \<lparr>p_name = name, p_value = param_val\<rparr>
       | PArray values \<Rightarrow>
           if type = ''float64_array''
           then obind (omap (float64_elem name) values) (\<lambda>vs. Ok \<lparr>p_name = name, p_value = PArray vs\<rparr>)
           else Ok \<lparr>p_name = name, p_value = param_val\<rparr>
       | _ \<Rightarrow> Ok \<lparr>p_name = name, p_value = param_val\<rparr>)))"

section \<open>Round trips\<close>

text \<open>Inserting sorted entries one by one gives them back.\<close>

lemma jo_assign_last:
  "\<forall>x \<in> set (m_keys m). str_less x k \<Longrightarrow> jo_assign k v m = m @ [(k, v)]"
proof (induction k v m rule: jo_assign.induct)
  case (2 k v k' v' m)
  then have less: "str_less k' k"
    by (simp add: m_keys_def)
  then have "k \<noteq> k'" "\<not> str_less k k'"
    using str_less_trans by fastforce+
  with 2 show ?case
    by (simp add: m_keys_def)
qed simp

lemma fold_jo_emplace_sorted:
  "jo_invar (n @ m) \<Longrightarrow> fold (\<lambda>(k, v). jo_emplace k v) m n = n @ m"
proof (induction m arbitrary: n)
  case (Cons kv m)
  obtain k v where kv: "kv = (k, v)" by (cases kv)
  have less: "\<forall>x \<in> set (m_keys n). str_less x k"
    using Cons.prems by (auto simp: jo_invar_def m_keys_def kv sorted_wrt_append)
  then have "\<not> m_contains n k"
    by (auto simp: m_contains_iff)
  then have "jo_emplace k v n = n @ [(k, v)]"
    using less by (simp add: jo_emplace_def jo_assign_last)
  with Cons.IH [of "n @ [(k, v)]"] Cons.prems show ?case
    by (simp add: kv)
qed simp

lemma jobject_sorted: "jo_invar m \<Longrightarrow> jobject m = JObj m"
  using fold_jo_emplace_sorted [of "[]" m] by (simp add: jobject_def)

lemma jo_invar_map_values: "jo_invar (map (\<lambda>(k, v). (k, f v)) m) = jo_invar m"
  using m_keys_map_values [of "\<lambda>_. f" m] by (simp add: jo_invar_def)

text \<open>
  The values that JSON can carry without a tag: no byte array within, and the entries of a
  struct in key order (an \<open>unordered_map\<close> has no order of its own; this one stands for it).
\<close>

fun untagged :: "parameter_value \<Rightarrow> bool" where
  "untagged (PByteArray _) = False"
| "untagged (PArray vs) = (\<forall>v \<in> set vs. untagged v)"
| "untagged (PStruct m) = (jo_invar m \<and> (\<forall>(k, v) \<in> set m. untagged v))"
| "untagged _ = True"

lemma value_roundtrip: "untagged v \<Longrightarrow> value_from_json (value_to_json v) = Ok v"
proof (induction v rule: untagged.induct)
  case (2 vs)
  then have "omap value_from_json (map value_to_json vs) = Ok vs"
    by (induction vs) auto
  then show ?case by simp
next
  case (3 m)
  have step: "\<forall>kv \<in> set m. value_from_json (value_to_json (snd kv)) = Ok (snd kv)"
    using 3 by fastforce
  have "omap (\<lambda>(k, v). obind (value_from_json v) (\<lambda>v'. Ok (k, v'))) (map (\<lambda>(k, v). (k, value_to_json v)) m) = Ok m"
    using step by (induction m) (auto simp: split_beta)
  moreover have "jobject (map (\<lambda>(k, v). (k, value_to_json v)) m) = JObj (map (\<lambda>(k, v). (k, value_to_json v)) m)"
    using 3 by (intro jobject_sorted) (simp add: jo_invar_map_values)
  ultimately show ?case by simp
qed simp_all

text \<open>The parameters whose JSON form determines them.\<close>

fun faithful_value :: "parameter_value \<Rightarrow> bool" where
  "faithful_value (PByteArray _) = True"
| "faithful_value (PArray (PDouble d # vs)) = (\<forall>v \<in> set vs. getType v = PARAMETER_DOUBLE)"
| "faithful_value v = untagged v"

lemma getType_double: "getType v = PARAMETER_DOUBLE \<longleftrightarrow> (\<exists>d. v = PDouble d)"
  by (cases v) auto

lemma doubles_untagged: "\<forall>v \<in> set vs. getType v = PARAMETER_DOUBLE \<Longrightarrow> untagged (PArray vs)"
  by (force simp: getType_double)

lemma omap_float64_doubles:
  "\<forall>v \<in> set vs. getType v = PARAMETER_DOUBLE \<Longrightarrow> omap (float64_elem name) vs = Ok vs"
  by (induction vs) (auto simp: getType_double)

lemma parameter_json_find:
  "j_find (parameter_to_json p) ''name'' = Some (JStr (p_name p))"
  "j_find (parameter_to_json p) ''value'' = Some (value_to_json (p_value p))"
  "j_find (parameter_to_json p) ''type'' = map_option JStr (type_tag (p_value p))"
  by (simp_all add: parameter_to_json_def Let_def split: option.splits)

lemma j_index_eq: "j_find j k = Some v \<Longrightarrow> j_index j k = Ok v"
  by (cases j) auto

lemma index_string_eq: "j_find j k = Some (JStr s) \<Longrightarrow> index_string j k = Ok s"
  by (simp add: index_string_def j_index_eq)

lemmas parameter_from_to_json = parameter_from_json_def parameter_json_find
  index_string_eq [OF parameter_json_find(1)] j_index_eq [OF parameter_json_find(2)]

section \<open>Properties\<close>

lemma parameter_from_to:
  assumes "faithful_value (p_value p)"
  shows "parameter_from_json (parameter_to_json p) = Ok p"
proof (cases "p_value p" rule: faithful_value.cases)
  case (1 bs)
  have "base64_decode (base64_encode bs) = Ok bs"
    using base64_loop_encode [of 0 "[]" bs] by (simp add: base64_decode_def length_base64_encode)
  with 1 show ?thesis
    by (cases p) (simp add: parameter_from_to_json)
next
  case (2 d vs)
  then have doubles: "\<forall>v \<in> set (PDouble d # vs). getType v = PARAMETER_DOUBLE"
    using assms by simp
  then have "value_from_json (value_to_json (p_value p)) = Ok (p_value p)"
    using 2 by (intro value_roundtrip) (auto dest: doubles_untagged)
  with 2 omap_float64_doubles [OF doubles] show ?thesis
    by (cases p) (simp add: parameter_from_to_json)
qed (use assms value_roundtrip [of "p_value p"] in \<open>cases p; simp add: parameter_from_to_json\<close>)+

text \<open>A parameter survives its JSON form: for every value without a byte array nested in it
  and, where it is an array that starts with a double, with doubles only, \<open>from_json\<close> of
  \<open>to_json\<close> is the same parameter, of the same type.\<close>

lemma parameter_json_roundtrip:
  assumes "faithful_value (p_value p)"
  shows "parameter_from_json (parameter_to_json p) = Ok p"
  using assms by (rule parameter_from_to)

lemma parameter_json_roundtrip_witness:
  "parameter_from_json (parameter_to_json
     \<lparr>p_name = ''/node.gains'',
      p_value = PStruct [(''a'', PArray [PInteger 3, PString ''x'']), (''b'', PDouble 0x3FF8000000000000)]\<rparr>) =
   Ok \<lparr>p_name = ''/node.gains'',
       p_value = PStruct [(''a'', PArray [PInteger 3, PString ''x'']), (''b'', PDouble 0x3FF8000000000000)]\<rparr>"
  by (rule parameter_json_roundtrip) (simp add: jo_invar_def m_keys_def)

text \<open>A byte array nested in an array or struct does not survive: the tag \<open>byte_array\<close> is
  written for a parameter only, and the elements come back as the base64 strings.\<close>

lemma nested_byte_array_lost:
  "parameter_from_json (parameter_to_json \<lparr>p_name = n, p_value = PArray [PByteArray bs]\<rparr>) =
   Ok \<lparr>p_name = n, p_value = PArray [PString (base64_encode bs)]\<rparr>"
  by (simp add: parameter_from_to_json)

text \<open>Reading a parameter from an object without the key \<open>name\<close> is undefined behaviour (a
  failed assertion in \<open>operator[]\<close>), whatever else the object holds: no exception a caller
  could catch.\<close>

lemma parameter_without_name:
  "m_find m ''name'' = None \<Longrightarrow> parameter_from_json (JObj m) = UB ''operator[] of a missing key''"
  by (simp add: parameter_from_json_def index_string_def)

lemma parameter_without_name_witness:
  "parameter_from_json (JObj [(''value'', JBool True)]) = UB ''operator[] of a missing key''"
  by (rule parameter_without_name) simp

text \<open>An integer sent for a parameter declared \<open>float64\<close> keeps its value up to \<open>2^53\<close> in
  absolute value.\<close>

lemma float64_integer_exact:
  assumes "\<bar>sint i\<bar> \<le> 2 ^ 53"
  shows "\<exists>d. parameter_from_json (JObj [(''name'', JStr n), (''type'', JStr ''float64''), (''value'', JInt i)]) =
      Ok \<lparr>p_name = n, p_value = PDouble d\<rparr> \<and> double_trunc d = Some (sint i)"
  using double_of_int_exact [OF assms]
  by (simp add: parameter_from_json_def index_string_def double_of_i64_def)

lemma float64_integer_exact_witness:
  "\<exists>d. parameter_from_json (JObj [(''name'', JStr ''p''), (''type'', JStr ''float64''), (''value'', JInt 7)]) =
      Ok \<lparr>p_name = ''p'', p_value = PDouble d\<rparr> \<and> double_trunc d = Some (sint (7 :: int64_t))"
  by (rule float64_integer_exact) simp

lemma jobject_j_find: "j_find (jobject kvs) k = map_of kvs k"
  by (simp add: jobject_def jobject_find)

lemma channel_j_find:
  "j_find (channel_to_json c) k =
    (if k = ''schemaEncoding'' then map_option JStr (schema_encoding c)
     else map_of [(''id'', json_u32 (ch_id c)), (''topic'', JStr (topic c)),
       (''encoding'', JStr (ch_encoding c)), (''schemaName'', JStr (schema_name c)),
       (''schema'', JStr (schema c))] k)"
  by (simp add: channel_to_json_def Let_def jobject_j_find split: option.split)
    (simp add: jobject_def jobject_find)

text \<open>Channels and services survive their JSON form.\<close>

lemma channel_service_json_roundtrip:
  "channel_from_json (channel_to_json c) = Ok c \<and> service_from_json (service_to_json s) = Ok s"
proof
  have "service_from_json (jobject [(''id'', json_u32 (sv_id s)), (''name'', JStr (sv_name s)),
      (''type'', JStr (sv_type s)), (''requestSchema'', JStr (request_schema s)),
      (''responseSchema'', JStr (response_schema s))]) = Ok s"
    by (simp add: service_from_json_def index_string_eq j_index_eq jobject_j_find Service_def service_without_id.defs)
  then show "service_from_json (service_to_json s) = Ok s"
    by (simp add: service_to_json_def)
next
  show "channel_from_json (channel_to_json c) = Ok c"
    by (cases "schema_encoding c")
      (simp_all add: channel_from_json_def index_string_eq j_index_eq channel_j_find Channel_def
        channel_without_id.defs)
qed

end
