(* ===== verification/Server_State.thy ===== *)
theory Server_State
  imports Serialization
begin

text \<open>
  The state of \<open>Server\<close> (\<open>websocket_server.hpp\<close>): its members, the connections of the
  websocket endpoint below it, and the frames handed to them; the handlers the bridge installs
  (\<open>server_interface.hpp\<close>); and the functions every operation uses to send.  The mutexes and
  the writing of log lines are left out; an operation is one step of the model.
\<close>

section \<open>The endpoint\<close>

text \<open>
  A connection handle is a weak pointer; the table \<open>conns\<close> holds the connections that can still
  be locked.  \<open>con_open\<close> tells whether the connection is in the state in which \<open>send\<close> accepts
  a message.
\<close>

type_synonym hdl = nat

record conn_info =
  con_open :: bool
  remote_endpoint :: string
  requested_subprotocols :: "string list"
  selected_subprotocol :: "string option"

text \<open>Frames: a text frame carries the JSON value it is the dump of.\<close>

datatype frame = TextFrame json | BinaryFrame bytes

text \<open>A frame sent: its receiver, and whether the send queue may drop it.\<close>

type_synonym sent = "hdl \<times> frame \<times> bool"

section \<open>The server\<close>

record client_info =
  endpoint_name :: string
  user_name :: string
  user_id :: string
  handle :: hdl
  subscriptions_by_channel :: "(uint32_t \<times> uint32_t) list"
  advertised_channels :: "uint32_t list"
  subscribed_to_connection_graph :: bool
  login :: bool

definition ClientInfo :: "string \<Rightarrow> string \<Rightarrow> string \<Rightarrow> hdl \<Rightarrow> client_info" where
  "ClientInfo endpoint uname uid h =
     \<lparr>endpoint_name = endpoint, user_name = uname, user_id = uid, handle = h,
      subscriptions_by_channel = [], advertised_channels = [],
      subscribed_to_connection_graph = False, login = True\<rparr>"

text \<open>\<open>ClientInfo::get_user_info\<close>, used in log lines only.\<close>

definition get_user_info :: "client_info \<Rightarrow> string" where
  "get_user_info c = [CHR 0x27] @ user_name c @ '' ('' @ user_id c @ '')'' @ [CHR 0x27] @ '' ''"

text \<open>A compiled \<open>std::regex\<close> is the predicate of the names it matches.\<close>

type_synonym regex = "string \<Rightarrow> bool"

definition is_whitelisted :: "string \<Rightarrow> regex list \<Rightarrow> bool" where
  "is_whitelisted name patterns = (\<exists>regex \<in> set patterns. regex name)"

record server_options =
  capabilities :: "string list"
  supported_encodings :: "string list"
  metadata :: "(string \<times> string) list"
  send_buffer_limit_bytes :: nat
  use_tls :: bool
  cert_file :: string
  key_file :: string
  session_id :: string
  use_compression :: bool
  client_topic_whitelist_patterns :: "regex list"
  mac_addr :: string
  ip_addrs :: "string list"

type_synonym map_of_sets = "(string \<times> string list) list"

record connection_graph =
  subscription_count :: int
  published_topics :: map_of_sets
  subscribed_topics :: map_of_sets
  advertised_services :: map_of_sets

record server =
  srv_name :: string
  options :: server_options
  next_channel_id :: uint32_t
  clients :: "(hdl \<times> client_info) list"
  channels :: "(uint32_t \<times> channel) list"
  client_channels :: "(hdl \<times> (uint32_t \<times> client_advertisement) list) list"
  client_param_subscriptions :: "(hdl \<times> string list) list"
  nextService_id :: uint32_t
  services :: "(uint32_t \<times> service_without_id) list"
  conn_graph :: connection_graph
  conns :: "(hdl \<times> conn_info) list"
  outbox :: "sent list"

text \<open>The state without the frames sent so far: what the handlers of the bridge must not touch.\<close>

definition core :: "'e server_scheme \<Rightarrow> server" where
  "core s = server.truncate s\<lparr>outbox := []\<rparr>"

text \<open>\<open>Server::Server\<close>: the members have their initial values; no connection is open.\<close>

definition initial_graph :: connection_graph where
  "initial_graph = \<lparr>subscription_count = 0, published_topics = [], subscribed_topics = [],
     advertised_services = []\<rparr>"

definition Server :: "string \<Rightarrow> server_options \<Rightarrow> server" where
  "Server name opts =
     \<lparr>srv_name = name, options = opts, next_channel_id = 0, clients = [], channels = [],
      client_channels = [], client_param_subscriptions = [], nextService_id = 0, services = [],
      conn_graph = initial_graph, conns = [], outbox = []\<rparr>"

text \<open>A server with every capability, on which the examples run.\<close>

definition DEFAULT_CAPABILITIES :: "string list" where
  "DEFAULT_CAPABILITIES =
     [''clientPublish'', ''connectionGraph'', ''parametersSubscribe'', ''parameters'', ''services'',
      ''assets'']"

definition demo_options :: server_options where
  "demo_options =
     \<lparr>capabilities = DEFAULT_CAPABILITIES, supported_encodings = [''json''], metadata = [],
      send_buffer_limit_bytes = 10000000, use_tls = False, cert_file = [], key_file = [],
      session_id = ''1'', use_compression = False, client_topic_whitelist_patterns = [\<lambda>_. True],
      mac_addr = ''00:11:22:33:44:55'', ip_addrs = [''10.0.0.1'']\<rparr>"

record client_message =
  log_time :: uint64_t
  publish_time :: uint64_t
  sequence :: uint32_t
  advertisement :: client_advertisement
  data_length :: nat
  cm_data :: bytes

definition MSG_PAYLOAD_OFFSET :: nat where
  "MSG_PAYLOAD_OFFSET = 5"

definition getData :: "client_message \<Rightarrow> bytes" where
  "getData m = drop MSG_PAYLOAD_OFFSET (cm_data m)"

definition getLength :: "client_message \<Rightarrow> nat" where
  "getLength m = length (cm_data m) - MSG_PAYLOAD_OFFSET"

section \<open>Handlers\<close>

text \<open>Each handler is a \<open>std::function\<close>, empty when the bridge did not set it.\<close>

record 's handlers =
  subscribe_handler :: "(uint32_t \<Rightarrow> hdl \<Rightarrow> ('s, unit) cpp) option"
  unsubscribe_handler :: "(uint32_t \<Rightarrow> hdl \<Rightarrow> ('s, unit) cpp) option"
  client_advertise_handler :: "(client_advertisement \<Rightarrow> hdl \<Rightarrow> ('s, unit) cpp) option"
  client_unadvertise_handler :: "(uint32_t \<Rightarrow> hdl \<Rightarrow> ('s, unit) cpp) option"
  client_message_handler :: "(client_message \<Rightarrow> hdl \<Rightarrow> ('s, unit) cpp) option"
  parameter_request_handler :: "(string list \<Rightarrow> string option \<Rightarrow> hdl \<Rightarrow> ('s, unit) cpp) option"
  parameter_change_handler :: "(parameter list \<Rightarrow> string option \<Rightarrow> hdl \<Rightarrow> ('s, unit) cpp) option"
  parameter_subscription_handler ::
    "(string list \<Rightarrow> ParameterSubscriptionOperation \<Rightarrow> hdl \<Rightarrow> ('s, unit) cpp) option"
  service_request_handler :: "(service_request \<Rightarrow> hdl \<Rightarrow> ('s, unit) cpp) option"
  subscribe_connection_graph_handler :: "(bool \<Rightarrow> ('s, unit) cpp) option"
  fetch_asset_handler :: "(string \<Rightarrow> uint32_t \<Rightarrow> hdl \<Rightarrow> ('s, unit) cpp) option"

definition no_handlers :: "'s handlers" where
  "no_handlers =
     \<lparr>subscribe_handler = None, unsubscribe_handler = None, client_advertise_handler = None,
      client_unadvertise_handler = None, client_message_handler = None,
      parameter_request_handler = None, parameter_change_handler = None,
      parameter_subscription_handler = None, service_request_handler = None,
      subscribe_connection_graph_handler = None, fetch_asset_handler = None\<rparr>"

text \<open>Calling a \<open>std::function\<close>; an empty one throws \<open>std::bad_function_call\<close>.\<close>

definition call :: "'f option \<Rightarrow> ('f \<Rightarrow> ('s, unit) cpp) \<Rightarrow> ('s, unit) cpp" where
  "call f use = (case f of Some g \<Rightarrow> use g | None \<Rightarrow> throw (StdException ''bad_function_call''))"

section \<open>Sending\<close>

text \<open>\<open>get_con_from_hdl(hdl)\<close>: throws when the handle has expired.\<close>

definition get_con_from_hdl :: "hdl \<Rightarrow> ('e server_scheme, conn_info) cpp" where
  "get_con_from_hdl h =
     bind (gets conns) (\<lambda>cs.
     case m_find cs h of
       Some con \<Rightarrow> ret con
     | None \<Rightarrow> throw (StdException ''Bad Connection''))"

text \<open>\<open>con->send(...)\<close>: an error code, here \<open>False\<close>, when the connection is not open.\<close>

definition con_send :: "hdl \<Rightarrow> conn_info \<Rightarrow> frame \<Rightarrow> bool \<Rightarrow> ('e server_scheme, bool) cpp" where
  "con_send h con f reliable =
     (if con_open con
      then seq (modify (\<lambda>s. s\<lparr>outbox := outbox s @ [(h, f, reliable)]\<rparr>)) (ret True)
      else ret False)"

text \<open>\<open>_server.send(hdl, payload, op)\<close>: throws on every error; the frame is reliable.\<close>

definition server_send :: "hdl \<Rightarrow> frame \<Rightarrow> ('e server_scheme, unit) cpp" where
  "server_send h f =
     bind (get_con_from_hdl h) (\<lambda>con.
     bind (con_send h con f True) (\<lambda>ok.
     if ok then ret () else throw (StdException ''Invalid state'')))"

text \<open>\<open>catch (const std::exception & e) { h(e.what()) }\<close>; anything else goes on.\<close>

definition catch_std :: "('s, 'a) cpp \<Rightarrow> (string \<Rightarrow> ('s, 'a) cpp) \<Rightarrow> ('s, 'a) cpp" where
  "catch_std m h = try_catch m (\<lambda>e. case exn_what e of Some w \<Rightarrow> h w | None \<Rightarrow> throw e)"

text \<open>\<open>catch (const std::exception &) {h} catch (...) {k}\<close>.\<close>

definition catch_all :: "('s, 'a) cpp \<Rightarrow> (string \<Rightarrow> ('s, 'a) cpp) \<Rightarrow> ('s, 'a) cpp \<Rightarrow> ('s, 'a) cpp" where
  "catch_all m h k = try_catch m (\<lambda>e. case exn_what e of Some w \<Rightarrow> h w | None \<Rightarrow> k)"

definition discard :: "('s, 'a) cpp \<Rightarrow> ('s, unit) cpp" where
  "discard m = bind m (\<lambda>_. ret ())"

definition send_json :: "hdl \<Rightarrow> json \<Rightarrow> bool \<Rightarrow> ('e server_scheme, unit) cpp" where
  "send_json h payload reliable =
     catch_std
       (bind (get_con_from_hdl h) (\<lambda>con. discard (con_send h con (TextFrame payload) reliable)))
       (\<lambda>_. ret ())"

definition send_raw_json :: "hdl \<Rightarrow> json \<Rightarrow> bool \<Rightarrow> ('e server_scheme, unit) cpp" where
  "send_raw_json h payload reliable =
     catch_std
       (bind (get_con_from_hdl h) (\<lambda>con. discard (con_send h con (TextFrame payload) reliable)))
       (\<lambda>_. ret ())"

definition send_binary :: "hdl \<Rightarrow> bytes \<Rightarrow> bool \<Rightarrow> ('e server_scheme, unit) cpp" where
  "send_binary h payload reliable =
     catch_std
       (bind (get_con_from_hdl h) (\<lambda>con. discard (con_send h con (BinaryFrame payload) reliable)))
       (\<lambda>_. ret ())"

definition remote_endpoint_string :: "hdl \<Rightarrow> 'e server_scheme \<Rightarrow> string" where
  "remote_endpoint_string h s =
     (case m_find (conns s) h of Some con \<Rightarrow> remote_endpoint con | None \<Rightarrow> ''(unknown)'')"

datatype StatusLevel = Info | Warning | Error

fun status_level_code :: "StatusLevel \<Rightarrow> nat" where
  "status_level_code Info = 0"
| "status_level_code Warning = 1"
| "status_level_code Error = 2"

definition status_json :: "StatusLevel \<Rightarrow> string \<Rightarrow> json" where
  "status_json level message = jobject
     [(''op'', JStr ''status''), (''level'', JUint (word_of_nat (status_level_code level))),
      (''message'', JStr message)]"

definition send_status_and_log_msg :: "hdl \<Rightarrow> StatusLevel \<Rightarrow> string \<Rightarrow> ('e server_scheme, unit) cpp" where
  "send_status_and_log_msg h level message = send_json h (status_json level message) True"

subsection \<open>What sending changes\<close>

text \<open>The frames an open connection accepts; a message to another one is lost without a trace.\<close>

definition accepted :: "'e server_scheme \<Rightarrow> hdl \<Rightarrow> frame \<Rightarrow> bool \<Rightarrow> sent list" where
  "accepted s h f reliable =
     (case m_find (conns s) h of
        Some con \<Rightarrow> if con_open con then [(h, f, reliable)] else []
      | None \<Rightarrow> [])"

lemmas sending_defs = get_con_from_hdl_def con_send_def catch_std_def discard_def accepted_def

lemma send_json_run:
  "send_json h j r s = (Ok (), s\<lparr>outbox := outbox s @ accepted s h (TextFrame j) r\<rparr>)"
  by (simp add: send_json_def sending_defs cpp_defs split: option.splits)

lemma send_raw_json_run:
  "send_raw_json h j r s = (Ok (), s\<lparr>outbox := outbox s @ accepted s h (TextFrame j) r\<rparr>)"
  by (simp add: send_raw_json_def sending_defs cpp_defs split: option.splits)

lemma send_binary_run:
  "send_binary h b r s = (Ok (), s\<lparr>outbox := outbox s @ accepted s h (BinaryFrame b) r\<rparr>)"
  by (simp add: send_binary_def sending_defs cpp_defs split: option.splits)

lemma send_status_run:
  "send_status_and_log_msg h l m s =
     (Ok (), s\<lparr>outbox := outbox s @ accepted s h (TextFrame (status_json l m)) True\<rparr>)"
  by (simp add: send_status_and_log_msg_def send_json_run)

lemmas sending_runs = send_json_run send_raw_json_run send_binary_run send_status_run

lemma accepted_outbox [simp]: "accepted (s\<lparr>outbox := xs\<rparr>) h f r = accepted s h f r"
  by (simp add: accepted_def)

lemma accepted_update [simp]:
  "accepted (s\<lparr>clients := cl\<rparr>) h f r = accepted s h f r"
  "accepted (s\<lparr>channels := ch\<rparr>) h f r = accepted s h f r"
  "accepted (s\<lparr>next_channel_id := n\<rparr>) h f r = accepted s h f r"
  "accepted (s\<lparr>client_channels := cc\<rparr>) h f r = accepted s h f r"
  "accepted (s\<lparr>client_param_subscriptions := ps\<rparr>) h f r = accepted s h f r"
  "accepted (s\<lparr>nextService_id := n\<rparr>) h f r = accepted s h f r"
  "accepted (s\<lparr>services := sv\<rparr>) h f r = accepted s h f r"
  "accepted (s\<lparr>conn_graph := g\<rparr>) h f r = accepted s h f r"
  "accepted (s\<lparr>options := opts\<rparr>) h f r = accepted s h f r"
  by (simp_all add: accepted_def)

text \<open>One message to each of a list of receivers.\<close>

lemma broadcast_run:
  assumes "\<And>h s. send h s = (Ok (), s\<lparr>outbox := outbox s @ accepted s h f r\<rparr>)"
  shows "for_each hs send s = (Ok (), s\<lparr>outbox := outbox s @ concat (map (\<lambda>h. accepted s h f r) hs)\<rparr>)"
proof (induction hs arbitrary: s)
  case Nil
  then show ?case by (simp add: cpp_defs)
next
  case (Cons h hs)
  then show ?case by (simp add: seq_def bind_def assms)
qed

text \<open>Sending leaves everything but the outbox alone.\<close>

lemma core_outbox [simp]: "core (s\<lparr>outbox := xs\<rparr>) = core s"
  by (simp add: core_def server.defs)

lemma core_send_json [simp]: "core (snd (send_json h j r s)) = core s"
  and core_send_raw_json [simp]: "core (snd (send_raw_json h j r s)) = core s"
  and core_send_binary [simp]: "core (snd (send_binary h b r s)) = core s"
  and core_send_status [simp]: "core (snd (send_status_and_log_msg h l m s)) = core s"
  by (simp_all add: sending_runs)

end
