(* ===== verification/Server_Publish.thy ===== *)
theory Server_Publish
  imports Server_State
begin

text \<open>
  The public functions of \<open>Server\<close>, which the bridge calls: advertising and removing channels
  and services, publishing parameters, messages, time, service and asset responses, and the
  connection graph.
\<close>

section \<open>Channels and services\<close>

definition broadcast :: "json \<Rightarrow> ('e server_scheme, unit) cpp" where
  "broadcast msg = bind (gets clients) (\<lambda>cs. for_each (m_keys cs) (\<lambda>h. send_raw_json h msg True))"

definition add_channel :: "channel_without_id \<Rightarrow> uint32_t list \<times> json list \<Rightarrow>
    ('e server_scheme, uint32_t list \<times> json list) cpp" where
  "add_channel ch acc =
     (case acc of (channel_ids, channels_json) \<Rightarrow>
      seq (modify (\<lambda>s. s\<lparr>next_channel_id := next_channel_id s + 1\<rparr>)) (
      bind (gets next_channel_id) (\<lambda>new_id.
      let new_channel = Channel new_id ch in
      seq (modify (\<lambda>s. s\<lparr>channels := m_emplace new_id new_channel (channels s)\<rparr>)) (
      ret (channel_ids @ [new_id], channels_json @ [channel_to_json new_channel])))))"

definition add_channels :: "channel_without_id list \<Rightarrow> ('e server_scheme, uint32_t list) cpp" where
  "add_channels chs =
     (if chs = [] then ret []
      else
        bind (for_fold chs add_channel ([], [])) (\<lambda>(channel_ids, channels_json).
        seq (broadcast (jobject [(''op'', JStr ''advertise''), (''channels'', JArr channels_json)])) (
        ret channel_ids)))"

definition update_client :: "hdl \<Rightarrow> (client_info \<Rightarrow> client_info) \<Rightarrow> ('e server_scheme, unit) cpp" where
  "update_client h f =
     modify (\<lambda>s. case m_find (clients s) h of
                   Some c \<Rightarrow> s\<lparr>clients := m_assign h (f c) (clients s)\<rparr>
                 | None \<Rightarrow> s)"

definition remove_channels :: "uint32_t list \<Rightarrow> ('e server_scheme, unit) cpp" where
  "remove_channels channel_ids =
     (if channel_ids = [] then ret ()
      else
        seq (for_each channel_ids (\<lambda>i. modify (\<lambda>s. s\<lparr>channels := m_erase i (channels s)\<rparr>))) (
        bind (gets clients) (\<lambda>cs.
        for_each (m_keys cs) (\<lambda>h.
          seq (update_client h (\<lambda>c.
                 c\<lparr>subscriptions_by_channel := fold m_erase channel_ids (subscriptions_by_channel c)\<rparr>)) (
          send_raw_json h (jobject [(''op'', JStr ''unadvertise''),
            (''channelIds'', JArr (map json_u32 channel_ids))]) True)))))"

definition add_service :: "service_without_id \<Rightarrow> uint32_t list \<times> json list \<Rightarrow>
    ('e server_scheme, uint32_t list \<times> json list) cpp" where
  "add_service sv acc =
     (case acc of (service_ids, new_services) \<Rightarrow>
      seq (modify (\<lambda>s. s\<lparr>nextService_id := nextService_id s + 1\<rparr>)) (
      bind (gets nextService_id) (\<lambda>new_id.
      seq (modify (\<lambda>s. s\<lparr>services := m_emplace new_id sv (services s)\<rparr>)) (
      ret (service_ids @ [new_id], new_services @ [service_to_json (Service sv new_id)])))))"

definition add_services :: "service_without_id list \<Rightarrow> ('e server_scheme, uint32_t list) cpp" where
  "add_services svs =
     (if svs = [] then ret []
      else
        bind (for_fold svs add_service ([], [])) (\<lambda>(service_ids, new_services).
        seq (broadcast (jobject [(''op'', JStr ''advertiseServices''), (''services'', JArr new_services)])) (
        ret service_ids)))"

definition remove_service :: "uint32_t \<Rightarrow> uint32_t list \<Rightarrow> ('e server_scheme, uint32_t list) cpp" where
  "remove_service i removed =
     bind (gets services) (\<lambda>svs.
     if m_contains svs i
     then seq (modify (\<lambda>s. s\<lparr>services := m_erase i (services s)\<rparr>)) (ret (removed @ [i]))
     else ret removed)"

definition remove_services :: "uint32_t list \<Rightarrow> ('e server_scheme, unit) cpp" where
  "remove_services service_ids =
     bind (for_fold service_ids remove_service []) (\<lambda>removed.
     if removed = [] then ret ()
     else broadcast (jobject [(''op'', JStr ''unadvertiseServices''),
            (''serviceIds'', JArr (map json_u32 removed))]))"

section \<open>Parameters\<close>

definition parameter_values_json :: "parameter list \<Rightarrow> string option \<Rightarrow> json" where
  "parameter_values_json ps request_id =
     jobject ([(''op'', JStr ''parameterValues''), (''parameters'', JArr (map parameter_to_json ps))] @
       (case request_id of None \<Rightarrow> [] | Some i \<Rightarrow> [(''id'', JStr i)]))"

definition publish_parameter_values ::
    "hdl \<Rightarrow> parameter list \<Rightarrow> string option \<Rightarrow> ('e server_scheme, unit) cpp" where
  "publish_parameter_values h parameters request_id =
     (let non_empty_parameters = filter (\<lambda>p. getType (p_value p) \<noteq> PARAMETER_NOT_SET) parameters
      in send_raw_json h (parameter_values_json non_empty_parameters request_id) True)"

definition update_parameter_values :: "parameter list \<Rightarrow> ('e server_scheme, unit) cpp" where
  "update_parameter_values parameters =
     bind (gets client_param_subscriptions) (\<lambda>subs.
     for_each subs (\<lambda>(h, names).
       let params_to_send = filter (\<lambda>p. p_name p \<in> set names) parameters in
       if params_to_send = [] then ret ()
       else publish_parameter_values h params_to_send None))"

section \<open>Binary frames\<close>

definition message_header :: "uint32_t \<Rightarrow> uint64_t \<Rightarrow> bytes" where
  "message_header sub_id timestamp = [1] @ uint32_LE sub_id @ uint64_LE timestamp"

definition send_message :: "hdl \<Rightarrow> uint32_t \<Rightarrow> uint64_t \<Rightarrow> bytes \<Rightarrow> ('e server_scheme, unit) cpp" where
  "send_message h chan_id timestamp payload =
     bind (gets conns) (\<lambda>cs.
     case m_find cs h of
       None \<Rightarrow> ret ()
     | Some con \<Rightarrow>
         bind (gets clients) (\<lambda>cl.
         case m_find cl h of
           None \<Rightarrow> ret ()
         | Some client \<Rightarrow>
             (case m_find (subscriptions_by_channel client) chan_id of
                None \<Rightarrow> ret ()
              | Some sub_id \<Rightarrow>
                  discard (con_send h con (BinaryFrame (message_header sub_id timestamp @ payload)) False))))"

definition broadcast_time :: "uint64_t \<Rightarrow> ('e server_scheme, unit) cpp" where
  "broadcast_time timestamp =
     (let message = [2] @ uint64_LE timestamp in
      bind (gets clients) (\<lambda>cs. for_each (m_keys cs) (\<lambda>h. send_binary h message True)))"

definition send_service_response :: "hdl \<Rightarrow> service_response \<Rightarrow> ('e server_scheme, unit) cpp" where
  "send_service_response h response =
     (let payload = replicate (1 + ServiceResponse_size response) 0 in
      bind (lift (ServiceResponse_write response 1 (payload[0 := 3]))) (\<lambda>payload.
      send_binary h payload True))"

datatype FetchAssetStatus = FetchSuccess | FetchError

fun fetch_status_code :: "FetchAssetStatus \<Rightarrow> uint8_t" where
  "fetch_status_code FetchSuccess = 0"
| "fetch_status_code FetchError = 1"

record fetch_asset_response =
  request_id :: uint32_t
  status :: FetchAssetStatus
  error_message :: string
  asset_data :: bytes

definition fetch_asset_frame :: "fetch_asset_response \<Rightarrow> bytes" where
  "fetch_asset_frame response =
     (let err_msg_size = (if status response = FetchError then length (error_message response) else 0);
          data_size = (if status response = FetchSuccess then length (asset_data response) else 0)
      in [4] @ uint32_LE (request_id response) @ [fetch_status_code (status response)] @
         uint32_LE (word_of_nat (length (error_message response))) @
         take err_msg_size (bytes_of_string (error_message response)) @
         take data_size (asset_data response))"

definition send_fetch_asset_response :: "hdl \<Rightarrow> fetch_asset_response \<Rightarrow> ('e server_scheme, unit) cpp" where
  "send_fetch_asset_response h response =
     bind (gets conns) (\<lambda>cs.
     case m_find cs h of
       None \<Rightarrow> ret ()
     | Some con \<Rightarrow> discard (con_send h con (BinaryFrame (fetch_asset_frame response)) True))"

section \<open>The connection graph\<close>

text \<open>\<open>Json{{"name", name}, {key, ids}}\<close>.\<close>

definition named_ids :: "string \<Rightarrow> string \<times> string list \<Rightarrow> json" where
  "named_ids key entry =
     jobject [(''name'', JStr (fst entry)), (key, JArr (map JStr (snd entry)))]"

text \<open>The entries of the new map that are not in the old one with an equal set.\<close>

definition graph_diff :: "map_of_sets \<Rightarrow> map_of_sets \<Rightarrow> map_of_sets" where
  "graph_diff old new =
     filter (\<lambda>(name, ids). case m_find old name of None \<Rightarrow> True | Some ids' \<Rightarrow> set ids' \<noteq> set ids) new"

definition graph_update_json ::
    "map_of_sets \<Rightarrow> map_of_sets \<Rightarrow> map_of_sets \<Rightarrow> string list \<Rightarrow> string list \<Rightarrow> json" where
  "graph_update_json pubs subs servs removed_topics removed_services = jobject
     [(''op'', JStr ''connectionGraphUpdate''),
      (''publishedTopics'', JArr (map (named_ids ''publisherIds'') pubs)),
      (''subscribedTopics'', JArr (map (named_ids ''subscriberIds'') subs)),
      (''advertisedServices'', JArr (map (named_ids ''providerIds'') servs)),
      (''removedTopics'', JArr (map JStr removed_topics)),
      (''removedServices'', JArr (map JStr removed_services))]"

definition update_connection_graph ::
    "map_of_sets \<Rightarrow> map_of_sets \<Rightarrow> map_of_sets \<Rightarrow> ('e server_scheme, unit) cpp" where
  "update_connection_graph pubs subs servs =
     bind (gets conn_graph) (\<lambda>g.
     let publisher_diff = graph_diff (published_topics g) pubs;
         subscriber_diff = graph_diff (subscribed_topics g) subs;
         services_diff = graph_diff (advertised_services g) servs;
         topic_names = s_of (m_keys pubs @ m_keys subs);
         service_names = s_of (m_keys servs);
         known_topic_names = s_of (m_keys (published_topics g) @ m_keys (subscribed_topics g));
         known_service_names = s_of (m_keys (advertised_services g));
         removed_topics = filter (\<lambda>t. t \<notin> set topic_names) known_topic_names;
         removed_services = filter (\<lambda>t. t \<notin> set service_names) known_service_names
     in
     seq (modify (\<lambda>s. s\<lparr>conn_graph := (conn_graph s)\<lparr>published_topics := pubs,
            subscribed_topics := subs, advertised_services := servs\<rparr>\<rparr>)) (
     if publisher_diff = [] \<and> subscriber_diff = [] \<and> services_diff = [] \<and>
        removed_topics = [] \<and> removed_services = []
     then ret ()
     else
       let payload = graph_update_json publisher_diff subscriber_diff services_diff
                       removed_topics removed_services in
       bind (gets clients) (\<lambda>cs.
       for_each cs (\<lambda>(h, client).
         whenever (subscribed_to_connection_graph client) (server_send h (TextFrame payload))))))"

section \<open>Identifiers\<close>

text \<open>
  Channels and services are registered under identifiers counted up from the last one used:
  one contract, with the registers of a state as its parameters.
\<close>

fun new_ids :: "uint32_t \<Rightarrow> 'x list \<Rightarrow> uint32_t list" where
  "new_ids n [] = []"
| "new_ids n (x # xs) = (n + 1) # new_ids (n + 1) xs"

lemma length_new_ids [simp]: "length (new_ids n xs) = length xs"
  by (induction n xs rule: new_ids.induct) auto

lemma unat_Suc_word: "unat n + 1 < 2 ^ 32 \<Longrightarrow> unat (n + 1 :: uint32_t) = unat n + 1"
  by (simp add: unat_word_ariths)

lemma new_ids_range:
  "unat n + length xs < 2 ^ 32 \<Longrightarrow> i \<in> set (new_ids n xs) \<Longrightarrow>
     unat n < unat i \<and> unat i \<le> unat n + length xs"
proof (induction n xs rule: new_ids.induct)
  case (2 n x xs)
  then have "unat (n + 1) = unat n + 1"
    by (intro unat_Suc_word) simp
  with 2 show ?case by auto
qed simp

lemma distinct_new_ids: "unat n + length xs < 2 ^ 32 \<Longrightarrow> distinct (new_ids n xs)"
proof (induction n xs rule: new_ids.induct)
  case (2 n x xs)
  then have *: "unat (n + 1) = unat n + 1"
    by (intro unat_Suc_word) simp
  then have "n + 1 \<notin> set (new_ids (n + 1) xs)"
    using new_ids_range [of "n + 1" xs "n + 1"] 2 by auto
  with 2 * show ?case by simp
qed simp

text \<open>No identifier beyond the last one given out is in use.\<close>

definition ids_used :: "uint32_t \<Rightarrow> (uint32_t \<times> 'v) list \<Rightarrow> bool" where
  "ids_used n m = (\<forall>i \<in> set (m_keys m). unat i \<le> unat n)"

locale id_registry =
  fixes step :: "'x \<Rightarrow> uint32_t list \<times> 'j list \<Rightarrow> ('s, uint32_t list \<times> 'j list) cpp"
    and last_id :: "'s \<Rightarrow> uint32_t"
    and reg :: "'s \<Rightarrow> (uint32_t \<times> 'v) list"
    and upd :: "uint32_t \<Rightarrow> (uint32_t \<times> 'v) list \<Rightarrow> 's \<Rightarrow> 's"
    and mk :: "uint32_t \<Rightarrow> 'x \<Rightarrow> 'v"
    and js :: "uint32_t \<Rightarrow> 'x \<Rightarrow> 'j"
  assumes step_run: "step x (ids, outs) s =
      (Ok (ids @ [last_id s + 1], outs @ [js (last_id s + 1) x]),
       upd (last_id s + 1) (m_emplace (last_id s + 1) (mk (last_id s + 1) x) (reg s)) s)"
    and last_upd: "last_id (upd n m s) = n"
    and reg_upd: "reg (upd n m s) = m"
    and upd_upd: "upd n m (upd n' m' s) = upd n m s"
    and upd_same: "upd (last_id s) (reg s) s = s"
begin

definition entries :: "uint32_t \<Rightarrow> 'x list \<Rightarrow> (uint32_t \<times> 'v) list" where
  "entries n xs = map (\<lambda>(i, x). (i, mk i x)) (zip (new_ids n xs) xs)"

definition outs_of :: "uint32_t \<Rightarrow> 'x list \<Rightarrow> 'j list" where
  "outs_of n xs = map (\<lambda>(i, x). js i x) (zip (new_ids n xs) xs)"

text \<open>The loop appends one new entry for each element.\<close>

lemma fold_run:
  "unat (last_id s) + length xs < 2 ^ 32 \<Longrightarrow> ids_used (last_id s) (reg s) \<Longrightarrow>
   for_fold xs step (ids, outs) s =
     (Ok (ids @ new_ids (last_id s) xs, outs @ outs_of (last_id s) xs),
      upd (last_id s + word_of_nat (length xs)) (reg s @ entries (last_id s) xs) s)"
proof (induction xs arbitrary: s ids outs)
  case Nil
  then show ?case
    by (simp add: ret_def entries_def outs_of_def upd_same)
next
  case (Cons x xs)
  let ?n = "last_id s"
  have n: "unat (?n + 1) = unat ?n + 1"
    using Cons.prems by (intro unat_Suc_word) simp
  have "?n + 1 \<notin> set (m_keys (reg s))"
    using Cons.prems(2) n by (auto simp: ids_used_def)
  then have emplace: "m_emplace (?n + 1) (mk (?n + 1) x) (reg s) = reg s @ [(?n + 1, mk (?n + 1) x)]"
    by (simp add: m_emplace_def m_contains_iff)
  let ?s = "upd (?n + 1) (reg s @ [(?n + 1, mk (?n + 1) x)]) s"
  have "ids_used (last_id ?s) (reg ?s)"
    using Cons.prems(2) n by (force simp: ids_used_def last_upd reg_upd m_keys_def)
  then have "for_fold xs step (ids @ [?n + 1], outs @ [js (?n + 1) x]) ?s =
      (Ok (ids @ [?n + 1] @ new_ids (?n + 1) xs, outs @ [js (?n + 1) x] @ outs_of (?n + 1) xs),
       upd (?n + 1 + word_of_nat (length xs)) (reg s @ [(?n + 1, mk (?n + 1) x)] @ entries (?n + 1) xs) s)"
    using Cons.IH [of ?s] Cons.prems(1) n by (simp add: last_upd reg_upd upd_upd)
  then show ?case
    by (simp add: bind_def step_run emplace entries_def outs_of_def add.assoc)
qed

text \<open>Each element is found under its identifier, and nothing else changed.\<close>

lemma find_entries:
  assumes "unat n + length xs < 2 ^ 32" "ids_used n m" "k < length xs"
  shows "m_find (m @ entries n xs) (new_ids n xs ! k) = Some (mk (new_ids n xs ! k) (xs ! k))"
proof -
  let ?i = "new_ids n xs ! k"
  have "?i \<in> set (new_ids n xs)"
    using assms(3) by simp
  then have "?i \<notin> set (m_keys m)"
    using new_ids_range [OF assms(1), of ?i] assms(2) by (force simp: ids_used_def)
  then have "m_find m ?i = None"
    by (simp add: m_find_None_iff)
  moreover have "distinct (map fst (entries n xs))"
    using distinct_new_ids [OF assms(1)] by (simp add: entries_def o_def case_prod_unfold)
  moreover have "(?i, mk ?i (xs ! k)) \<in> set (entries n xs)"
    using assms(3) by (auto simp: entries_def set_zip)
  ultimately show ?thesis
    by (simp add: m_find_def map_add_def)
qed

lemma find_entries_old:
  assumes "i \<notin> set (new_ids n xs)"
  shows "m_find (m @ entries n xs) i = m_find m i"
proof -
  have "map_of (entries n xs) i = None"
    using assms by (auto simp: map_of_eq_None_iff entries_def set_zip)
  then show ?thesis
    by (simp add: m_find_def map_add_def split: option.splits)
qed

end

interpretation chan: id_registry add_channel next_channel_id channels
  "\<lambda>n m s. s\<lparr>next_channel_id := n, channels := m\<rparr>" Channel "\<lambda>i ch. channel_to_json (Channel i ch)"
  by unfold_locales (simp_all add: add_channel_def cpp_defs Let_def)

interpretation serv: id_registry add_service nextService_id services
  "\<lambda>n m s. s\<lparr>nextService_id := n, services := m\<rparr>" "\<lambda>i sv. sv" "\<lambda>i sv. service_to_json (Service sv i)"
  by unfold_locales (simp_all add: add_service_def cpp_defs Let_def)

section \<open>What the operations do\<close>

text \<open>One frame to each client that can take it.\<close>

definition to_clients :: "'e server_scheme \<Rightarrow> frame \<Rightarrow> sent list" where
  "to_clients s f = concat (map (\<lambda>h. accepted s h f True) (m_keys (clients s)))"

lemma broadcast_to_clients:
  "broadcast msg s = (Ok (), s\<lparr>outbox := outbox s @ to_clients s (TextFrame msg)\<rparr>)"
  unfolding broadcast_def to_clients_def
  by (simp add: bind_def gets_def broadcast_run [where f = "TextFrame msg" and r = True] send_raw_json_run)

lemma to_clients_update [simp]:
  "to_clients (s\<lparr>channels := ch\<rparr>) f = to_clients s f"
  "to_clients (s\<lparr>next_channel_id := n\<rparr>) f = to_clients s f"
  "to_clients (s\<lparr>services := sv\<rparr>) f = to_clients s f"
  "to_clients (s\<lparr>nextService_id := n\<rparr>) f = to_clients s f"
  by (simp_all add: to_clients_def)

lemma add_channels_run:
  assumes "unat (next_channel_id s) + length chs < 2 ^ 32"
    and "ids_used (next_channel_id s) (channels s)" and "chs \<noteq> []"
  shows "add_channels chs s =
    (Ok (new_ids (next_channel_id s) chs),
     s\<lparr>next_channel_id := next_channel_id s + word_of_nat (length chs),
       channels := channels s @ chan.entries (next_channel_id s) chs,
       outbox := outbox s @ to_clients s (TextFrame (jobject [(''op'', JStr ''advertise''),
         (''channels'', JArr (chan.outs_of (next_channel_id s) chs))]))\<rparr>)"
  using assms chan.fold_run [OF assms(1,2)]
  by (simp add: add_channels_def seq_def bind_def ret_def broadcast_to_clients)

lemma add_services_run:
  assumes "unat (nextService_id s) + length svs < 2 ^ 32"
    and "ids_used (nextService_id s) (services s)" and "svs \<noteq> []"
  shows "add_services svs s =
    (Ok (new_ids (nextService_id s) svs),
     s\<lparr>nextService_id := nextService_id s + word_of_nat (length svs),
       services := services s @ serv.entries (nextService_id s) svs,
       outbox := outbox s @ to_clients s (TextFrame (jobject [(''op'', JStr ''advertiseServices''),
         (''services'', JArr (serv.outs_of (nextService_id s) svs))]))\<rparr>)"
  using assms serv.fold_run [OF assms(1,2)]
  by (simp add: add_services_def seq_def bind_def ret_def broadcast_to_clients)

subsection \<open>Removing channels\<close>

definition drop_subscriptions :: "uint32_t list \<Rightarrow> client_info \<Rightarrow> client_info" where
  "drop_subscriptions ids c =
     c\<lparr>subscriptions_by_channel := fold m_erase ids (subscriptions_by_channel c)\<rparr>"

lemma fold_m_erase: "fold m_erase ids m = filter (\<lambda>kv. fst kv \<notin> set ids) m"
  by (induction ids arbitrary: m) (auto simp: m_erase_def AList.delete_eq case_prod_unfold intro: filter_cong)

lemma find_fold_erase: "m_find (fold m_erase ids m) i = (if i \<in> set ids then None else m_find m i)"
  by (induction ids arbitrary: m) auto

lemma find_drop_subscriptions:
  "m_find (subscriptions_by_channel (drop_subscriptions ids c)) i =
     (if i \<in> set ids then None else m_find (subscriptions_by_channel c) i)"
  by (simp add: drop_subscriptions_def find_fold_erase)

lemma drop_subscriptions_idem [simp]:
  "drop_subscriptions ids (drop_subscriptions ids c) = drop_subscriptions ids c"
  by (simp add: drop_subscriptions_def fold_m_erase)

lemma erase_channels_run:
  "for_each ids (\<lambda>i. modify (\<lambda>s. s\<lparr>channels := m_erase i (channels s)\<rparr>)) s =
     (Ok (), s\<lparr>channels := fold m_erase ids (channels s)\<rparr>)"
  by (induction ids arbitrary: s) (simp_all add: cpp_defs)

text \<open>The loop over the clients: every client listed loses the subscriptions.\<close>

lemma drop_loop:
  assumes "set hs \<subseteq> set (m_keys (clients s))"
  shows "\<exists>cl. for_each hs (\<lambda>h. seq (update_client h (drop_subscriptions ids)) (send_raw_json h msg True)) s =
      (Ok (), s\<lparr>clients := cl,
         outbox := outbox s @ concat (map (\<lambda>h. accepted s h (TextFrame msg) True) hs)\<rparr>) \<and>
      m_keys cl = m_keys (clients s) \<and>
      (\<forall>h. m_find cl h = map_option (\<lambda>c. if h \<in> set hs then drop_subscriptions ids c else c)
                            (m_find (clients s) h))"
  using assms
proof (induction hs arbitrary: s)
  case Nil
  show ?case
    by (rule exI [of _ "clients s"]) (simp add: cpp_defs option.map_ident)
next
  case (Cons h hs)
  from Cons.prems obtain c where c: "m_find (clients s) h = Some c"
    by (metis list.set_intros(1) m_find_None_iff not_None_eq subsetD)
  let ?t = "s\<lparr>clients := m_assign h (drop_subscriptions ids c) (clients s),
    outbox := outbox s @ accepted s h (TextFrame msg) True\<rparr>"
  have run: "seq (update_client h (drop_subscriptions ids)) (send_raw_json h msg True) s = (Ok (), ?t)"
    by (simp add: cpp_defs update_client_def c send_raw_json_run)
  have keys: "m_keys (clients ?t) = m_keys (clients s)"
    using Cons.prems by simp
  obtain cl where cl: "for_each hs (\<lambda>h. seq (update_client h (drop_subscriptions ids)) (send_raw_json h msg True)) ?t =
      (Ok (), ?t\<lparr>clients := cl,
         outbox := outbox ?t @ concat (map (\<lambda>h. accepted ?t h (TextFrame msg) True) hs)\<rparr>)"
    "m_keys cl = m_keys (clients ?t)"
    "\<And>h. m_find cl h = map_option (\<lambda>c. if h \<in> set hs then drop_subscriptions ids c else c)
                            (m_find (clients ?t) h)"
    using Cons.IH [of ?t] Cons.prems keys by auto
  have "for_each (h # hs) (\<lambda>h. seq (update_client h (drop_subscriptions ids)) (send_raw_json h msg True)) s =
      (Ok (), s\<lparr>clients := cl,
         outbox := outbox s @ concat (map (\<lambda>h. accepted s h (TextFrame msg) True) (h # hs))\<rparr>)"
    using run cl(1) by (simp add: seq_def bind_def)
  moreover have "m_find cl k = map_option (\<lambda>c. if k \<in> set (h # hs) then drop_subscriptions ids c else c)
      (m_find (clients s) k)" for k
    by (simp add: cl(3) c)
  ultimately show ?case
    using cl(2) keys by auto
qed

lemma remove_channels_run:
  assumes "ids \<noteq> []"
  shows "\<exists>cl. remove_channels ids s =
      (Ok (), s\<lparr>channels := fold m_erase ids (channels s), clients := cl,
         outbox := outbox s @ to_clients s (TextFrame (jobject [(''op'', JStr ''unadvertise''),
            (''channelIds'', JArr (map json_u32 ids))]))\<rparr>) \<and>
      m_keys cl = m_keys (clients s) \<and>
      (\<forall>h. m_find cl h = map_option (drop_subscriptions ids) (m_find (clients s) h))"
proof -
  let ?s = "s\<lparr>channels := fold m_erase ids (channels s)\<rparr>"
  let ?msg = "jobject [(''op'', JStr ''unadvertise''), (''channelIds'', JArr (map json_u32 ids))]"
  obtain cl where cl: "for_each (m_keys (clients ?s)) (\<lambda>h. seq (update_client h (drop_subscriptions ids)) (send_raw_json h ?msg True)) ?s =
      (Ok (), ?s\<lparr>clients := cl, outbox := outbox ?s @ concat (map (\<lambda>h. accepted ?s h (TextFrame ?msg) True) (m_keys (clients ?s)))\<rparr>)"
    "m_keys cl = m_keys (clients ?s)"
    "\<And>h. m_find cl h = map_option (\<lambda>c. if h \<in> set (m_keys (clients ?s)) then drop_subscriptions ids c else c) (m_find (clients ?s) h)"
    using drop_loop [of "m_keys (clients ?s)" ?s ids ?msg] by auto
  have "m_find cl h = map_option (drop_subscriptions ids) (m_find (clients s) h)" for h
    using m_find_None_iff [of "clients s" h] by (cases "m_find (clients s) h") (auto simp: cl(3))
  moreover have "remove_channels ids s =
      (Ok (), ?s\<lparr>clients := cl, outbox := outbox s @ to_clients s (TextFrame ?msg)\<rparr>)"
    using assms cl(1)
    by (simp add: remove_channels_def erase_channels_run seq_def bind_def gets_def to_clients_def
        drop_subscriptions_def [abs_def])
  ultimately show ?thesis
    using cl(2) by auto
qed

subsection \<open>Messages, parameters and responses\<close>

definition subscription_of :: "'e server_scheme \<Rightarrow> hdl \<Rightarrow> uint32_t \<Rightarrow> uint32_t option" where
  "subscription_of s h i =
     (case m_find (clients s) h of
        None \<Rightarrow> None
      | Some c \<Rightarrow> m_find (subscriptions_by_channel c) i)"

lemma send_message_run:
  "send_message h i t p s =
     (Ok (), s\<lparr>outbox := outbox s @ (case subscription_of s h i of
        None \<Rightarrow> []
      | Some sub \<Rightarrow> accepted s h (BinaryFrame (message_header sub t @ p)) False)\<rparr>)"
  by (auto simp: send_message_def subscription_of_def sending_defs cpp_defs split: option.splits)

lemma publish_parameter_values_run:
  "publish_parameter_values h ps i s =
     (Ok (), s\<lparr>outbox := outbox s @ accepted s h
        (TextFrame (parameter_values_json (filter (\<lambda>p. getType (p_value p) \<noteq> PARAMETER_NOT_SET) ps) i)) True\<rparr>)"
  by (simp add: publish_parameter_values_def send_raw_json_run)

text \<open>What a subscriber of parameters gets of an update: the set ones of those it asked for,
  in one frame, and nothing where none of its parameters is in the update.\<close>

definition param_update :: "'e server_scheme \<Rightarrow> parameter list \<Rightarrow> hdl \<times> string list \<Rightarrow> sent list" where
  "param_update s ps sub =
     (let mine = filter (\<lambda>p. p_name p \<in> set (snd sub)) ps in
      if mine = [] then []
      else accepted s (fst sub) (TextFrame (parameter_values_json
             (filter (\<lambda>p. getType (p_value p) \<noteq> PARAMETER_NOT_SET) mine) None)) True)"

lemma param_update_outbox [simp]: "param_update (s\<lparr>outbox := xs\<rparr>) ps = param_update s ps"
  by (simp add: param_update_def fun_eq_iff Let_def)

lemma update_parameter_values_run:
  "update_parameter_values ps s =
     (Ok (), s\<lparr>outbox := outbox s @ concat (map (param_update s ps) (client_param_subscriptions s))\<rparr>)"
proof -
  have "for_each subs (\<lambda>(h, names).
       let params_to_send = filter (\<lambda>p. p_name p \<in> set names) ps in
       if params_to_send = [] then ret ()
       else publish_parameter_values h params_to_send None) s =
     (Ok (), s\<lparr>outbox := outbox s @ concat (map (param_update s ps) subs)\<rparr>)" for subs
  proof (induction subs arbitrary: s)
    case (Cons x subs)
    obtain h names where x: "x = (h, names)" by (cases x)
    let ?mine = "filter (\<lambda>p. p_name p \<in> set names) ps"
    have "(let params_to_send = ?mine in
         if params_to_send = [] then ret () else publish_parameter_values h params_to_send None) s =
        (Ok (), s\<lparr>outbox := outbox s @ param_update s ps x\<rparr>)"
      by (simp add: x param_update_def publish_parameter_values_run ret_def Let_def del: filter_filter)
    then show ?case
      using Cons.IH by (simp add: x seq_def bind_def)
  qed (simp add: cpp_defs)
  then show ?thesis
    by (simp add: update_parameter_values_def bind_def gets_def)
qed

lemma send_service_response_run:
  "send_service_response h r s =
     (Ok (), s\<lparr>outbox := outbox s @ accepted s h (BinaryFrame (3 # service_response_bytes r)) True\<rparr>)"
  by (simp add: send_service_response_def ServiceResponse_write_layout bind_def lift_def send_binary_run)

lemma send_fetch_asset_response_run:
  "send_fetch_asset_response h r s =
     (Ok (), s\<lparr>outbox := outbox s @ accepted s h (BinaryFrame (fetch_asset_frame r)) True\<rparr>)"
  by (simp add: send_fetch_asset_response_def sending_defs cpp_defs split: option.splits)

subsection \<open>The connection graph as its subscribers see it\<close>

text \<open>A subscriber keeps a map from names to sets of node names and applies each update.\<close>

definition graph_view :: "map_of_sets \<Rightarrow> string \<Rightarrow> string set option" where
  "graph_view m n = map_option set (m_find m n)"

definition apply_update ::
    "map_of_sets \<Rightarrow> string list \<Rightarrow> (string \<Rightarrow> string set option) \<Rightarrow> string \<Rightarrow> string set option" where
  "apply_update diff removed view n =
     (if n \<in> set removed then None
      else case m_find diff n of Some ids \<Rightarrow> Some (set ids) | None \<Rightarrow> view n)"

lemma find_graph_diff:
  assumes "m_invar new"
  shows "m_find (graph_diff old new) n =
    (case m_find new n of
       None \<Rightarrow> None
     | Some ids \<Rightarrow> if graph_view old n = Some (set ids) then None else Some ids)"
proof -
  have inv: "m_invar (graph_diff old new)"
    using assms by (simp add: m_invar_def m_keys_def graph_diff_def distinct_map_filter)
  have mem: "(n, ids) \<in> set (graph_diff old new) \<longleftrightarrow> m_find new n = Some ids \<and> graph_view old n \<noteq> Some (set ids)" for ids
    using assms by (auto simp: graph_diff_def graph_view_def m_find_iff_mem split: option.splits)
  show ?thesis
  proof (cases "m_find (graph_diff old new) n")
    case None
    then show ?thesis
      using mem m_find_iff_mem [OF inv, of n] by (auto split: option.splits)
  next
    case (Some ids)
    then show ?thesis
      using mem [of ids] m_find_mem [OF Some] by auto
  qed
qed

lemma apply_graph_diff:
  assumes "m_invar new" and "\<And>n. n \<in> set removed \<Longrightarrow> m_find new n = None"
  shows "apply_update (graph_diff old new) removed (graph_view old) n =
    (if n \<in> set (m_keys new) then graph_view new n
     else if n \<in> set removed then None else graph_view old n)"
  using assms(2) [of n] m_find_None_iff [of new n]
  by (auto simp: apply_update_def find_graph_diff [OF assms(1)] graph_view_def split: option.splits)

text \<open>The same with the removed names computed from all names known before and after.\<close>

lemma apply_graph_update:
  assumes inv: "m_invar new"
    and new: "set (m_keys new) \<subseteq> set names" and old: "set (m_keys old) \<subseteq> set known"
  shows "apply_update (graph_diff old new) (filter (\<lambda>t. t \<notin> set names) known) (graph_view old) n =
    (if n \<in> set names - set (m_keys new) then graph_view old n else graph_view new n)"
proof -
  have none: "n \<notin> set (m_keys m) \<Longrightarrow> graph_view m n = None" for m
    by (simp add: graph_view_def m_find_None_iff)
  have "m_find new k = None" if "k \<in> set (filter (\<lambda>t. t \<notin> set names) known)" for k
    using that new by (auto simp: m_find_None_iff)
  then show ?thesis
    using new old none [of new] none [of old] by (subst apply_graph_diff [OF inv]) auto
qed

text \<open>The clients flagged as subscribers get the frame, while their connections are open.\<close>

definition graph_subscribers :: "'e server_scheme \<Rightarrow> hdl list" where
  "graph_subscribers s = map fst (filter (\<lambda>(h, c). subscribed_to_connection_graph c) (clients s))"

definition open_conn :: "'e server_scheme \<Rightarrow> hdl \<Rightarrow> bool" where
  "open_conn s h = (case m_find (conns s) h of Some con \<Rightarrow> con_open con | None \<Rightarrow> False)"

lemma open_conn_outbox [simp]: "open_conn (s\<lparr>outbox := xs\<rparr>) = open_conn s"
  by (simp add: open_conn_def fun_eq_iff)

lemma server_send_run:
  "open_conn s h \<Longrightarrow> server_send h f s = (Ok (), s\<lparr>outbox := outbox s @ [(h, f, True)]\<rparr>)"
  by (auto simp: server_send_def open_conn_def sending_defs cpp_defs split: option.splits)

lemma graph_send_loop:
  assumes "\<forall>h \<in> set (map fst (filter (\<lambda>(h, c). subscribed_to_connection_graph c) cs)). open_conn s h"
  shows "for_each cs (\<lambda>(h, c). whenever (subscribed_to_connection_graph c) (server_send h f)) s =
    (Ok (), s\<lparr>outbox := outbox s @
       map (\<lambda>h. (h, f, True)) (map fst (filter (\<lambda>(h, c). subscribed_to_connection_graph c) cs))\<rparr>)"
  using assms
proof (induction cs arbitrary: s)
  case (Cons x cs)
  obtain h c where x: "x = (h, c)" by (cases x)
  show ?case
  proof (cases "subscribed_to_connection_graph c")
    case True
    then have "open_conn s h"
      using Cons.prems by (simp add: x)
    then show ?thesis
      using True Cons.prems Cons.IH [of "s\<lparr>outbox := outbox s @ [(h, f, True)]\<rparr>"]
      by (simp add: x seq_def bind_def whenever_def server_send_run)
  next
    case False
    then show ?thesis
      using Cons by (simp add: x whenever_def)
  qed
qed (simp add: ret_def)

lemma ids_used_entries:
  assumes "unat n + length xs < 2 ^ 32" "ids_used n m"
  shows "ids_used (n + word_of_nat (length xs)) (m @ chan.entries n xs)"
proof -
  have n: "unat (n + word_of_nat (length xs)) = unat n + length xs"
    using assms(1) by (simp add: unat_word_ariths unat_of_nat)
  have "set (m_keys (chan.entries n xs)) \<subseteq> set (new_ids n xs)"
    by (auto simp: m_keys_def chan.entries_def set_zip)
  then show ?thesis
    using assms(2) new_ids_range [OF assms(1)]
    by (fastforce simp: ids_used_def n m_keys_def)
qed

section \<open>Properties\<close>

text \<open>While fewer than \<open>2^32\<close> identifiers were given out, \<open>add_channels\<close> gives every channel
  an identifier that no channel had, registers it under that identifier and leaves every other
  channel as it was; the counter stays ahead of every identifier in use.\<close>

lemma add_channels_fresh:
  assumes "unat (next_channel_id s) + length chs < 2 ^ 32"
    and "ids_used (next_channel_id s) (channels s)"
  shows "\<exists>ids t. add_channels chs s = (Ok ids, t) \<and> length ids = length chs \<and> distinct ids \<and>
    (\<forall>k < length chs. m_find (channels s) (ids ! k) = None \<and>
       m_find (channels t) (ids ! k) = Some (Channel (ids ! k) (chs ! k))) \<and>
    (\<forall>i. i \<notin> set ids \<longrightarrow> m_find (channels t) i = m_find (channels s) i) \<and>
    ids_used (next_channel_id t) (channels t)"
proof (cases "chs = []")
  case True
  with assms show ?thesis by (simp add: add_channels_def ret_def)
next
  case False
  let ?ids = "new_ids (next_channel_id s) chs"
  have fresh: "m_find (channels s) (?ids ! k) = None" if "k < length chs" for k
    using new_ids_range [OF assms(1), of "?ids ! k"] assms(2) that
    by (force simp: m_find_None_iff ids_used_def)
  show ?thesis
    using add_channels_run [OF assms False] distinct_new_ids [OF assms(1)] fresh
      chan.find_entries [OF assms] chan.find_entries_old ids_used_entries [OF assms]
    by simp
qed

lemma add_channels_fresh_witness:
  "\<exists>ids t. add_channels
      [\<lparr>topic = ''/a'', ch_encoding = ''cdr'', schema_name = ''S'', schema = [], schema_encoding = None\<rparr>]
      (Server ''srv'' demo_options) = (Ok ids, t) \<and> length ids = 1 \<and> ids_used (next_channel_id t) (channels t)"
  using add_channels_fresh [of "Server ''srv'' demo_options"
      "[\<lparr>topic = ''/a'', ch_encoding = ''cdr'', schema_name = ''S'', schema = [], schema_encoding = None\<rparr>]"]
  by (auto simp: Server_def ids_used_def m_keys_def)

text \<open>\<open>remove_channels\<close> returns without an exception; the channels are gone, no client is
  subscribed to one of them any more, and every other channel and subscription is as before.\<close>

lemma remove_channels_unsubscribes:
  "\<exists>t. remove_channels ids s = (Ok (), t) \<and>
     (\<forall>i. m_find (channels t) i = (if i \<in> set ids then None else m_find (channels s) i)) \<and>
     (\<forall>h i. subscription_of t h i = (if i \<in> set ids then None else subscription_of s h i)) \<and>
     m_keys (clients t) = m_keys (clients s)"
proof (cases "ids = []")
  case True
  then show ?thesis by (simp add: remove_channels_def ret_def)
next
  case False
  from remove_channels_run [OF False, of s] obtain cl where
    "remove_channels ids s =
      (Ok (), s\<lparr>channels := fold m_erase ids (channels s), clients := cl,
         outbox := outbox s @ to_clients s (TextFrame (jobject [(''op'', JStr ''unadvertise''),
            (''channelIds'', JArr (map json_u32 ids))]))\<rparr>)"
    "m_keys cl = m_keys (clients s)"
    "\<And>h. m_find cl h = map_option (drop_subscriptions ids) (m_find (clients s) h)"
    by blast
  then show ?thesis
    by (auto simp: find_fold_erase subscription_of_def find_drop_subscriptions split: option.splits)
qed

text \<open>\<open>send_message\<close> hands the message to a client's connection exactly when the client is
  subscribed to the channel and the connection is open, as one droppable frame of opcode 1, the
  client's own subscription id, the timestamp and the payload; nothing else changes.\<close>

lemma send_message_delivery:
  "send_message h i t p s =
     (Ok (), s\<lparr>outbox := outbox s @ (case subscription_of s h i of
        None \<Rightarrow> []
      | Some sub \<Rightarrow>
          if open_conn s h
          then [(h, BinaryFrame ([1] @ uint32_LE sub @ uint64_LE t @ p), False)] else [])\<rparr>)"
  by (simp add: send_message_run message_header_def open_conn_def accepted_def split: option.splits)

text \<open>An update of parameters goes to the clients subscribed to one of them, each getting in
  one frame those of its parameters that have a value, in the order of the update.\<close>

lemma update_parameter_values_delivery:
  "update_parameter_values ps s =
     (Ok (), s\<lparr>outbox := outbox s @ concat (map (\<lambda>(h, names).
        let mine = filter (\<lambda>p. p_name p \<in> set names) ps in
        if mine = [] then []
        else if open_conn s h
        then [(h, TextFrame (parameter_values_json
                (filter (\<lambda>p. getType (p_value p) \<noteq> PARAMETER_NOT_SET) mine) None), True)]
        else [])
        (client_param_subscriptions s))\<rparr>)"
proof -
  have "param_update s ps = (\<lambda>(h, names).
        let mine = filter (\<lambda>p. p_name p \<in> set names) ps in
        if mine = [] then []
        else if open_conn s h
        then [(h, TextFrame (parameter_values_json
                (filter (\<lambda>p. getType (p_value p) \<noteq> PARAMETER_NOT_SET) mine) None), True)]
        else [])"
    by (auto simp: fun_eq_iff param_update_def accepted_def open_conn_def Let_def split: option.splits)
  then show ?thesis
    by (simp add: update_parameter_values_run)
qed

text \<open>A service response reaches the client as one reliable frame: opcode 3 and bytes from
  which the reader of service messages gets the same response.\<close>

lemma send_service_response_readable:
  assumes "length (encoding r) \<le> MAX_ENCODING_LENGTH" and "open_conn s h"
  shows "\<exists>bs. send_service_response h r s =
      (Ok (), s\<lparr>outbox := outbox s @ [(h, BinaryFrame (3 # bs), True)]\<rparr>) \<and>
    ServiceResponse_read bs old = (Ok (), r)"
  using assms
  by (auto simp: send_service_response_run accepted_def open_conn_def frame_of_service_response
      ServiceResponse_read_accepted split: option.splits intro!: exI [of _ "service_response_bytes r"])

lemma send_service_response_readable_witness:
  "\<exists>bs. send_service_response 4 \<lparr>service_id = 1, call_id = 2, encoding = ''ros1'', serv_data = [5]\<rparr>
      ((Server ''srv'' demo_options)\<lparr>conns := [(4, \<lparr>con_open = True, remote_endpoint = ''10.0.0.2:5000'',
          requested_subprotocols = [], selected_subprotocol = None\<rparr>)]\<rparr>) =
      (Ok (), (Server ''srv'' demo_options)\<lparr>conns := [(4, \<lparr>con_open = True, remote_endpoint = ''10.0.0.2:5000'',
          requested_subprotocols = [], selected_subprotocol = None\<rparr>)],
        outbox := [(4, BinaryFrame (3 # bs), True)]\<rparr>) \<and>
    ServiceResponse_read bs \<lparr>service_id = 0, call_id = 0, encoding = [], serv_data = []\<rparr> =
      (Ok (), \<lparr>service_id = 1, call_id = 2, encoding = ''ros1'', serv_data = [5]\<rparr>)"
  using send_service_response_readable [of
      "\<lparr>service_id = 1, call_id = 2, encoding = ''ros1'', serv_data = [5]\<rparr>"
      "(Server ''srv'' demo_options)\<lparr>conns := [(4, \<lparr>con_open = True, remote_endpoint = ''10.0.0.2:5000'',
          requested_subprotocols = [], selected_subprotocol = None\<rparr>)]\<rparr>" 4
      "\<lparr>service_id = 0, call_id = 0, encoding = [], serv_data = []\<rparr>"]
  by (simp add: MAX_ENCODING_LENGTH_def open_conn_def Server_def)





text \<open>C29: Every subscriber of the connection graph gets the difference to the previous graph:
  applied to what it knew of the services it gives exactly the new services, and of the
  publishers and subscribers it gives the new sets, but for a topic that lost its last publisher
  and keeps subscribers (or the other way round), which no part of the update mentions, so that
  the old set stays with the client.  Where nothing changed no frame is sent.\<close>

theorem connection_graph_update_exact:
  assumes "m_invar pubs" "m_invar subs" "m_invar servs"
    and "\<forall>h \<in> set (graph_subscribers s). open_conn s h"
  shows "\<exists>pd sd vd rt rs. update_connection_graph pubs subs servs s =
      (Ok (), s\<lparr>conn_graph := (conn_graph s)\<lparr>published_topics := pubs, subscribed_topics := subs,
                   advertised_services := servs\<rparr>,
        outbox := outbox s @
          (if pd = [] \<and> sd = [] \<and> vd = [] \<and> rt = [] \<and> rs = [] then []
           else map (\<lambda>h. (h, TextFrame (graph_update_json pd sd vd rt rs), True)) (graph_subscribers s))\<rparr>) \<and>
    apply_update vd rs (graph_view (advertised_services (conn_graph s))) = graph_view servs \<and>
    (\<forall>n. apply_update pd rt (graph_view (published_topics (conn_graph s))) n =
       (if n \<in> set (m_keys subs) - set (m_keys pubs) then graph_view (published_topics (conn_graph s)) n
        else graph_view pubs n)) \<and>
    (\<forall>n. apply_update sd rt (graph_view (subscribed_topics (conn_graph s))) n =
       (if n \<in> set (m_keys pubs) - set (m_keys subs) then graph_view (subscribed_topics (conn_graph s)) n
        else graph_view subs n))"
proof -
  define g where "g = conn_graph s"
  define pd where "pd = graph_diff (published_topics g) pubs"
  define sd where "sd = graph_diff (subscribed_topics g) subs"
  define vd where "vd = graph_diff (advertised_services g) servs"
  define rt where "rt = filter (\<lambda>t. t \<notin> set (s_of (m_keys pubs @ m_keys subs)))
      (s_of (m_keys (published_topics g) @ m_keys (subscribed_topics g)))"
  define rs where "rs = filter (\<lambda>t. t \<notin> set (s_of (m_keys servs))) (s_of (m_keys (advertised_services g)))"
  define s' where "s' = s\<lparr>conn_graph := g\<lparr>published_topics := pubs, subscribed_topics := subs,
      advertised_services := servs\<rparr>\<rparr>"
  have loop: "for_each (clients s) (\<lambda>(h, c). whenever (subscribed_to_connection_graph c) (server_send h f)) s' =
      (Ok (), s'\<lparr>outbox := outbox s @ map (\<lambda>h. (h, f, True)) (graph_subscribers s)\<rparr>)" for f
    using graph_send_loop [of "clients s" s' f] assms(4)
    by (simp add: graph_subscribers_def open_conn_def s'_def)
  have views:
    "apply_update vd rs (graph_view (advertised_services g)) n = graph_view servs n"
    "apply_update pd rt (graph_view (published_topics g)) n =
       (if n \<in> set (m_keys subs) - set (m_keys pubs) then graph_view (published_topics g) n else graph_view pubs n)"
    "apply_update sd rt (graph_view (subscribed_topics g)) n =
       (if n \<in> set (m_keys pubs) - set (m_keys subs) then graph_view (subscribed_topics g) n else graph_view subs n)"
    for n
    using apply_graph_update [OF assms(3), of "s_of (m_keys servs)" "advertised_services g"
        "s_of (m_keys (advertised_services g))" n]
      apply_graph_update [OF assms(1), of "s_of (m_keys pubs @ m_keys subs)" "published_topics g"
        "s_of (m_keys (published_topics g) @ m_keys (subscribed_topics g))" n]
      apply_graph_update [OF assms(2), of "s_of (m_keys pubs @ m_keys subs)" "subscribed_topics g"
        "s_of (m_keys (published_topics g) @ m_keys (subscribed_topics g))" n]
    by (auto simp: pd_def sd_def vd_def rt_def rs_def)
  have "update_connection_graph pubs subs servs s =
      (if pd = [] \<and> sd = [] \<and> vd = [] \<and> rt = [] \<and> rs = [] then ret ()
       else for_each (clients s) (\<lambda>(h, c). whenever (subscribed_to_connection_graph c)
              (server_send h (TextFrame (graph_update_json pd sd vd rt rs))))) s'"
    unfolding update_connection_graph_def Let_def bind_def seq_def gets_def modify_def
      pd_def sd_def vd_def rt_def rs_def g_def s'_def by simp
  then have run: "update_connection_graph pubs subs servs s =
      (Ok (), s'\<lparr>outbox := outbox s @
          (if pd = [] \<and> sd = [] \<and> vd = [] \<and> rt = [] \<and> rs = [] then []
           else map (\<lambda>h. (h, TextFrame (graph_update_json pd sd vd rt rs), True)) (graph_subscribers s))\<rparr>)"
    using loop by (simp add: ret_def s'_def)
  show ?thesis
    unfolding g_def [symmetric]
    by (rule exI [of _ pd], rule exI [of _ sd], rule exI [of _ vd], rule exI [of _ rt], rule exI [of _ rs])
      (use run views in \<open>simp add: s'_def fun_eq_iff\<close>)
qed

text \<open>A topic with a publisher and a subscriber loses its publisher.\<close>

definition graph_example :: server where
  "graph_example = (Server ''srv'' demo_options)\<lparr>conn_graph := initial_graph\<lparr>
     published_topics := [(''/t'', [''a''])], subscribed_topics := [(''/t'', [''b''])]\<rparr>\<rparr>"

theorem connection_graph_update_exact_witness:
  "\<exists>pd rt. fst (update_connection_graph [] [(''/t'', [''b''])] [] graph_example) = Ok () \<and>
     apply_update pd rt (graph_view [(''/t'', [''a''])]) ''/t'' = Some {''a''}"
proof -
  have subs: "\<forall>h \<in> set (graph_subscribers graph_example). open_conn graph_example h"
    by (simp add: graph_example_def Server_def graph_subscribers_def)
  have inv: "m_invar ([] :: map_of_sets)" "m_invar [(''/t'', [''b''])]" "m_invar ([] :: map_of_sets)"
    by (simp_all add: m_invar_def m_keys_def)
  have pubs: "published_topics (conn_graph graph_example) = [(''/t'', [''a''])]"
    by (simp add: graph_example_def Server_def)
  obtain pd rt where "fst (update_connection_graph [] [(''/t'', [''b''])] [] graph_example) = Ok ()"
    "\<And>n. apply_update pd rt (graph_view [(''/t'', [''a''])]) n =
       (if n \<in> set (m_keys [(''/t'', [''b''])]) - set (m_keys ([] :: map_of_sets))
        then graph_view [(''/t'', [''a''])] n else graph_view [] n)"
    using connection_graph_update_exact [OF inv subs] unfolding pubs by fastforce
  then have "apply_update pd rt (graph_view [(''/t'', [''a''])]) ''/t'' = Some {''a''} \<and>
      fst (update_connection_graph [] [(''/t'', [''b''])] [] graph_example) = Ok ()"
    by (simp add: m_keys_def graph_view_def)
  then show ?thesis by blast
qed

end
