(* ===== verification/Server_Requests.thy ===== *)
theory Server_Requests
  imports Server_Publish
begin

text \<open>
  The private handlers of \<open>Server\<close>: a connection opened, the requests of a client (login,
  subscriptions, advertisements, parameters, connection graph, assets), and a connection closed.
  \<open>H\<close> are the handlers the bridge installed.
\<close>

section \<open>Connections\<close>

definition SUPPORTED_SUB_PROTOCOL :: string where
  "SUPPORTED_SUB_PROTOCOL = ''coBridge.websocket.v1''"

definition FOXGLOVE_SUB_PROTOCOL :: string where
  "FOXGLOVE_SUB_PROTOCOL = ''foxglove.websocket.v1''"

definition select_subprotocol :: "hdl \<Rightarrow> string \<Rightarrow> ('e server_scheme, unit) cpp" where
  "select_subprotocol h p =
     modify (\<lambda>s. case m_find (conns s) h of
                   Some con \<Rightarrow> s\<lparr>conns := m_assign h (con\<lparr>selected_subprotocol := Some p\<rparr>) (conns s)\<rparr>
                 | None \<Rightarrow> s)"

definition validate_connection :: "hdl \<Rightarrow> ('e server_scheme, bool) cpp" where
  "validate_connection h =
     bind (get_con_from_hdl h) (\<lambda>con.
     let sub_protocols = requested_subprotocols con in
     if SUPPORTED_SUB_PROTOCOL \<in> set sub_protocols
     then seq (select_subprotocol h SUPPORTED_SUB_PROTOCOL) (ret True)
     else if FOXGLOVE_SUB_PROTOCOL \<in> set sub_protocols
     then seq (select_subprotocol h FOXGLOVE_SUB_PROTOCOL) (ret True)
     else ret False)"

definition login_json :: "string \<Rightarrow> string \<Rightarrow> server_options \<Rightarrow> string \<Rightarrow> json" where
  "login_json uid uname opts link_type = jobject
     [(''op'', JStr ''login''), (''userId'', JStr uid), (''username'', JStr uname),
      (''infoPort'', JStr ''21275''), (''macAddr'', JStr (mac_addr opts)),
      (''lanCandidates'', JArr (map JStr (ip_addrs opts))), (''linkType'', JStr link_type)]"

text \<open>
  \<open>handle_connection_opened\<close>.  \<open>_options.metadata["COLINK"]\<close> is the subscript operator of a
  map that is not constant: it inserts an empty value when the key is missing.
\<close>

definition handle_connection_opened :: "hdl \<Rightarrow> ('e server_scheme, unit) cpp" where
  "handle_connection_opened h =
     bind (get_con_from_hdl h) (\<lambda>con.
     bind (gets (remote_endpoint_string h)) (\<lambda>endpoint.
     seq (modify (\<lambda>s. s\<lparr>options := (options s)\<lparr>metadata := m_emplace ''COLINK'' [] (metadata (options s))\<rparr>\<rparr>)) (
     bind (gets options) (\<lambda>opts.
     let colink_ip = (case m_find (metadata opts) ''COLINK'' of Some ip \<Rightarrow> ip | None \<Rightarrow> []);
         endpoint_ip = (case str_find endpoint '':'' 0 of Some colon_pos \<Rightarrow> substr endpoint 0 colon_pos | None \<Rightarrow> endpoint);
         link_type = (if colink_ip \<noteq> [] \<and> endpoint_ip = colink_ip then ''colink'' else ''other'')
     in
     bind (gets clients) (\<lambda>cs.
     if cs \<noteq> []
     then
       let (login_user_id, login_user_name) =
             (case List.find (\<lambda>(_, c). login c) cs of
                Some (_, c) \<Rightarrow> (user_id c, user_name c)
              | None \<Rightarrow> ([], []))
       in send_json h (login_json login_user_id login_user_name opts link_type) True
     else send_json h (login_json [] [] opts link_type) True)))))"

section \<open>Login\<close>

definition kicked_json :: "string \<Rightarrow> string \<Rightarrow> json" where
  "kicked_json uid uname = jobject
     [(''op'', JStr ''kicked''),
      (''message'', JStr ''The client was forcibly disconnected by the server.''),
      (''userId'', JStr uid), (''username'', JStr uname)]"

definition server_info_json :: "'e server_scheme \<Rightarrow> json" where
  "server_info_json s =
     (let opts = options s in jobject
     [(''op'', JStr ''serverInfo''), (''name'', JStr (srv_name s)),
      (''capabilities'', JArr (map JStr (capabilities opts))),
      (''supportedEncodings'', JArr (map JStr (supported_encodings opts))),
      (''metadata'', jobject (map (\<lambda>(k, v). (k, JStr v)) (metadata opts))),
      (''sessionId'', JStr (session_id opts))])"

definition handle_login :: "json \<Rightarrow> hdl \<Rightarrow> ('e server_scheme, unit) cpp" where
  "handle_login payload h =
     bind (lift (at_get get_string payload ''username'')) (\<lambda>uname.
     bind (lift (at_get get_string payload ''userId'')) (\<lambda>uid.
     bind (gets (remote_endpoint_string h)) (\<lambda>endpoint.
     bind (gets clients) (\<lambda>cs.
     seq (for_each (m_keys cs) (\<lambda>k.
            bind (get_con_from_hdl k) (\<lambda>con.
            seq (discard (con_send k con (TextFrame (kicked_json uid uname)) True)) (
            update_client k (\<lambda>c. c\<lparr>login := False\<rparr>))))) (
     seq (modify (\<lambda>s. s\<lparr>clients := m_emplace h (ClientInfo endpoint uname uid h) (clients s)\<rparr>)) (
     bind (get_con_from_hdl h) (\<lambda>con.
     bind (gets server_info_json) (\<lambda>info.
     seq (discard (con_send h con (TextFrame info) True)) (
     bind (gets channels) (\<lambda>chs.
     seq (send_json h (jobject [(''op'', JStr ''advertise''),
            (''channels'', JArr (map (\<lambda>(_, c). channel_to_json c) chs))]) True) (
     bind (gets services) (\<lambda>svs.
     send_json h (jobject [(''op'', JStr ''advertiseServices''),
       (''services'', JArr (map (\<lambda>(i, sv). service_to_json (Service sv i)) svs))]) True))))))))))))"

section \<open>Subscriptions\<close>

text \<open>\<open>_clients.at(hdl)\<close>.\<close>

definition clients_at :: "hdl \<Rightarrow> ('e server_scheme, client_info) cpp" where
  "clients_at h =
     bind (gets clients) (\<lambda>cs.
     case m_find cs h of Some c \<Rightarrow> ret c | None \<Rightarrow> throw (StdException ''map::at''))"

definition find_subscription_by_sub_id ::
    "(uint32_t \<times> uint32_t) list \<Rightarrow> uint32_t \<Rightarrow> (uint32_t \<times> uint32_t) option" where
  "find_subscription_by_sub_id subs sub_id = List.find (\<lambda>mo. snd mo = sub_id) subs"

definition handle_subscribe :: "('e server_scheme) handlers \<Rightarrow> json \<Rightarrow> hdl \<Rightarrow> ('e server_scheme, unit) cpp" where
  "handle_subscribe H payload h =
     bind (clients_at h) (\<lambda>client.
     let client_subscriptions_by_channel = subscriptions_by_channel client in
     bind (lift (j_at payload ''subscriptions'')) (\<lambda>subs.
     for_each (j_items subs) (\<lambda>sub.
       bind (lift (at_get get_u32 sub ''id'')) (\<lambda>sub_id.
       bind (lift (at_get get_u32 sub ''channelId'')) (\<lambda>channel_id.
       if find_subscription_by_sub_id client_subscriptions_by_channel sub_id \<noteq> None
       then send_status_and_log_msg h Error (''Client subscription id '' @ to_string_u32 sub_id @
              '' was already used; ignoring subscription'')
       else
         bind (gets channels) (\<lambda>chs.
         if \<not> m_contains chs channel_id
         then send_status_and_log_msg h Warning (''Channel '' @ to_string_u32 channel_id @
                '' is not available; ignoring subscription'')
         else
           seq (call (subscribe_handler H) (\<lambda>f. f channel_id h)) (
           bind (clients_at h) (\<lambda>_.
           update_client h (\<lambda>c. c\<lparr>subscriptions_by_channel :=
             m_emplace channel_id sub_id (subscriptions_by_channel c)\<rparr>))))))))) "

definition handle_unsubscribe :: "('e server_scheme) handlers \<Rightarrow> json \<Rightarrow> hdl \<Rightarrow> ('e server_scheme, unit) cpp" where
  "handle_unsubscribe H payload h =
     bind (clients_at h) (\<lambda>client.
     let client_subscriptions_by_channel = subscriptions_by_channel client in
     bind (lift (j_at payload ''subscriptionIds'')) (\<lambda>ids.
     for_each (j_items ids) (\<lambda>sub_id_json.
       bind (lift (get_u32 sub_id_json)) (\<lambda>sub_id.
       case find_subscription_by_sub_id client_subscriptions_by_channel sub_id of
         None \<Rightarrow> send_status_and_log_msg h Warning (''Client subscription id '' @ to_string_u32 sub_id @
                   '' did not exist; ignoring unsubscription'')
       | Some (chan_id, _) \<Rightarrow>
           seq (call (unsubscribe_handler H) (\<lambda>f. f chan_id h)) (
           bind (clients_at h) (\<lambda>_.
           update_client h (\<lambda>c. c\<lparr>subscriptions_by_channel :=
             m_erase chan_id (subscriptions_by_channel c)\<rparr>)))))))"

section \<open>Client publications\<close>

text \<open>The publications of a client; the entry of the handle exists wherever this is used.\<close>

definition publications :: "hdl \<Rightarrow> 'e server_scheme \<Rightarrow> (uint32_t \<times> client_advertisement) list" where
  "publications h s = (case m_find (client_channels s) h of Some m \<Rightarrow> m | None \<Rightarrow> [])"

definition update_publications ::
    "hdl \<Rightarrow> ((uint32_t \<times> client_advertisement) list \<Rightarrow> (uint32_t \<times> client_advertisement) list) \<Rightarrow>
     ('e server_scheme, unit) cpp" where
  "update_publications h f =
     modify (\<lambda>s. s\<lparr>client_channels := m_assign h (f (publications h s)) (client_channels s)\<rparr>)"

definition advertise_channel ::
    "('e server_scheme) handlers \<Rightarrow> hdl \<Rightarrow> bool \<Rightarrow> json \<Rightarrow> ('e server_scheme, unit) cpp" where
  "advertise_channel H h is_first_publication chan =
     bind (lift (at_get get_u32 chan ''id'')) (\<lambda>i.
     bind (gets (publications h)) (\<lambda>client_publications.
     if \<not> is_first_publication \<and> m_contains client_publications i
     then send_status_and_log_msg h Error (''Channel '' @ to_string_u32 i @ '' was already advertised'')
     else
       bind (lift (at_get get_string chan ''topic'')) (\<lambda>t.
       bind (gets options) (\<lambda>opts.
       if \<not> is_whitelisted t (client_topic_whitelist_patterns opts)
       then send_status_and_log_msg h Error (''Can'' @ [CHR 0x27] @ ''t advertise channel '' @ to_string_u32 i @
              '', topic '' @ [CHR 0x27] @ t @ [CHR 0x27] @ '' not whitelisted'')
       else
         bind (lift (at_get get_string chan ''encoding'')) (\<lambda>e.
         bind (lift (at_get get_string chan ''schemaName'')) (\<lambda>n.
         let adv = \<lparr>channel_id = i, adv_topic = t, adv_encoding = e, adv_schema_name = n, adv_schema = []\<rparr> in
         seq (call (client_advertise_handler H) (\<lambda>f. f adv h)) (
         bind (clients_at h) (\<lambda>_.
         seq (update_client h (\<lambda>c. c\<lparr>advertised_channels := s_insert i (advertised_channels c)\<rparr>)) (
         update_publications h (m_emplace i adv))))))))))"

definition handle_advertise :: "('e server_scheme) handlers \<Rightarrow> json \<Rightarrow> hdl \<Rightarrow> ('e server_scheme, unit) cpp" where
  "handle_advertise H payload h =
     bind (gets (\<lambda>s. \<not> m_contains (client_channels s) h)) (\<lambda>is_first_publication.
     seq (modify (\<lambda>s. s\<lparr>client_channels := m_emplace h [] (client_channels s)\<rparr>)) (
     bind (lift (j_at payload ''channels'')) (\<lambda>chans.
     for_each (j_items chans) (advertise_channel H h is_first_publication))))"

definition handle_unadvertise :: "('e server_scheme) handlers \<Rightarrow> json \<Rightarrow> hdl \<Rightarrow> ('e server_scheme, unit) cpp" where
  "handle_unadvertise H payload h =
     bind (gets client_channels) (\<lambda>cc.
     if \<not> m_contains cc h
     then send_status_and_log_msg h Error ''Client has no advertised channels''
     else
       bind (lift (j_at payload ''channelIds'')) (\<lambda>ids.
       for_each (j_items ids) (\<lambda>chan_id_json.
         bind (lift (get_u32 chan_id_json)) (\<lambda>i.
         bind (gets (publications h)) (\<lambda>client_publications.
         if \<not> m_contains client_publications i then ret ()
         else
           seq (call (client_unadvertise_handler H) (\<lambda>f. f i h)) (
           bind (clients_at h) (\<lambda>_.
           seq (update_publications h (m_erase i)) (
           update_client h (\<lambda>c. c\<lparr>advertised_channels := s_erase i (advertised_channels c)\<rparr>)))))))))"

section \<open>Parameters\<close>

text \<open>The optional \<open>id\<close> of a request.\<close>

definition get_request_id :: "json \<Rightarrow> string option outcome" where
  "get_request_id payload =
     (case j_find payload ''id'' of
        None \<Rightarrow> Ok None
      | Some _ \<Rightarrow> obind (index_string payload ''id'') (\<lambda>i. Ok (Some i)))"

definition handle_get_parameters :: "('e server_scheme) handlers \<Rightarrow> json \<Rightarrow> hdl \<Rightarrow> ('e server_scheme, unit) cpp" where
  "handle_get_parameters H payload h =
     bind (lift (at_get (get_array get_string) payload ''parameterNames'')) (\<lambda>param_names.
     bind (lift (get_request_id payload)) (\<lambda>rid.
     call (parameter_request_handler H) (\<lambda>f. f param_names rid h)))"

definition handle_set_parameters :: "('e server_scheme) handlers \<Rightarrow> json \<Rightarrow> hdl \<Rightarrow> ('e server_scheme, unit) cpp" where
  "handle_set_parameters H payload h =
     bind (lift (at_get (get_array parameter_from_json) payload ''parameters'')) (\<lambda>parameters.
     bind (lift (get_request_id payload)) (\<lambda>rid.
     call (parameter_change_handler H) (\<lambda>f. f parameters rid h)))"

definition is_parameter_subscribed :: "string \<Rightarrow> 'e server_scheme \<Rightarrow> bool" where
  "is_parameter_subscribed name s = (\<exists>(h, names) \<in> set (client_param_subscriptions s). name \<in> set names)"

text \<open>\<open>_client_param_subscriptions[hdl]\<close>, an empty set where there is no entry.\<close>

definition param_names_of :: "hdl \<Rightarrow> 'e server_scheme \<Rightarrow> string list" where
  "param_names_of h s = (case m_find (client_param_subscriptions s) h of Some ns \<Rightarrow> ns | None \<Rightarrow> [])"

definition unsubscribe_params_without_subscriptions ::
    "('e server_scheme) handlers \<Rightarrow> hdl \<Rightarrow> string list \<Rightarrow> ('e server_scheme, unit) cpp" where
  "unsubscribe_params_without_subscriptions H h param_names =
     bind (gets (\<lambda>s. filter (\<lambda>n. \<not> is_parameter_subscribed n s) param_names)) (\<lambda>params_to_unsubscribe.
     case parameter_subscription_handler H of
       None \<Rightarrow> ret ()
     | Some f \<Rightarrow>
         if params_to_unsubscribe = [] then ret ()
         else
           catch_all (f params_to_unsubscribe UNSUBSCRIBE h)
             (\<lambda>what. send_status_and_log_msg h Error what)
             (send_status_and_log_msg h Error ''Failed to unsubscribe from one more more parameters''))"

definition handle_subscribe_parameter_updates ::
    "('e server_scheme) handlers \<Rightarrow> json \<Rightarrow> hdl \<Rightarrow> ('e server_scheme, unit) cpp" where
  "handle_subscribe_parameter_updates H payload h =
     bind (lift (at_get (get_array get_string) payload ''parameterNames'')) (\<lambda>names.
     let param_names = s_of names in
     bind (gets (\<lambda>s. filter (\<lambda>n. \<not> is_parameter_subscribed n s) param_names)) (\<lambda>params_to_subscribe.
     seq (modify (\<lambda>s. s\<lparr>client_param_subscriptions :=
            m_assign h (fold s_insert param_names (param_names_of h s)) (client_param_subscriptions s)\<rparr>)) (
     if params_to_subscribe = [] then ret ()
     else call (parameter_subscription_handler H) (\<lambda>f. f params_to_subscribe SUBSCRIBE h))))"

definition handle_unsubscribe_parameter_updates ::
    "('e server_scheme) handlers \<Rightarrow> json \<Rightarrow> hdl \<Rightarrow> ('e server_scheme, unit) cpp" where
  "handle_unsubscribe_parameter_updates H payload h =
     bind (lift (at_get (get_array get_string) payload ''parameterNames'')) (\<lambda>names.
     let param_names = s_of names in
     seq (modify (\<lambda>s. s\<lparr>client_param_subscriptions :=
            m_assign h (fold s_erase param_names (param_names_of h s)) (client_param_subscriptions s)\<rparr>)) (
     unsubscribe_params_without_subscriptions H h param_names))"

section \<open>Connection graph and assets\<close>

definition add_graph_count :: "int \<Rightarrow> ('e server_scheme, unit) cpp" where
  "add_graph_count d =
     modify (\<lambda>s. s\<lparr>conn_graph := (conn_graph s)\<lparr>subscription_count := subscription_count (conn_graph s) + d\<rparr>\<rparr>)"

definition handle_subscribe_connection_graph :: "('e server_scheme) handlers \<Rightarrow> hdl \<Rightarrow> ('e server_scheme, unit) cpp" where
  "handle_subscribe_connection_graph H h =
     seq (add_graph_count 1) (
     bind (gets (\<lambda>s. subscription_count (conn_graph s) = 1)) (\<lambda>subscribe_to_connection_graph.
     seq (whenever subscribe_to_connection_graph (
            seq (call (subscribe_connection_graph_handler H) (\<lambda>f. f True)) (
            bind (clients_at h) (\<lambda>_.
            update_client h (\<lambda>c. c\<lparr>subscribed_to_connection_graph := True\<rparr>))))) (
     bind (gets conn_graph) (\<lambda>g.
     send_raw_json h (graph_update_json (published_topics g) (subscribed_topics g) (advertised_services g) [] []) True))))"

definition handle_unsubscribe_connection_graph :: "('e server_scheme) handlers \<Rightarrow> hdl \<Rightarrow> ('e server_scheme, unit) cpp" where
  "handle_unsubscribe_connection_graph H h =
     bind (clients_at h) (\<lambda>client_info.
     if subscribed_to_connection_graph client_info
     then
       seq (update_client h (\<lambda>c. c\<lparr>subscribed_to_connection_graph := False\<rparr>)) (
       seq (add_graph_count (- 1)) (
       bind (gets (\<lambda>s. subscription_count (conn_graph s) = 0)) (\<lambda>unsubscribe_from_connection_graph.
       whenever unsubscribe_from_connection_graph (
         call (subscribe_connection_graph_handler H) (\<lambda>f. f False)))))
     else send_status_and_log_msg h Error ''Client was not subscribed to connection graph updates'')"

definition handle_fetch_asset :: "('e server_scheme) handlers \<Rightarrow> json \<Rightarrow> hdl \<Rightarrow> ('e server_scheme, unit) cpp" where
  "handle_fetch_asset H payload h =
     bind (lift (at_get get_string payload ''uri'')) (\<lambda>uri.
     bind (lift (at_get get_u32 payload ''requestId'')) (\<lambda>rid.
     call (fetch_asset_handler H) (\<lambda>f. f uri rid h)))"

section \<open>A connection closed\<close>

text \<open>A handler whose exceptions are logged and otherwise ignored.\<close>

definition ignoring :: "('s, unit) cpp \<Rightarrow> ('s, unit) cpp" where
  "ignoring m = catch_all m (\<lambda>_. ret ()) (ret ())"

definition handle_connection_closed :: "('e server_scheme) handlers \<Rightarrow> hdl \<Rightarrow> ('e server_scheme, unit) cpp" where
  "handle_connection_closed H h =
     bind (gets clients) (\<lambda>cs.
     case m_find cs h of
       None \<Rightarrow> ret ()
     | Some client \<Rightarrow>
         seq (modify (\<lambda>s. s\<lparr>clients := m_erase h (clients s)\<rparr>)) (
         seq (for_each (advertised_channels client) (\<lambda>i.
                case client_unadvertise_handler H of
                  None \<Rightarrow> ret ()
                | Some f \<Rightarrow> ignoring (f i h))) (
         seq (modify (\<lambda>s. s\<lparr>client_channels := m_erase h (client_channels s)\<rparr>)) (
         seq (case unsubscribe_handler H of
                None \<Rightarrow> ret ()
              | Some f \<Rightarrow> for_each (subscriptions_by_channel client) (\<lambda>(i, _). ignoring (f i h))) (
         bind (gets (param_names_of h)) (\<lambda>client_subscribed_parameters.
         seq (modify (\<lambda>s. s\<lparr>client_param_subscriptions := m_erase h (client_param_subscriptions s)\<rparr>)) (
         seq (unsubscribe_params_without_subscriptions H h client_subscribed_parameters) (
         whenever (subscribed_to_connection_graph client) (
           seq (add_graph_count (- 1)) (
           bind (gets (\<lambda>s. subscription_count (conn_graph s) = 0)) (\<lambda>last.
           case subscribe_connection_graph_handler H of
             None \<Rightarrow> ret ()
           | Some f \<Rightarrow> whenever last (ignoring (f False)))))))))))))"

end
