(* ===== verification/Server_Dispatch.thy ===== *)
theory Server_Dispatch
  imports Server_Requests
begin

text \<open>
  The messages of a client: the hash of the operation name, the capabilities an operation
  requires, and \<open>handle_text_message\<close>, \<open>handle_binary_message\<close> and \<open>handle_message\<close>.  The JSON
  parser and the clock are arguments: \<open>parse\<close> gives the value of a text or the exception
  \<open>Json::parse\<close> throws, \<open>now\<close> is the time in nanoseconds.
\<close>

section \<open>Operation names\<close>

text \<open>
  FNV-1a over the characters.  A character is converted from \<open>char\<close>, which is signed on the
  platforms the bridge is built for, so that a byte above 127 is sign-extended.
\<close>

definition char_to_u32 :: "char \<Rightarrow> uint32_t" where
  "char_to_u32 c = scast (byte_of_char c)"

fun string_hash_impl :: "string \<Rightarrow> uint32_t \<Rightarrow> uint32_t" where
  "string_hash_impl [] result = result"
| "string_hash_impl (c # cs) result = string_hash_impl cs ((char_to_u32 c XOR result) * 0x01000193)"

definition string_hash :: "string \<Rightarrow> uint32_t" where
  "string_hash s = string_hash_impl s 0x811C9DC5"

definition LOGIN_op :: uint32_t where
  "LOGIN_op = string_hash ''login''"

definition SUBSCRIBE_op :: uint32_t where
  "SUBSCRIBE_op = string_hash ''subscribe''"

definition UNSUBSCRIBE_op :: uint32_t where
  "UNSUBSCRIBE_op = string_hash ''unsubscribe''"

definition ADVERTISE_op :: uint32_t where
  "ADVERTISE_op = string_hash ''advertise''"

definition UNADVERTISE_op :: uint32_t where
  "UNADVERTISE_op = string_hash ''unadvertise''"

definition GET_PARAMETERS_op :: uint32_t where
  "GET_PARAMETERS_op = string_hash ''getParameters''"

definition SET_PARAMETERS_op :: uint32_t where
  "SET_PARAMETERS_op = string_hash ''setParameters''"

definition SUBSCRIBE_PARAMETER_UPDATES_op :: uint32_t where
  "SUBSCRIBE_PARAMETER_UPDATES_op = string_hash ''subscribeParameterUpdates''"

definition UNSUBSCRIBE_PARAMETER_UPDATES_op :: uint32_t where
  "UNSUBSCRIBE_PARAMETER_UPDATES_op = string_hash ''unsubscribeParameterUpdates''"

definition SUBSCRIBE_CONNECTION_GRAPH_op :: uint32_t where
  "SUBSCRIBE_CONNECTION_GRAPH_op = string_hash ''subscribeConnectionGraph''"

definition UNSUBSCRIBE_CONNECTION_GRAPH_op :: uint32_t where
  "UNSUBSCRIBE_CONNECTION_GRAPH_op = string_hash ''unsubscribeConnectionGraph''"

definition FETCH_ASSET_op :: uint32_t where
  "FETCH_ASSET_op = string_hash ''fetchAsset''"

lemmas op_defs = LOGIN_op_def SUBSCRIBE_op_def UNSUBSCRIBE_op_def ADVERTISE_op_def
  UNADVERTISE_op_def GET_PARAMETERS_op_def SET_PARAMETERS_op_def
  SUBSCRIBE_PARAMETER_UPDATES_op_def UNSUBSCRIBE_PARAMETER_UPDATES_op_def
  SUBSCRIBE_CONNECTION_GRAPH_op_def UNSUBSCRIBE_CONNECTION_GRAPH_op_def FETCH_ASSET_op_def

section \<open>Capabilities and handlers\<close>

definition CAPABILITY_BY_CLIENT_OPERATION :: "(string \<times> string) list" where
  "CAPABILITY_BY_CLIENT_OPERATION =
     [(''advertise'', ''clientPublish''), (''unadvertise'', ''clientPublish''),
      (''getParameters'', ''parameters''), (''setParameters'', ''parameters''),
      (''subscribeParameterUpdates'', ''parametersSubscribe''),
      (''unsubscribeParameterUpdates'', ''parametersSubscribe''),
      (''subscribeConnectionGraph'', ''connectionGraph''),
      (''unsubscribeConnectionGraph'', ''connectionGraph''),
      (''fetchAsset'', ''assets'')]"

definition MESSAGE_DATA_op :: uint8_t where
  "MESSAGE_DATA_op = 1"

definition SERVICE_CALL_REQUEST_op :: uint8_t where
  "SERVICE_CALL_REQUEST_op = 2"

definition CAPABILITY_BY_CLIENT_BINARY_OPERATION :: "(uint8_t \<times> string) list" where
  "CAPABILITY_BY_CLIENT_BINARY_OPERATION =
     [(MESSAGE_DATA_op, ''clientPublish''), (SERVICE_CALL_REQUEST_op, ''services'')]"

definition has_capability :: "string \<Rightarrow> 'e server_scheme \<Rightarrow> bool" where
  "has_capability capability s = (capability \<in> set (capabilities (options s)))"

definition has_handler :: "('e server_scheme) handlers \<Rightarrow> uint32_t \<Rightarrow> bool outcome" where
  "has_handler H op =
     (if op = LOGIN_op then Ok True
      else if op = SUBSCRIBE_op then Ok (subscribe_handler H \<noteq> None)
      else if op = UNSUBSCRIBE_op then Ok (unsubscribe_handler H \<noteq> None)
      else if op = ADVERTISE_op then Ok (client_advertise_handler H \<noteq> None)
      else if op = UNADVERTISE_op then Ok (client_unadvertise_handler H \<noteq> None)
      else if op = GET_PARAMETERS_op then Ok (parameter_request_handler H \<noteq> None)
      else if op = SET_PARAMETERS_op then Ok (parameter_change_handler H \<noteq> None)
      else if op = SUBSCRIBE_PARAMETER_UPDATES_op \<or> op = UNSUBSCRIBE_PARAMETER_UPDATES_op
      then Ok (parameter_subscription_handler H \<noteq> None)
      else if op = SUBSCRIBE_CONNECTION_GRAPH_op \<or> op = UNSUBSCRIBE_CONNECTION_GRAPH_op
      then Ok (subscribe_connection_graph_handler H \<noteq> None)
      else if op = FETCH_ASSET_op then Ok (fetch_asset_handler H \<noteq> None)
      else Throw (StdException (''Unknown operation: '' @ to_string_u32 op)))"

section \<open>Text messages\<close>

text \<open>The \<open>switch\<close> over the hash of the operation.\<close>

definition dispatch_op ::
    "('e server_scheme) handlers \<Rightarrow> string \<Rightarrow> json \<Rightarrow> hdl \<Rightarrow> ('e server_scheme, unit) cpp" where
  "dispatch_op H op payload h =
     (let k = string_hash op in
      if k = LOGIN_op then handle_login payload h
      else if k = SUBSCRIBE_op then handle_subscribe H payload h
      else if k = UNSUBSCRIBE_op then handle_unsubscribe H payload h
      else if k = ADVERTISE_op then handle_advertise H payload h
      else if k = UNADVERTISE_op then handle_unadvertise H payload h
      else if k = GET_PARAMETERS_op then handle_get_parameters H payload h
      else if k = SET_PARAMETERS_op then handle_set_parameters H payload h
      else if k = SUBSCRIBE_PARAMETER_UPDATES_op then handle_subscribe_parameter_updates H payload h
      else if k = UNSUBSCRIBE_PARAMETER_UPDATES_op then handle_unsubscribe_parameter_updates H payload h
      else if k = SUBSCRIBE_CONNECTION_GRAPH_op then handle_subscribe_connection_graph H h
      else if k = UNSUBSCRIBE_CONNECTION_GRAPH_op then handle_unsubscribe_connection_graph H h
      else if k = FETCH_ASSET_op then handle_fetch_asset H payload h
      else send_status_and_log_msg h Error
             (''Unrecognized client opcode '' @ [CHR 0x22] @ op @ [CHR 0x22]))"

definition report_exception :: "hdl \<Rightarrow> string \<Rightarrow> exn \<Rightarrow> ('e server_scheme, unit) cpp" where
  "report_exception h op e =
     (case (exn_id e, exn_what e) of
        (Some i, Some what) \<Rightarrow>
          send_status_and_log_msg h Error (what @ '' (op: '' @ op @ '', id: '' @ to_string_u32 i @ '')'')
      | (None, Some what) \<Rightarrow> send_status_and_log_msg h Error (what @ '' (op: '' @ op @ '')'')
      | (_, None) \<Rightarrow> send_status_and_log_msg h Error (''Failed to execute handler (op: '' @ op @ '')''))"

definition handle_text_message ::
    "(string \<Rightarrow> json outcome) \<Rightarrow> ('e server_scheme) handlers \<Rightarrow> hdl \<Rightarrow> string \<Rightarrow> ('e server_scheme, unit) cpp" where
  "handle_text_message parse H h text =
     bind (lift (parse text)) (\<lambda>payload.
     bind (lift (at_get get_string payload ''op'')) (\<lambda>op.
     bind (gets (\<lambda>s. case m_find CAPABILITY_BY_CLIENT_OPERATION op of
                       Some required \<Rightarrow> if has_capability required s then None else Some required
                     | None \<Rightarrow> None)) (\<lambda>missing.
     case missing of
       Some required \<Rightarrow>
         send_status_and_log_msg h Error (''Operation '' @ [CHR 0x27] @ op @ [CHR 0x27] @
           '' not supported as server capability '' @ [CHR 0x27] @ required @ [CHR 0x27] @ '' is missing'')
     | None \<Rightarrow>
         bind (lift (has_handler H (string_hash op))) (\<lambda>present.
         if \<not> present
         then send_status_and_log_msg h Error (''Operation '' @ [CHR 0x27] @ op @ [CHR 0x27] @
                '' not supported as server handler function is missing'')
         else try_catch (dispatch_op H op payload h) (report_exception h op)))))"

section \<open>Binary messages\<close>

definition handle_client_message_data ::
    "('e server_scheme) handlers \<Rightarrow> uint64_t \<Rightarrow> hdl \<Rightarrow> bytes \<Rightarrow> ('e server_scheme, unit) cpp" where
  "handle_client_message_data H now h data =
     (case client_message_handler H of
        None \<Rightarrow> ret ()
      | Some f \<Rightarrow>
          if length data < 5
          then send_status_and_log_msg h Error (''Invalid message length '' @ to_string (length data))
          else
            bind (lift (read_uint32_LE 1 data)) (\<lambda>i.
            bind (gets client_channels) (\<lambda>cc.
            case m_find cc h of
              None \<Rightarrow> send_status_and_log_msg h Error ''Client has no advertised channels''
            | Some client_publications \<Rightarrow>
                (case m_find client_publications i of
                   None \<Rightarrow> send_status_and_log_msg h Error (''Channel '' @ to_string_u32 i @ '' is not advertised'')
                 | Some adv \<Rightarrow>
                     try_catch
                       (f \<lparr>log_time = now, publish_time = now, sequence = 0, advertisement = adv,
                           data_length = length data, cm_data = data\<rparr> h)
                       (\<lambda>e. case e of
                              ServiceError _ what \<Rightarrow> send_status_and_log_msg h Error what
                            | _ \<Rightarrow> send_status_and_log_msg h Error ''callService: Failed to execute handler'')))))"

text \<open>\<open>ServiceRequest request\<close>: the strings are empty; the numbers are overwritten before use.\<close>

definition empty_request :: service_request where
  "empty_request = \<lparr>service_id = 0, call_id = 0, encoding = [], serv_data = []\<rparr>"

definition read_request :: "bytes \<Rightarrow> service_request outcome" where
  "read_request data =
     (case ServiceResponse_read data empty_request of
        (Ok _, r) \<Rightarrow> Ok r
      | (Throw e, _) \<Rightarrow> Throw e
      | (UB u, _) \<Rightarrow> UB u)"

definition handle_service_call_request ::
    "('e server_scheme) handlers \<Rightarrow> hdl \<Rightarrow> bytes \<Rightarrow> ('e server_scheme, unit) cpp" where
  "handle_service_call_request H h data =
     (if length data < ServiceResponse_size empty_request
      then send_status_and_log_msg h Error (''Invalid service call request length '' @ to_string (length data))
      else
        bind (lift (read_request (drop 1 data))) (\<lambda>request.
        bind (gets services) (\<lambda>svs.
        if \<not> m_contains svs (service_id request)
        then send_status_and_log_msg h Error (''Service '' @ to_string_u32 (service_id request) @
               '' is not advertised'')
        else
          (case service_request_handler H of
             None \<Rightarrow> ret ()
           | Some f \<Rightarrow> f request h))))"

definition handle_binary_message ::
    "('e server_scheme) handlers \<Rightarrow> uint64_t \<Rightarrow> hdl \<Rightarrow> bytes \<Rightarrow> ('e server_scheme, unit) cpp" where
  "handle_binary_message H now h data =
     (case data of
        [] \<Rightarrow> send_status_and_log_msg h Error ''Received an empty binary message''
      | op # _ \<Rightarrow>
          bind (gets (\<lambda>s. case m_find CAPABILITY_BY_CLIENT_BINARY_OPERATION op of
                            Some required \<Rightarrow> if has_capability required s then None else Some required
                          | None \<Rightarrow> None)) (\<lambda>missing.
          case missing of
            Some required \<Rightarrow>
              send_status_and_log_msg h Error (''Binary operation '' @ [CHR 0x27] @ to_string (unat op) @ [CHR 0x27] @
                '' not supported as server capability '' @ [CHR 0x27] @ required @ [CHR 0x27] @ '' is missing'')
          | None \<Rightarrow>
              if op = MESSAGE_DATA_op then handle_client_message_data H now h data
              else if op = SERVICE_CALL_REQUEST_op then handle_service_call_request H h data
              else send_status_and_log_msg h Error (''Unrecognized client opcode '' @ to_string (unat op))))"

section \<open>Messages\<close>

datatype ws_message = TextMessage string | BinaryMessage bytes | ControlMessage

definition handle_message ::
    "(string \<Rightarrow> json outcome) \<Rightarrow> uint64_t \<Rightarrow> ('e server_scheme) handlers \<Rightarrow> hdl \<Rightarrow> ws_message \<Rightarrow>
     ('e server_scheme, unit) cpp" where
  "handle_message parse now H h msg =
     catch_all
       (case msg of
          TextMessage text \<Rightarrow> handle_text_message parse H h text
        | BinaryMessage data \<Rightarrow> handle_binary_message H now h data
        | ControlMessage \<Rightarrow> ret ())
       (\<lambda>what. send_status_and_log_msg h Error what)
       (send_status_and_log_msg h Error ''Exception occurred when executing message handler'')"

section \<open>The hash of an operation name\<close>

definition client_ops :: "string list" where
  "client_ops =
     [''login'', ''subscribe'', ''unsubscribe'', ''advertise'', ''unadvertise'', ''getParameters'',
      ''setParameters'', ''subscribeParameterUpdates'', ''unsubscribeParameterUpdates'',
      ''subscribeConnectionGraph'', ''unsubscribeConnectionGraph'', ''fetchAsset'']"

lemma char_to_u32_ascii: "of_char c < (128 :: nat) \<Longrightarrow> char_to_u32 c = word_of_nat (of_char c)"
proof -
  assume lt: "of_char c < (128 :: nat)"
  then have "unat (byte_of_char c) = of_char c"
    by (simp add: byte_of_char_def unat_of_nat)
  then have "uint (byte_of_char c) = int (of_char c)"
    by (simp add: uint_nat)
  moreover from this lt have "sint (byte_of_char c) = int (of_char c)"
    by (simp add: sint_uint signed_take_bit_int_eq_self_iff)
  ultimately show ?thesis
    by (simp add: char_to_u32_def scast_eq)
qed

lemma op_values:
  "LOGIN_op = 0xc97f2f32" "SUBSCRIBE_op = 0xaf9e4a03" "UNSUBSCRIBE_op = 0xf9befe96"
  "ADVERTISE_op = 0xd9174a1e" "UNADVERTISE_op = 0x1993825b" "GET_PARAMETERS_op = 0x69aa8d7f"
  "SET_PARAMETERS_op = 0x51835f5b" "SUBSCRIBE_PARAMETER_UPDATES_op = 0x5bed3dd0"
  "UNSUBSCRIBE_PARAMETER_UPDATES_op = 0xdc2fa979" "SUBSCRIBE_CONNECTION_GRAPH_op = 0xe0671801"
  "UNSUBSCRIBE_CONNECTION_GRAPH_op = 0x41a0f64a" "FETCH_ASSET_op = 0x70c65875"
  by (simp_all add: op_defs string_hash_def char_to_u32_ascii)

text \<open>Dispatch by the name itself.\<close>

definition dispatch_name ::
    "('e server_scheme) handlers \<Rightarrow> string \<Rightarrow> json \<Rightarrow> hdl \<Rightarrow> ('e server_scheme, unit) cpp" where
  "dispatch_name H op payload h =
     (if op = ''login'' then handle_login payload h
      else if op = ''subscribe'' then handle_subscribe H payload h
      else if op = ''unsubscribe'' then handle_unsubscribe H payload h
      else if op = ''advertise'' then handle_advertise H payload h
      else if op = ''unadvertise'' then handle_unadvertise H payload h
      else if op = ''getParameters'' then handle_get_parameters H payload h
      else if op = ''setParameters'' then handle_set_parameters H payload h
      else if op = ''subscribeParameterUpdates'' then handle_subscribe_parameter_updates H payload h
      else if op = ''unsubscribeParameterUpdates'' then handle_unsubscribe_parameter_updates H payload h
      else if op = ''subscribeConnectionGraph'' then handle_subscribe_connection_graph H h
      else if op = ''unsubscribeConnectionGraph'' then handle_unsubscribe_connection_graph H h
      else handle_fetch_asset H payload h)"

lemmas hash_values = op_values [unfolded op_defs]

lemma string_hash_ops:
  "map string_hash client_ops =
     [LOGIN_op, SUBSCRIBE_op, UNSUBSCRIBE_op, ADVERTISE_op, UNADVERTISE_op, GET_PARAMETERS_op,
      SET_PARAMETERS_op, SUBSCRIBE_PARAMETER_UPDATES_op, UNSUBSCRIBE_PARAMETER_UPDATES_op,
      SUBSCRIBE_CONNECTION_GRAPH_op, UNSUBSCRIBE_CONNECTION_GRAPH_op, FETCH_ASSET_op]"
  by (simp add: client_ops_def op_defs)

lemma handle_text_message_missing:
  assumes "parse text = Ok payload" "at_get get_string payload ''op'' = Ok op"
    and "m_find CAPABILITY_BY_CLIENT_OPERATION op = Some required" "\<not> has_capability required s"
  shows "handle_text_message parse H h text s =
    send_status_and_log_msg h Error (''Operation '' @ [CHR 0x27] @ op @ [CHR 0x27] @
      '' not supported as server capability '' @ [CHR 0x27] @ required @ [CHR 0x27] @ '' is missing'') s"
  using assms by (simp add: handle_text_message_def bind_def gets_def ret_def)

lemma handle_text_message_run:
  assumes "parse text = Ok payload" "at_get get_string payload ''op'' = Ok op"
    and "\<And>required. m_find CAPABILITY_BY_CLIENT_OPERATION op = Some required \<Longrightarrow> has_capability required s"
    and "has_handler H (string_hash op) = Ok True"
  shows "handle_text_message parse H h text s =
    try_catch (dispatch_op H op payload h) (report_exception h op) s"
  using assms by (auto simp: handle_text_message_def bind_def gets_def ret_def split: option.splits)

section \<open>Properties\<close>

text \<open>C24: The hashes of the twelve operation names differ, and for each of these names the
  \<open>switch\<close> over the hash runs the handler of that name.\<close>

theorem dispatch_by_hash_is_by_name:
  assumes "op \<in> set client_ops"
  shows "distinct (map string_hash client_ops) \<and> dispatch_op H op payload h = dispatch_name H op payload h"
proof
  show "distinct (map string_hash client_ops)"
    by (simp add: string_hash_ops op_values)
  show "dispatch_op H op payload h = dispatch_name H op payload h"
    using assms unfolding client_ops_def list.set insert_iff empty_iff
    by (elim disjE FalseE; simp add: dispatch_op_def dispatch_name_def hash_values op_values)
qed

theorem dispatch_by_hash_is_by_name_witness:
  "\<forall>payload h. distinct (map string_hash client_ops) \<and>
     dispatch_op (no_handlers :: server handlers) ''fetchAsset'' payload h =
     dispatch_name no_handlers ''fetchAsset'' payload h"
  by (intro allI, rule dispatch_by_hash_is_by_name) (simp add: client_ops_def)

text \<open>C30: An operation that requires a capability the server does not have is refused: the client
  gets one status message that names the operation and the capability, and nothing else
  changes.\<close>

theorem missing_capability_refused:
  assumes "parse text = Ok payload" "at_get get_string payload ''op'' = Ok op"
    and "m_find CAPABILITY_BY_CLIENT_OPERATION op = Some required" "\<not> has_capability required s"
  shows "handle_message parse now H h (TextMessage text) s =
    (Ok (), s\<lparr>outbox := outbox s @ accepted s h (TextFrame (status_json Error
      (''Operation '' @ [CHR 0x27] @ op @ [CHR 0x27] @ '' not supported as server capability '' @
       [CHR 0x27] @ required @ [CHR 0x27] @ '' is missing''))) True\<rparr>)"
  by (simp add: handle_message_def catch_all_def try_catch_def
      handle_text_message_missing [of parse, OF assms] send_status_run)

theorem missing_capability_refused_witness:
  "handle_message (\<lambda>_. Ok (JObj [(''op'', JStr ''setParameters'')])) 0 no_handlers 4 (TextMessage ''m'')
     (Server ''srv'' (demo_options\<lparr>capabilities := []\<rparr>)) =
   (Ok (), Server ''srv'' (demo_options\<lparr>capabilities := []\<rparr>))"
  using missing_capability_refused [of "\<lambda>_. Ok (JObj [(''op'', JStr ''setParameters'')])" "''m''"
      "JObj [(''op'', JStr ''setParameters'')]" "''setParameters''" "''parameters''"
      "Server ''srv'' (demo_options\<lparr>capabilities := []\<rparr>)" 0 no_handlers 4]
  by (simp add: at_get_def CAPABILITY_BY_CLIENT_OPERATION_def has_capability_def Server_def accepted_def)

text \<open>C31: The required capability is looked up by the name of the operation but the handler by its
  hash: a message whose operation is the string \<open>yuviqyi\<close> sets parameters, on a server without the
  capability \<open>parameters\<close> too, where \<open>setParameters\<close> is refused.\<close>

theorem hash_collision_bypasses_capability:
  assumes "parse text = Ok payload" "at_get get_string payload ''op'' = Ok ''yuviqyi''"
    and "parameter_change_handler H \<noteq> None"
  shows "handle_text_message parse H h text s =
    try_catch (handle_set_parameters H payload h) (report_exception h ''yuviqyi'') s"
proof -
  have hash: "string_hash ''yuviqyi'' = SET_PARAMETERS_op"
    by (simp add: string_hash_def char_to_u32_ascii op_values)
  have "has_handler H (string_hash ''yuviqyi'') = Ok True"
    using assms(3) by (simp add: hash has_handler_def op_values)
  moreover have "dispatch_op H ''yuviqyi'' payload h = handle_set_parameters H payload h"
    by (simp add: dispatch_op_def hash op_values)
  ultimately show ?thesis
    using handle_text_message_run [of parse, OF assms(1,2), of s H h]
    by (simp add: CAPABILITY_BY_CLIENT_OPERATION_def)
qed

text \<open>C23: No exception leaves the handling of a message: whatever the client sent and whatever the
  handlers throw, \<open>handle_message\<close> returns.\<close>

theorem handle_message_no_exception:
  "fst (handle_message parse now H h msg s) \<noteq> Throw e"
  by (auto simp: handle_message_def catch_all_def try_catch_def send_status_run
      split: prod.splits outcome.splits option.splits)

theorem hash_collision_bypasses_capability_witness:
  "handle_text_message (\<lambda>_. Ok (JObj [(''op'', JStr ''yuviqyi''), (''parameters'', JArr [])]))
     (no_handlers\<lparr>parameter_change_handler := Some (\<lambda>_ _ h. modify (\<lambda>s. s\<lparr>srv_name := ''changed''\<rparr>))\<rparr>) 4 ''m''
     (Server ''srv'' (demo_options\<lparr>capabilities := []\<rparr>)) =
   (Ok (), Server ''changed'' (demo_options\<lparr>capabilities := []\<rparr>))"
  by (subst hash_collision_bypasses_capability
      [where payload = "JObj [(''op'', JStr ''yuviqyi''), (''parameters'', JArr [])]"])
    (simp_all add: at_get_def handle_set_parameters_def get_request_id_def call_def cpp_defs Server_def)

text \<open>The requests that reach the service handler.\<close>

lemma read_request_bytes:
  "length (encoding r) \<le> MAX_ENCODING_LENGTH \<Longrightarrow> read_request (service_response_bytes r) = Ok r"
  by (simp add: read_request_def ServiceResponse_read_accepted frame_of_service_response)

lemma handle_binary_message_service:
  assumes "has_capability ''services'' s"
  shows "handle_binary_message H now h (SERVICE_CALL_REQUEST_op # bs) s =
    handle_service_call_request H h (SERVICE_CALL_REQUEST_op # bs) s"
  using assms
  by (simp add: handle_binary_message_def CAPABILITY_BY_CLIENT_BINARY_OPERATION_def bind_def gets_def
      MESSAGE_DATA_op_def SERVICE_CALL_REQUEST_op_def)

text \<open>C32: A service call request laid out as the protocol says (opcode 2 and the request) reaches
  the handler of the bridge with the request the client wrote, when the server has the capability
  and the service is advertised.\<close>

theorem service_request_delivered:
  assumes "has_capability ''services'' s" "m_contains (services s) (service_id r)"
    and "length (encoding r) \<le> MAX_ENCODING_LENGTH" "service_request_handler H = Some f"
  shows "handle_binary_message H now h (2 # service_response_bytes r) s = f r h s"
proof -
  have "handle_service_call_request H h (2 # service_response_bytes r) s = f r h s"
    using assms(2-4) read_request_bytes [OF assms(3)]
    by (simp add: handle_service_call_request_def empty_request_def ServiceResponse_size_def bind_def
        gets_def ret_def)
  then show ?thesis
    using handle_binary_message_service [OF assms(1), of H now h "service_response_bytes r"]
    by (simp add: SERVICE_CALL_REQUEST_op_def)
qed

theorem service_request_delivered_witness:
  "handle_binary_message
     (no_handlers\<lparr>service_request_handler := Some (\<lambda>r h. modify (\<lambda>s. s\<lparr>srv_name := encoding r\<rparr>))\<rparr>) 0 4
     (2 # service_response_bytes \<lparr>service_id = 1, call_id = 9, encoding = ''cdr'', serv_data = [7]\<rparr>)
     ((Server ''srv'' demo_options)\<lparr>services := [(1, \<lparr>sv_name = ''/s'', sv_type = ''T'', request_schema = [], response_schema = []\<rparr>)]\<rparr>) =
   (Ok (), (Server ''cdr'' demo_options)\<lparr>services := [(1, \<lparr>sv_name = ''/s'', sv_type = ''T'', request_schema = [], response_schema = []\<rparr>)]\<rparr>)"
  by (subst service_request_delivered
      [where f = "\<lambda>r h. modify (\<lambda>s. s\<lparr>srv_name := encoding r\<rparr>)"])
    (simp_all add: has_capability_def Server_def demo_options_def DEFAULT_CAPABILITIES_def m_contains_def
      MAX_ENCODING_LENGTH_def modify_def)

text \<open>A message published by a client (opcode 1, its channel id, the payload) reaches the
  handler of the bridge with the advertisement of that channel and exactly the payload, when the
  client advertised the channel.  An exception of the handler other than a \<open>ServiceError\<close>, such as
  the \<open>ClientChannelError\<close> the bridge throws, is reported as a failed service call, its text
  lost.\<close>

lemma client_message_delivered:
  assumes "has_capability ''clientPublish'' s" "m_find (client_channels s) h = Some pubs"
    and "m_find pubs i = Some adv" "client_message_handler H = Some f"
  shows "\<exists>m. getData m = p \<and> getLength m = length p \<and> advertisement m = adv \<and>
    handle_binary_message H now h (1 # uint32_LE i @ p) s =
      (case f m h s of
         (Throw (ServiceError _ what), t) \<Rightarrow> send_status_and_log_msg h Error what t
       | (Throw _, t) \<Rightarrow> send_status_and_log_msg h Error ''callService: Failed to execute handler'' t
       | r \<Rightarrow> r)"
proof (intro exI conjI)
  let ?m = "\<lparr>log_time = now, publish_time = now, sequence = 0, advertisement = adv,
    data_length = length (1 # uint32_LE i @ p), cm_data = 1 # uint32_LE i @ p\<rparr>"
  show "getData ?m = p" "getLength ?m = length p" "advertisement ?m = adv"
    by (simp_all add: getData_def getLength_def MSG_PAYLOAD_OFFSET_def)
  have id: "read_uint32_LE 1 (1 # uint32_LE i @ p) = Ok i"
    by (simp add: read_uint32_LE_def peek_def)
  have "handle_client_message_data H now h (1 # uint32_LE i @ p) s =
      (case f ?m h s of
         (Throw (ServiceError _ what), t) \<Rightarrow> send_status_and_log_msg h Error what t
       | (Throw _, t) \<Rightarrow> send_status_and_log_msg h Error ''callService: Failed to execute handler'' t
       | r \<Rightarrow> r)"
    using assms(2-4) id
    by (simp add: handle_client_message_data_def bind_def gets_def ret_def try_catch_def
        split: prod.split outcome.split exn.split)
  then show "handle_binary_message H now h (1 # uint32_LE i @ p) s =
      (case f ?m h s of
         (Throw (ServiceError _ what), t) \<Rightarrow> send_status_and_log_msg h Error what t
       | (Throw _, t) \<Rightarrow> send_status_and_log_msg h Error ''callService: Failed to execute handler'' t
       | r \<Rightarrow> r)"
    using assms(1)
    by (simp add: handle_binary_message_def CAPABILITY_BY_CLIENT_BINARY_OPERATION_def
        MESSAGE_DATA_op_def bind_def gets_def)
qed

definition advertisement_example :: client_advertisement where
  "advertisement_example =
     \<lparr>channel_id = 11, adv_topic = ''/x'', adv_encoding = ''cdr'', adv_schema_name = ''T'', adv_schema = []\<rparr>"

definition publication_example :: server where
  "publication_example =
     (Server ''srv'' demo_options)\<lparr>client_channels := [(4, [(11, advertisement_example)])]\<rparr>"

lemma client_message_delivered_witness:
  "\<exists>m. getData m = [1, 2, 3] \<and>
     handle_binary_message (no_handlers\<lparr>client_message_handler :=
        Some (\<lambda>m h. throw (ClientChannelError 11 ''no publisher''))\<rparr>) 0 4 (1 # uint32_LE 11 @ [1, 2, 3])
       publication_example =
     send_status_and_log_msg 4 Error ''callService: Failed to execute handler'' publication_example"
proof -
  have cap: "has_capability ''clientPublish'' publication_example"
    by (simp add: has_capability_def publication_example_def Server_def demo_options_def DEFAULT_CAPABILITIES_def)
  have pubs: "m_find (client_channels publication_example) 4 = Some [(11, advertisement_example)]"
    and i: "m_find [(11 :: uint32_t, advertisement_example)] 11 = Some advertisement_example"
    by (simp_all add: publication_example_def Server_def)
  have f: "client_message_handler (no_handlers\<lparr>client_message_handler :=
      Some (\<lambda>m h. throw (ClientChannelError 11 ''no publisher''))\<rparr>) =
      Some (\<lambda>m h. throw (ClientChannelError 11 ''no publisher''))"
    by simp
  show ?thesis
    using client_message_delivered [OF cap pubs i f, of "[1, 2, 3]" 0] by (auto simp: throw_def)
qed

end
