(* ===== verification/Server_Invariant.thy ===== *)
theory Server_Invariant
  imports Server_Dispatch
begin

text \<open>
  The invariants of the server and the proof that every operation keeps them, for every set of
  handlers that leaves these members of the server alone (the locale \<open>server_handlers\<close>).
\<close>

section \<open>The part of the state the invariants read\<close>

definition key_state ::
    "'e server_scheme \<Rightarrow> (hdl \<times> client_info) list \<times> (uint32_t \<times> channel) list \<times>
       (hdl \<times> (uint32_t \<times> client_advertisement) list) list \<times> int" where
  "key_state s = (clients s, channels s, client_channels s, subscription_count (conn_graph s))"

section \<open>What a handler may do\<close>

text \<open>
  Handlers that leave the part \<open>K\<close> of the state alone, which frames sent and parameter
  subscriptions do not touch either.
\<close>

locale quiet_handlers =
  fixes H :: "('e server_scheme) handlers"
    and K :: "'e server_scheme \<Rightarrow> 'k"
  assumes K_outbox: "K (s\<lparr>outbox := xs\<rparr>) = K s"
    and K_params: "K (s\<lparr>client_param_subscriptions := ps\<rparr>) = K s"
    and client_message_framed: "client_message_handler H = Some f5 \<Longrightarrow> framed K (f5 m h)"
    and parameter_request_framed: "parameter_request_handler H = Some f6 \<Longrightarrow> framed K (f6 ns r h)"
    and parameter_change_framed: "parameter_change_handler H = Some f7 \<Longrightarrow> framed K (f7 qs r h)"
    and parameter_subscription_framed: "parameter_subscription_handler H = Some f8 \<Longrightarrow> framed K (f8 ns op h)"
    and service_request_framed: "service_request_handler H = Some f9 \<Longrightarrow> framed K (f9 req h)"
    and subscribe_connection_graph_framed:
      "subscribe_connection_graph_handler H = Some f10 \<Longrightarrow> framed K (f10 b)"
    and fetch_asset_framed: "fetch_asset_handler H = Some f11 \<Longrightarrow> framed K (f11 uri n h)"

text \<open>A handler of the bridge may send frames, change the state of the bridge and the topics and services of the
  connection graph; it leaves the clients, the channels and the publications of the clients alone.\<close>

locale server_handlers = quiet_handlers H key_state for H :: "('e server_scheme) handlers" +
  assumes subscribe_framed: "subscribe_handler H = Some f1 \<Longrightarrow> framed key_state (f1 i h)"
    and unsubscribe_framed: "unsubscribe_handler H = Some f2 \<Longrightarrow> framed key_state (f2 i h)"
    and client_advertise_framed: "client_advertise_handler H = Some f3 \<Longrightarrow> framed key_state (f3 adv h)"
    and client_unadvertise_framed: "client_unadvertise_handler H = Some f4 \<Longrightarrow> framed key_state (f4 i h)"

lemma core_key_state: "core s = core t \<Longrightarrow> key_state s = key_state t"
  by (simp add: core_def key_state_def server.defs)

lemma framed_key_state: "framed core m \<Longrightarrow> framed key_state m"
  by (rule framedI, erule framed_keeps) (auto dest: core_key_state)

lemma framed_modify: "(\<And>s. f (g s) = f s) \<Longrightarrow> framed f (modify g)"
  by (intro framedI keeps_modify) simp

text \<open>Sending leaves the core alone.\<close>

lemma framed_core_sends [keeps_intros]:
  "keeps (\<lambda>s. core s = v) (send_json h j r)"
  "keeps (\<lambda>s. core s = v) (send_raw_json h j r)"
  "keeps (\<lambda>s. core s = v) (send_binary h b r)"
  "keeps (\<lambda>s. core s = v) (send_status_and_log_msg h l m)"
  by (auto intro: keepsI)

lemma framed_core_con_send [keeps_intros]: "keeps (\<lambda>s. core s = v) (con_send h con f r)"
  unfolding con_send_def by (intro keeps_intros keeps_modify) simp

lemma keeps_get_con [keeps_intros]: "keeps P (get_con_from_hdl h)"
  unfolding get_con_from_hdl_def by (intro keeps_intros)

lemma keeps_discard [keeps_intros]: "keeps P m \<Longrightarrow> keeps P (discard m)"
  unfolding discard_def by (intro keeps_intros)

lemma keeps_catch_all [keeps_intros]:
  "keeps P m \<Longrightarrow> (\<And>w. keeps P (h w)) \<Longrightarrow> keeps P k \<Longrightarrow> keeps P (catch_all m h k)"
  unfolding catch_all_def by (intro keeps_intros)

lemma keeps_catch_std [keeps_intros]:
  "keeps P m \<Longrightarrow> (\<And>w. keeps P (h w)) \<Longrightarrow> keeps P (catch_std m h)"
  unfolding catch_std_def by (intro keeps_intros)

lemma keeps_ignoring [keeps_intros]: "keeps P m \<Longrightarrow> keeps P (ignoring m)"
  unfolding ignoring_def by (intro keeps_intros)

lemma keeps_call [keeps_intros]: "(\<And>g. f = Some g \<Longrightarrow> keeps P (use g)) \<Longrightarrow> keeps P (call f use)"
  unfolding call_def by (intro keeps_intros)

lemma keeps_clients_at [keeps_intros]: "keeps P (clients_at h)"
  unfolding clients_at_def by (intro keeps_intros)

lemma key_state_update [simp]:
  "key_state (s\<lparr>outbox := xs\<rparr>) = key_state s"
  "key_state (s\<lparr>client_param_subscriptions := ps\<rparr>) = key_state s"
  "key_state (s\<lparr>conns := cs\<rparr>) = key_state s"
  "key_state (s\<lparr>services := svs\<rparr>) = key_state s"
  "key_state (s\<lparr>nextService_id := n\<rparr>) = key_state s"
  by (simp_all add: key_state_def)

text \<open>A predicate of the key state is kept by everything that keeps the core.\<close>

definition on_key_state :: "('e server_scheme \<Rightarrow> bool) \<Rightarrow> bool" where
  "on_key_state P = (\<forall>s t. key_state s = key_state t \<longrightarrow> P s \<longrightarrow> P t)"

lemma on_key_stateD: "on_key_state P \<Longrightarrow> key_state s = key_state t \<Longrightarrow> P s \<Longrightarrow> P t"
  unfolding on_key_state_def by blast

lemma on_key_state_keeps: "on_key_state P \<Longrightarrow> framed key_state m \<Longrightarrow> keeps P m"
  unfolding on_key_state_def by (erule framed_keeps) blast

lemma on_key_state_core: "on_key_state P \<Longrightarrow> framed core m \<Longrightarrow> keeps P m"
  by (intro on_key_state_keeps framed_key_state)

lemma keeps_sends:
  assumes "on_key_state P"
  shows "keeps P (send_json h j r)" "keeps P (send_raw_json h j r)" "keeps P (send_binary h b r)"
    "keeps P (send_status_and_log_msg h l m)" "keeps P (con_send h con f r)"
  by (intro on_key_state_core [OF assms] framedI keeps_intros)+

lemma on_key_state_eq: "on_key_state (\<lambda>s. key_state s = v)"
  by (simp add: on_key_state_def)

lemmas keeps_key_state_sends [keeps_intros] = keeps_sends [OF on_key_state_eq]

text \<open>Operations that leave the key state alone.\<close>

lemma keeps_server_send: "on_key_state P \<Longrightarrow> keeps P (server_send h f)"
  unfolding server_send_def by (intro keeps_intros keeps_sends)

lemma framed_add_services: "framed key_state (add_services svs)"
  unfolding add_services_def add_service_def broadcast_def
  by (intro framedI keeps_intros keeps_modify keeps_server_send on_key_state_eq;
      simp add: key_state_def split: option.split)

lemma framed_remove_services: "framed key_state (remove_services ids)"
  unfolding remove_services_def remove_service_def broadcast_def
  by (intro framedI keeps_intros keeps_modify keeps_server_send on_key_state_eq;
      simp add: key_state_def split: option.split)

lemma framed_publish_parameter_values: "framed key_state (publish_parameter_values h ps rid)"
  unfolding publish_parameter_values_def
  by (intro framedI keeps_intros keeps_modify keeps_server_send on_key_state_eq;
      simp add: key_state_def split: option.split)

lemma framed_update_parameter_values: "framed key_state (update_parameter_values ps)"
  unfolding update_parameter_values_def publish_parameter_values_def
  by (intro framedI keeps_intros keeps_modify keeps_server_send on_key_state_eq;
      simp add: key_state_def split: option.split)

lemma framed_send_message: "framed key_state (send_message h i t p)"
  unfolding send_message_def
  by (intro framedI keeps_intros keeps_modify keeps_server_send on_key_state_eq;
      simp add: key_state_def split: option.split)

lemma framed_broadcast_time: "framed key_state (broadcast_time t)"
  unfolding broadcast_time_def
  by (intro framedI keeps_intros keeps_modify keeps_server_send on_key_state_eq;
      simp add: key_state_def split: option.split)

lemma framed_send_service_response: "framed key_state (send_service_response h r)"
  unfolding send_service_response_def
  by (intro framedI keeps_intros keeps_modify keeps_server_send on_key_state_eq;
      simp add: key_state_def split: option.split)

lemma framed_send_fetch_asset_response: "framed key_state (send_fetch_asset_response h a)"
  unfolding send_fetch_asset_response_def
  by (intro framedI keeps_intros keeps_modify keeps_server_send on_key_state_eq;
      simp add: key_state_def split: option.split)

lemma framed_update_connection_graph: "framed key_state (update_connection_graph pubs subs servs)"
  unfolding update_connection_graph_def
  by (intro framedI keeps_intros keeps_modify keeps_server_send on_key_state_eq;
      simp add: key_state_def split: option.split)

lemma framed_validate_connection: "framed key_state (validate_connection h)"
  unfolding validate_connection_def select_subprotocol_def
  by (intro framedI keeps_intros keeps_modify keeps_server_send on_key_state_eq;
      simp add: key_state_def split: option.split)

lemma framed_handle_connection_opened: "framed key_state (handle_connection_opened h)"
  unfolding handle_connection_opened_def
  by (intro framedI keeps_intros keeps_modify keeps_server_send on_key_state_eq;
      simp add: key_state_def split: option.split)

lemmas framed_quiet = framed_add_services framed_remove_services framed_publish_parameter_values
  framed_update_parameter_values framed_send_message framed_broadcast_time
  framed_send_service_response framed_send_fetch_asset_response framed_update_connection_graph
  framed_validate_connection framed_handle_connection_opened

context quiet_handlers
begin

lemma keeps_quiet_sends:
  "keeps (\<lambda>s. K s = v) (send_json h j r)" "keeps (\<lambda>s. K s = v) (send_raw_json h j r)"
  "keeps (\<lambda>s. K s = v) (send_binary h b r)" "keeps (\<lambda>s. K s = v) (send_status_and_log_msg h l m)"
  by (auto intro: keepsI simp: sending_runs K_outbox)

text \<open>Calling a handler, with the check for an empty one.\<close>

lemma keeps_quiet_calls:
  "keeps (\<lambda>s. K s = v) (call (parameter_request_handler H) (\<lambda>f. f ns rid h))"
  "keeps (\<lambda>s. K s = v) (call (parameter_change_handler H) (\<lambda>f. f qs rid h))"
  "keeps (\<lambda>s. K s = v) (call (parameter_subscription_handler H) (\<lambda>f. f ns op h))"
  "keeps (\<lambda>s. K s = v) (call (subscribe_connection_graph_handler H) (\<lambda>f. f b))"
  "keeps (\<lambda>s. K s = v) (call (fetch_asset_handler H) (\<lambda>f. f uri n h))"
  by (rule keeps_call, rule framed_keeps,
      erule parameter_request_framed parameter_change_framed parameter_subscription_framed
        subscribe_connection_graph_framed fetch_asset_framed, simp)+

text \<open>A handler that was found to be there.\<close>

lemma keeps_quiet_found:
  "client_message_handler H = Some f5 \<Longrightarrow> keeps (\<lambda>s. K s = v) (f5 m h)"
  "parameter_subscription_handler H = Some f8 \<Longrightarrow> keeps (\<lambda>s. K s = v) (f8 ns op h)"
  "service_request_handler H = Some f9 \<Longrightarrow> keeps (\<lambda>s. K s = v) (f9 req h)"
  "subscribe_connection_graph_handler H = Some f10 \<Longrightarrow> keeps (\<lambda>s. K s = v) (f10 b)"
  by (rule framed_keeps, erule client_message_framed parameter_subscription_framed service_request_framed
      subscribe_connection_graph_framed, simp)+

lemma framed_unsubscribe_params: "framed K (unsubscribe_params_without_subscriptions H h ns)"
proof (cases "parameter_subscription_handler H")
  case None
  then show ?thesis
    unfolding unsubscribe_params_without_subscriptions_def by (simp add: framedI keeps_intros)
next
  case (Some f)
  note [keeps_intros] = keeps_quiet_found(2) [OF Some]
  show ?thesis
    unfolding unsubscribe_params_without_subscriptions_def Some option.case
    by (intro framedI keeps_intros keeps_quiet_sends)
qed

lemmas keeps_unsubscribe_params_quiet = framed_unsubscribe_params [unfolded framed_def, THEN spec]

lemma framed_parameter_requests:
  "framed K (handle_get_parameters H payload h)"
  "framed K (handle_set_parameters H payload h)"
  "framed K (handle_subscribe_parameter_updates H payload h)"
  "framed K (handle_unsubscribe_parameter_updates H payload h)"
  "framed K (handle_fetch_asset H payload h)"
  unfolding handle_get_parameters_def handle_set_parameters_def handle_subscribe_parameter_updates_def
    handle_unsubscribe_parameter_updates_def handle_fetch_asset_def
  by (intro framedI keeps_intros keeps_modify keeps_quiet_calls keeps_unsubscribe_params_quiet;
      simp add: K_params)+

lemma framed_client_message_data: "framed K (handle_client_message_data H now h bs)"
proof (cases "client_message_handler H")
  case None
  then show ?thesis
    unfolding handle_client_message_data_def by (simp add: framedI keeps_intros)
next
  case (Some f)
  note [keeps_intros] = keeps_quiet_found(1) [OF Some] keeps_quiet_sends
  show ?thesis
    unfolding handle_client_message_data_def Some option.case
    by (intro framedI keeps_intros) (auto split: exn.split intro: keeps_intros)
qed

lemma framed_service_call_request: "framed K (handle_service_call_request H h bs)"
proof (cases "service_request_handler H")
  case None
  then show ?thesis
    unfolding handle_service_call_request_def by (intro framedI keeps_intros keeps_quiet_sends) simp
next
  case (Some f)
  note [keeps_intros] = keeps_quiet_found(3) [OF Some] keeps_quiet_sends
  show ?thesis
    unfolding handle_service_call_request_def Some option.case by (intro framedI keeps_intros)
qed

lemma framed_binary_message: "framed K (handle_binary_message H now h bs)"
proof (cases bs)
  case Nil
  then show ?thesis
    unfolding handle_binary_message_def by (auto intro: framedI keeps_intros keeps_quiet_sends)
next
  case (Cons op rest)
  note [keeps_intros] = framed_client_message_data [unfolded framed_def, THEN spec]
    framed_service_call_request [unfolded framed_def, THEN spec] keeps_quiet_sends
  show ?thesis
    unfolding handle_binary_message_def Cons list.case by (intro framedI keeps_intros)
qed

end

context server_handlers
begin

lemmas handlers_framed = subscribe_framed unsubscribe_framed client_advertise_framed
  client_unadvertise_framed client_message_framed parameter_request_framed parameter_change_framed
  parameter_subscription_framed service_request_framed subscribe_connection_graph_framed
  fetch_asset_framed

lemma keeps_calls:
  assumes "on_key_state P"
  shows "keeps P (call (subscribe_handler H) (\<lambda>f. f i h))"
    "keeps P (call (unsubscribe_handler H) (\<lambda>f. f i h))"
    "keeps P (call (client_advertise_handler H) (\<lambda>f. f adv h))"
    "keeps P (call (client_unadvertise_handler H) (\<lambda>f. f i h))"
    "keeps P (call (subscribe_connection_graph_handler H) (\<lambda>f. f b))"
  by (rule keeps_call, rule on_key_state_keeps [OF assms], erule handlers_framed)+

lemma keeps_found:
  assumes "on_key_state P"
  shows "unsubscribe_handler H = Some f2 \<Longrightarrow> keeps P (f2 i h)"
    "client_unadvertise_handler H = Some f4 \<Longrightarrow> keeps P (f4 i h)"
    "subscribe_connection_graph_handler H = Some f10 \<Longrightarrow> keeps P (f10 b)"
  by (rule on_key_state_keeps [OF assms], erule handlers_framed)+

lemma keeps_unsubscribe_params:
  "on_key_state P \<Longrightarrow> keeps P (unsubscribe_params_without_subscriptions H h ns)"
  by (erule on_key_state_keeps) (rule framed_unsubscribe_params)

end

section \<open>The invariants\<close>

text \<open>Every client is stored under its own handle; its subscriptions are of existing channels.\<close>

definition inv_subs :: "'e server_scheme \<Rightarrow> bool" where
  "inv_subs s = (\<forall>h c. m_find (clients s) h = Some c \<longrightarrow>
     handle c = h \<and> m_invar (subscriptions_by_channel c) \<and>
     set (m_keys (subscriptions_by_channel c)) \<subseteq> set (m_keys (channels s)))"

text \<open>A channel is stored under its own identifier.\<close>

definition inv_chan :: "'e server_scheme \<Rightarrow> bool" where
  "inv_chan s = (\<forall>i ch. m_find (channels s) i = Some ch \<longrightarrow> ch_id ch = i)"

text \<open>What a client is recorded to advertise is what its publications hold.\<close>

definition advertised_of :: "hdl \<Rightarrow> 'e server_scheme \<Rightarrow> uint32_t list" where
  "advertised_of h s = (case m_find (clients s) h of Some c \<Rightarrow> advertised_channels c | None \<Rightarrow> [])"

definition inv_adv :: "'e server_scheme \<Rightarrow> bool" where
  "inv_adv s = (\<forall>h. set (advertised_of h s) = set (m_keys (publications h s)))"

text \<open>At most one client holds the login.\<close>

definition inv_login :: "'e server_scheme \<Rightarrow> bool" where
  "inv_login s = (\<forall>h h' c c'. m_find (clients s) h = Some c \<longrightarrow> m_find (clients s) h' = Some c' \<longrightarrow>
     login c \<longrightarrow> login c' \<longrightarrow> h = h')"

text \<open>The subscription count of the connection graph is at least the number of flagged clients.\<close>

definition graph_flagged :: "'e server_scheme \<Rightarrow> hdl set" where
  "graph_flagged s = {h. \<exists>c. m_find (clients s) h = Some c \<and> subscribed_to_connection_graph c}"

definition inv_graph :: "'e server_scheme \<Rightarrow> bool" where
  "inv_graph s = (int (card (graph_flagged s)) \<le> subscription_count (conn_graph s))"

lemma finite_graph_flagged [simp]: "finite (graph_flagged s)"
proof (rule finite_subset)
  show "graph_flagged s \<subseteq> set (m_keys (clients s))"
    unfolding graph_flagged_def using m_find_None_iff [of "clients s"] by force
qed simp

lemmas inv_defs = inv_subs_def inv_chan_def inv_adv_def inv_login_def inv_graph_def
  advertised_of_def graph_flagged_def publications_def

lemma on_key_state_invs:
  "on_key_state inv_subs" "on_key_state inv_chan" "on_key_state inv_adv" "on_key_state inv_login"
  "on_key_state inv_graph"
  unfolding on_key_state_def key_state_def inv_defs by auto

text \<open>Changing one client.\<close>

definition with_client :: "hdl \<Rightarrow> (client_info \<Rightarrow> client_info) \<Rightarrow> 'e server_scheme \<Rightarrow> 'e server_scheme" where
  "with_client h f s =
     (case m_find (clients s) h of
        Some c \<Rightarrow> s\<lparr>clients := m_assign h (f c) (clients s)\<rparr>
      | None \<Rightarrow> s)"

lemma update_client_modify: "update_client h f = modify (with_client h f)"
  by (simp add: update_client_def with_client_def [abs_def])

lemma with_client_simps [simp]:
  "m_find (clients (with_client h f s)) h' = (if h' = h then map_option f (m_find (clients s) h) else m_find (clients s) h')"
  "channels (with_client h f s) = channels s"
  "client_channels (with_client h f s) = client_channels s"
  "conn_graph (with_client h f s) = conn_graph s"
  "publications k (with_client h f s) = publications k s"
  by (auto simp: with_client_def publications_def split: option.splits)

lemma publications_clients [simp]: "publications h (s\<lparr>clients := cl\<rparr>) = publications h s"
  by (simp add: publications_def)

lemma advertised_of_with_client:
  "(\<And>c. advertised_channels (f c) = advertised_channels c) \<Longrightarrow> advertised_of k (with_client h f s) = advertised_of k s"
  by (auto simp: advertised_of_def split: option.split)

lemma advertised_of_emplace:
  "advertised_channels c = [] \<Longrightarrow>
     advertised_of k (s\<lparr>clients := m_emplace h c (clients s)\<rparr>) = advertised_of k s"
  by (auto simp: advertised_of_def split: option.split)

lemma keeps_update_client:
  "(\<And>c. handle (f c) = handle c \<and> (m_invar (subscriptions_by_channel c) \<longrightarrow> m_invar (subscriptions_by_channel (f c))) \<and>
      set (m_keys (subscriptions_by_channel (f c))) \<subseteq> set (m_keys (subscriptions_by_channel c))) \<Longrightarrow>
     keeps inv_subs (update_client h f)"
  "keeps inv_chan (update_client h f)"
  "(\<And>c. advertised_channels (f c) = advertised_channels c) \<Longrightarrow> keeps inv_adv (update_client h f)"
  "(\<And>c. login (f c) \<longrightarrow> login c) \<Longrightarrow> keeps inv_login (update_client h f)"
proof -
  show "keeps inv_subs (update_client h f)"
    if "\<And>c. handle (f c) = handle c \<and> (m_invar (subscriptions_by_channel c) \<longrightarrow> m_invar (subscriptions_by_channel (f c))) \<and>
      set (m_keys (subscriptions_by_channel (f c))) \<subseteq> set (m_keys (subscriptions_by_channel c))"
    unfolding update_client_modify using that
    by (intro keeps_modify) (fastforce simp: inv_subs_def split: if_splits)
  show "keeps inv_chan (update_client h f)"
    unfolding update_client_modify by (intro keeps_modify) (simp add: inv_chan_def)
  show "keeps inv_adv (update_client h f)"
    if "\<And>c. advertised_channels (f c) = advertised_channels c"
    unfolding update_client_modify using that
    by (intro keeps_modify) (simp add: inv_adv_def advertised_of_with_client)
  show "keeps inv_login (update_client h f)" if "\<And>c. login (f c) \<longrightarrow> login c"
    unfolding update_client_modify using that
    by (intro keeps_modify) (fastforce simp: inv_login_def split: if_splits)
qed

lemma graph_flagged_with_client:
  "(\<And>c. subscribed_to_connection_graph (f c) = subscribed_to_connection_graph c) \<Longrightarrow>
     graph_flagged (with_client h f s) = graph_flagged s"
  by (auto simp: graph_flagged_def)

lemma keeps_graph_update_client:
  "(\<And>c. subscribed_to_connection_graph (f c) = subscribed_to_connection_graph c) \<Longrightarrow>
     keeps inv_graph (update_client h f)"
  unfolding update_client_modify
  by (intro keeps_modify) (simp add: inv_graph_def graph_flagged_with_client)

lemma m_invar_erase [simp]: "m_invar m \<Longrightarrow> m_invar (m_erase k m)"
  by (rule al.invar_erase)

lemma m_invar_emplace [simp]: "m_invar m \<Longrightarrow> m_invar (m_emplace k v m)"
  by (rule al.invar_emplace)

text \<open>The entry of a client that logs in or leaves.\<close>

lemma emplace_client:
  "inv_subs s \<Longrightarrow> inv_subs (s\<lparr>clients := m_emplace h (ClientInfo e u i h) (clients s)\<rparr>)"
  "inv_chan s \<Longrightarrow> inv_chan (s\<lparr>clients := cl\<rparr>)"
  "inv_adv s \<Longrightarrow> inv_adv (s\<lparr>clients := m_emplace h (ClientInfo e u i h) (clients s)\<rparr>)"
  "inv_graph s \<Longrightarrow> inv_graph (s\<lparr>clients := m_emplace h (ClientInfo e u i h) (clients s)\<rparr>)"
proof -
  have new: "m_invar (subscriptions_by_channel (ClientInfo e u i h))" "handle (ClientInfo e u i h) = h"
    "subscriptions_by_channel (ClientInfo e u i h) = []" "advertised_channels (ClientInfo e u i h) = []"
    "\<not> subscribed_to_connection_graph (ClientInfo e u i h)"
    by (simp_all add: ClientInfo_def m_invar_def m_keys_def)
  show "inv_subs s \<Longrightarrow> inv_subs (s\<lparr>clients := m_emplace h (ClientInfo e u i h) (clients s)\<rparr>)"
    using new by (auto simp: inv_subs_def m_keys_def split: if_splits)
  show "inv_chan s \<Longrightarrow> inv_chan (s\<lparr>clients := cl\<rparr>)"
    by (simp add: inv_chan_def)
  show "inv_adv s \<Longrightarrow> inv_adv (s\<lparr>clients := m_emplace h (ClientInfo e u i h) (clients s)\<rparr>)"
    using new by (simp add: inv_adv_def advertised_of_emplace)
  have "graph_flagged (s\<lparr>clients := m_emplace h (ClientInfo e u i h) (clients s)\<rparr>) = graph_flagged s"
    using new by (auto simp: graph_flagged_def split: if_splits)
  then show "inv_graph s \<Longrightarrow> inv_graph (s\<lparr>clients := m_emplace h (ClientInfo e u i h) (clients s)\<rparr>)"
    by (simp add: inv_graph_def)
qed

lemma erase_client:
  "inv_subs s \<Longrightarrow> inv_subs (s\<lparr>clients := m_erase h (clients s)\<rparr>)"
  "inv_login s \<Longrightarrow> inv_login (s\<lparr>clients := m_erase h (clients s)\<rparr>)"
  by (auto simp: inv_subs_def inv_login_def split: if_splits)

text \<open>Members the invariants do not read.\<close>

lemma other_members:
  "inv_subs (s\<lparr>client_channels := cc\<rparr>) = inv_subs s" "inv_chan (s\<lparr>client_channels := cc\<rparr>) = inv_chan s"
  "inv_login (s\<lparr>client_channels := cc\<rparr>) = inv_login s" "inv_graph (s\<lparr>client_channels := cc\<rparr>) = inv_graph s"
  "inv_subs (s\<lparr>conn_graph := g\<rparr>) = inv_subs s" "inv_chan (s\<lparr>conn_graph := g\<rparr>) = inv_chan s"
  "inv_adv (s\<lparr>conn_graph := g\<rparr>) = inv_adv s" "inv_login (s\<lparr>conn_graph := g\<rparr>) = inv_login s"
  "inv_adv (s\<lparr>channels := chs\<rparr>) = inv_adv s" "inv_login (s\<lparr>channels := chs\<rparr>) = inv_login s"
  "inv_graph (s\<lparr>channels := chs\<rparr>) = inv_graph s"
  "inv_subs (s\<lparr>next_channel_id := n\<rparr>) = inv_subs s" "inv_chan (s\<lparr>next_channel_id := n\<rparr>) = inv_chan s"
  "inv_adv (s\<lparr>next_channel_id := n\<rparr>) = inv_adv s" "inv_login (s\<lparr>next_channel_id := n\<rparr>) = inv_login s"
  "inv_graph (s\<lparr>next_channel_id := n\<rparr>) = inv_graph s"
  "inv_subs (s\<lparr>client_param_subscriptions := ps\<rparr>) = inv_subs s"
  "inv_chan (s\<lparr>client_param_subscriptions := ps\<rparr>) = inv_chan s"
  "inv_adv (s\<lparr>client_param_subscriptions := ps\<rparr>) = inv_adv s"
  "inv_login (s\<lparr>client_param_subscriptions := ps\<rparr>) = inv_login s"
  "inv_graph (s\<lparr>client_param_subscriptions := ps\<rparr>) = inv_graph s"
  by (simp_all add: inv_defs)

section \<open>Every operation keeps the invariants\<close>

lemmas invs_sends [keeps_intros] =
  keeps_sends [OF on_key_state_invs(1)] keeps_sends [OF on_key_state_invs(2)]
  keeps_sends [OF on_key_state_invs(3)] keeps_sends [OF on_key_state_invs(4)]
  keeps_sends [OF on_key_state_invs(5)]

subsection \<open>Channels\<close>

lemma keeps_broadcast: "on_key_state P \<Longrightarrow> keeps P (broadcast msg)"
  unfolding broadcast_def by (intro keeps_intros keeps_sends)

lemma emplace_channel:
  "inv_subs s \<Longrightarrow> inv_subs (s\<lparr>channels := m_emplace i c (channels s)\<rparr>)"
  "inv_chan s \<Longrightarrow> ch_id c = i \<Longrightarrow> inv_chan (s\<lparr>channels := m_emplace i c (channels s)\<rparr>)"
  by (auto simp: inv_subs_def inv_chan_def split: if_splits)

lemma ch_id_Channel [simp]: "ch_id (Channel i ch) = i"
  by (simp add: Channel_def channel_without_id.defs)

lemma keeps_add_channels:
  "keeps inv_subs (add_channels chs)" "keeps inv_chan (add_channels chs)"
  "keeps inv_adv (add_channels chs)" "keeps inv_login (add_channels chs)"
  "keeps inv_graph (add_channels chs)"
  unfolding add_channels_def add_channel_def
  by (intro keeps_intros keeps_modify keeps_broadcast on_key_state_invs;
      simp add: other_members emplace_channel)+

lemma drop_subscriptions_simps [simp]:
  "handle (drop_subscriptions ids c) = handle c"
  "advertised_channels (drop_subscriptions ids c) = advertised_channels c"
  "login (drop_subscriptions ids c) = login c"
  "subscribed_to_connection_graph (drop_subscriptions ids c) = subscribed_to_connection_graph c"
  "m_invar (subscriptions_by_channel c) \<Longrightarrow> m_invar (subscriptions_by_channel (drop_subscriptions ids c))"
  "set (m_keys (subscriptions_by_channel (drop_subscriptions ids c))) =
     set (m_keys (subscriptions_by_channel c)) - set ids"
  by (auto simp: drop_subscriptions_def fold_m_erase m_invar_def m_keys_def distinct_map_filter)

lemma remove_channels_effect:
  "\<exists>t. remove_channels ids s = (Ok (), t) \<and>
     set (m_keys (channels t)) = set (m_keys (channels s)) - set ids \<and>
     (\<forall>i c. m_find (channels t) i = Some c \<longrightarrow> m_find (channels s) i = Some c) \<and>
     (\<forall>h. m_find (clients t) h = map_option (drop_subscriptions ids) (m_find (clients s) h)) \<and>
     client_channels t = client_channels s \<and> conn_graph t = conn_graph s"
proof (cases "ids = []")
  case True
  have "drop_subscriptions [] = (\<lambda>c. c)"
    by (simp add: drop_subscriptions_def fun_eq_iff)
  with True show ?thesis by (simp add: remove_channels_def ret_def option.map_ident)
next
  case False
  have "set (m_keys (fold m_erase ids m)) = set (m_keys m) - set ids" for m :: "(uint32_t \<times> channel) list"
    by (auto simp: fold_m_erase m_keys_def)
  then show ?thesis
    using remove_channels_run [OF False, of s] by (force simp: find_fold_erase)
qed

lemma keeps_remove_channels:
  "keeps (inv_subs :: 'e server_scheme \<Rightarrow> bool) (remove_channels ids)" "keeps (inv_chan :: 'e server_scheme \<Rightarrow> bool) (remove_channels ids)"
  "keeps (inv_adv :: 'e server_scheme \<Rightarrow> bool) (remove_channels ids)" "keeps (inv_login :: 'e server_scheme \<Rightarrow> bool) (remove_channels ids)"
  "keeps (inv_graph :: 'e server_scheme \<Rightarrow> bool) (remove_channels ids)"
proof -
  show "keeps (inv_subs :: 'e server_scheme \<Rightarrow> bool) (remove_channels ids)"
  proof (rule keepsI)
    fix s :: "'e server_scheme"
    assume "inv_subs s"
    then show "inv_subs (snd (remove_channels ids s))"
      using remove_channels_effect [of ids s] by (fastforce simp: inv_subs_def)
  qed
  show "keeps (inv_chan :: 'e server_scheme \<Rightarrow> bool) (remove_channels ids)"
  proof (rule keepsI)
    fix s :: "'e server_scheme"
    assume "inv_chan s"
    then show "inv_chan (snd (remove_channels ids s))"
      using remove_channels_effect [of ids s] by (fastforce simp: inv_chan_def)
  qed
  show "keeps (inv_adv :: 'e server_scheme \<Rightarrow> bool) (remove_channels ids)"
  proof (rule keepsI)
    fix s :: "'e server_scheme"
    assume inv: "inv_adv s"
    obtain t where t: "remove_channels ids s = (Ok (), t)" "client_channels t = client_channels s"
      "\<And>h. m_find (clients t) h = map_option (drop_subscriptions ids) (m_find (clients s) h)"
      using remove_channels_effect [of ids s] by blast
    then have "advertised_of h t = advertised_of h s" "publications h t = publications h s" for h
      by (auto simp: advertised_of_def publications_def split: option.split)
    with inv t(1) show "inv_adv (snd (remove_channels ids s))"
      by (simp add: inv_adv_def)
  qed
  show "keeps (inv_login :: 'e server_scheme \<Rightarrow> bool) (remove_channels ids)"
  proof (rule keepsI)
    fix s :: "'e server_scheme"
    assume "inv_login s"
    then show "inv_login (snd (remove_channels ids s))"
      using remove_channels_effect [of ids s] by (fastforce simp: inv_login_def)
  qed
  show "keeps (inv_graph :: 'e server_scheme \<Rightarrow> bool) (remove_channels ids)"
  proof (rule keepsI)
    fix s :: "'e server_scheme"
    assume inv: "inv_graph s"
    obtain t where t: "remove_channels ids s = (Ok (), t)" "conn_graph t = conn_graph s"
      "\<And>h. m_find (clients t) h = map_option (drop_subscriptions ids) (m_find (clients s) h)"
      using remove_channels_effect [of ids s] by blast
    then have "graph_flagged t = graph_flagged s"
      by (auto simp: graph_flagged_def)
    with inv t show "inv_graph (snd (remove_channels ids s))"
      by (simp add: inv_graph_def)
  qed
qed

subsection \<open>Requests, where they are easy\<close>

lemma keeps_handle_login:
  "keeps inv_subs (handle_login payload h)" "keeps inv_chan (handle_login payload h)"
  "keeps inv_adv (handle_login payload h)" "keeps inv_graph (handle_login payload h)"
  unfolding handle_login_def
  by (intro keeps_intros keeps_modify keeps_update_client keeps_graph_update_client;
      simp add: emplace_client)+

context server_handlers
begin

lemma keeps_handle_subscribe:
  "keeps inv_chan (handle_subscribe H payload h)" "keeps inv_adv (handle_subscribe H payload h)"
  "keeps inv_login (handle_subscribe H payload h)" "keeps inv_graph (handle_subscribe H payload h)"
  unfolding handle_subscribe_def
  by (intro keeps_intros keeps_calls on_key_state_invs keeps_update_client keeps_graph_update_client;
      simp)+

lemma keeps_handle_unsubscribe:
  "keeps inv_subs (handle_unsubscribe H payload h)" "keeps inv_chan (handle_unsubscribe H payload h)"
  "keeps inv_adv (handle_unsubscribe H payload h)" "keeps inv_login (handle_unsubscribe H payload h)"
  "keeps inv_graph (handle_unsubscribe H payload h)"
  unfolding handle_unsubscribe_def
  by (intro keeps_intros keeps_calls on_key_state_invs keeps_update_client keeps_graph_update_client;
      auto)+

lemma keeps_handle_advertise:
  "keeps inv_subs (handle_advertise H payload h)" "keeps inv_chan (handle_advertise H payload h)"
  "keeps inv_login (handle_advertise H payload h)" "keeps inv_graph (handle_advertise H payload h)"
  unfolding handle_advertise_def advertise_channel_def update_publications_def
  by (intro keeps_intros keeps_modify keeps_calls on_key_state_invs keeps_update_client keeps_graph_update_client;
      simp add: other_members)+

lemma keeps_handle_unadvertise:
  "keeps inv_subs (handle_unadvertise H payload h)" "keeps inv_chan (handle_unadvertise H payload h)"
  "keeps inv_login (handle_unadvertise H payload h)" "keeps inv_graph (handle_unadvertise H payload h)"
  unfolding handle_unadvertise_def update_publications_def
  by (intro keeps_intros keeps_modify keeps_calls on_key_state_invs keeps_update_client keeps_graph_update_client;
      simp add: other_members)+

lemma keeps_handle_subscribe_graph:
  "keeps inv_subs (handle_subscribe_connection_graph H h)"
  "keeps inv_chan (handle_subscribe_connection_graph H h)"
  "keeps inv_adv (handle_subscribe_connection_graph H h)"
  "keeps inv_login (handle_subscribe_connection_graph H h)"
  unfolding handle_subscribe_connection_graph_def add_graph_count_def
  by (intro keeps_intros keeps_modify keeps_calls on_key_state_invs keeps_update_client;
      simp add: other_members)+

lemma keeps_handle_unsubscribe_graph:
  "keeps inv_subs (handle_unsubscribe_connection_graph H h)"
  "keeps inv_chan (handle_unsubscribe_connection_graph H h)"
  "keeps inv_adv (handle_unsubscribe_connection_graph H h)"
  "keeps inv_login (handle_unsubscribe_connection_graph H h)"
  unfolding handle_unsubscribe_connection_graph_def add_graph_count_def
  by (intro keeps_intros keeps_modify keeps_calls on_key_state_invs keeps_update_client;
      simp add: other_members)+

end

subsection \<open>Login\<close>

definition logged_out :: "hdl list \<Rightarrow> 'e server_scheme \<Rightarrow> bool" where
  "logged_out hs s = (\<forall>h \<in> set hs. \<forall>c. m_find (clients s) h = Some c \<longrightarrow> \<not> login c)"

lemma on_key_state_login: "on_key_state (\<lambda>s. inv_login s \<and> logged_out hs s \<and> m_keys (clients s) = ks)"
  unfolding on_key_state_def key_state_def inv_login_def logged_out_def by auto

lemma keys_with_client [simp]: "m_keys (clients (with_client h f s)) = m_keys (clients s)"
  using m_find_None_iff [of "clients s" h] by (auto simp: with_client_def split: option.split)

text \<open>After the loop over the clients nobody is logged in.\<close>

lemma kick_loop:
  "triple (\<lambda>s. inv_login s \<and> logged_out done s \<and> m_keys (clients s) = ks)
     (for_each hs (\<lambda>k. bind (get_con_from_hdl k) (\<lambda>con.
        seq (discard (con_send k con f True)) (update_client k (\<lambda>c. c\<lparr>login := False\<rparr>)))))
     (\<lambda>_ s. inv_login s \<and> logged_out (done @ hs) s \<and> m_keys (clients s) = ks) inv_login"
proof (induction hs arbitrary: "done")
  case Nil
  show ?case by (simp add: triple_ret)
next
  case (Cons k hs)
  let ?I = "\<lambda>done s. inv_login s \<and> logged_out done s \<and> m_keys (clients s) = ks"
  have "triple (?I done) (update_client k (\<lambda>c. c\<lparr>login := False\<rparr>)) (\<lambda>_. ?I (done @ [k])) inv_login"
    unfolding update_client_modify
    by (rule triple_modify) (fastforce simp: inv_login_def logged_out_def split: if_splits)
  then have "triple (?I done) (bind (get_con_from_hdl k) (\<lambda>con.
      seq (discard (con_send k con f True)) (update_client k (\<lambda>c. c\<lparr>login := False\<rparr>)))) (\<lambda>_. ?I (done @ [k])) inv_login"
    by (intro triple_bind [OF triple_quiet] triple_seq [OF triple_quiet] keeps_intros keeps_sends
        on_key_state_login) auto
  then show ?case
    using Cons.IH [of "done @ [k]"] unfolding for_each.simps by (intro triple_seq) auto
qed

lemma emplace_login:
  assumes "logged_out (m_keys (clients s)) s"
  shows "inv_login (s\<lparr>clients := m_emplace h c (clients s)\<rparr>)"
proof -
  have "m_find (clients s) k = Some d \<Longrightarrow> \<not> login d" for k d
    using assms m_find_None_iff [of "clients s" k] by (auto simp: logged_out_def)
  then show ?thesis
    by (auto simp: inv_login_def split: if_splits)
qed

lemma keeps_login_handle_login: "keeps inv_login (handle_login payload h)"
proof -
  have start: "triple (\<lambda>s. inv_login s \<and> clients s = cs)
      (for_each (m_keys cs) (\<lambda>k. bind (get_con_from_hdl k) (\<lambda>con.
        seq (discard (con_send k con f True)) (update_client k (\<lambda>c. c\<lparr>login := False\<rparr>)))))
      (\<lambda>_ s. inv_login s \<and> logged_out (m_keys cs) s \<and> m_keys (clients s) = m_keys cs) inv_login" for cs f
    using kick_loop [of "[]" "m_keys cs" "m_keys cs" f]
    by (rule triple_conseq) (auto simp: logged_out_def)
  have emplace: "triple (\<lambda>s. inv_login s \<and> logged_out (m_keys cs) s \<and> m_keys (clients s) = m_keys cs)
      (modify (\<lambda>s. s\<lparr>clients := m_emplace h c (clients s)\<rparr>)) (\<lambda>_. inv_login) inv_login" for cs c
    by (rule triple_modify) (metis emplace_login)
  have gets: "triple inv_login (gets clients) (\<lambda>cs s. inv_login s \<and> clients s = cs) inv_login"
    by (rule triple_gets) simp
  show ?thesis
    unfolding handle_login_def keeps_def
    by (rule triple_bind [OF keeps_lift [unfolded keeps_def]], rule triple_bind [OF keeps_lift [unfolded keeps_def]],
        rule triple_bind [OF keeps_gets [unfolded keeps_def]], rule triple_bind [OF gets],
        rule triple_seq [OF start], rule triple_seq [OF emplace], fold keeps_def, intro keeps_intros)
qed

subsection \<open>Subscriptions\<close>

lemma on_key_state_subs: "on_key_state (\<lambda>s. inv_subs s \<and> channels s = chs)"
  unfolding on_key_state_def key_state_def inv_subs_def by auto

lemma triple_clients_at:
  "triple P (clients_at h) (\<lambda>c s. P s \<and> m_find (clients s) h = Some c) P"
  unfolding triple_def clients_at_def by (auto simp: cpp_defs split: option.splits)

lemma subscribe_client:
  assumes "inv_subs s" "m_contains (channels s) i"
  shows "inv_subs (with_client h (\<lambda>c. c\<lparr>subscriptions_by_channel := m_emplace i j (subscriptions_by_channel c)\<rparr>) s)"
  using assms by (fastforce simp: inv_subs_def m_contains_iff split: if_splits)

subsection \<open>Advertisements\<close>

lemma publications_assign:
  "publications k (s\<lparr>client_channels := m_assign h p (client_channels s)\<rparr>) = (if k = h then p else publications k s)"
  by (simp add: publications_def)

lemma publications_emplace:
  "publications k (s\<lparr>client_channels := m_emplace h [] (client_channels s)\<rparr>) = publications k s"
  by (auto simp: publications_def split: option.split)

lemma advertised_of_client_channels [simp]: "advertised_of k (s\<lparr>client_channels := cc\<rparr>) = advertised_of k s"
  by (simp add: advertised_of_def)

lemma advertise_both:
  fixes i :: uint32_t
  assumes "inv_adv s" "m_find (clients s) h = Some c"
  defines "t \<equiv> with_client h (\<lambda>c. c\<lparr>advertised_channels := s_insert i (advertised_channels c)\<rparr>) s"
  shows "inv_adv (t\<lparr>client_channels := m_assign h (m_emplace i adv (publications h t)) (client_channels t)\<rparr>)"
  unfolding inv_adv_def
proof
  fix k
  have pubs: "publications j t = publications j s" for j
    by (simp add: t_def)
  have "set (advertised_of k t) = (if k = h then insert i (set (advertised_of h s)) else set (advertised_of k s))"
    using assms(2) by (auto simp: t_def advertised_of_def)
  moreover have "set (advertised_of j s) = set (m_keys (publications j s))" for j
    using assms(1) by (simp add: inv_adv_def)
  ultimately show "set (advertised_of k (t\<lparr>client_channels := m_assign h (m_emplace i adv (publications h t)) (client_channels t)\<rparr>)) =
      set (m_keys (publications k (t\<lparr>client_channels := m_assign h (m_emplace i adv (publications h t)) (client_channels t)\<rparr>)))"
    by (auto simp: publications_assign pubs)
qed

lemma unadvertise_both:
  fixes i :: uint32_t
  assumes "inv_adv s" "m_find (clients s) h = Some c"
  defines "t \<equiv> s\<lparr>client_channels := m_assign h (m_erase i (publications h s)) (client_channels s)\<rparr>"
  shows "inv_adv (with_client h (\<lambda>c. c\<lparr>advertised_channels := s_erase i (advertised_channels c)\<rparr>) t)"
  unfolding inv_adv_def
proof
  fix k
  have "set (advertised_of k (with_client h (\<lambda>c. c\<lparr>advertised_channels := s_erase i (advertised_channels c)\<rparr>) t)) =
      (if k = h then set (advertised_of h s) - {i} else set (advertised_of k s))"
    using assms(2) by (auto simp: t_def advertised_of_def)
  moreover have "set (advertised_of j s) = set (m_keys (publications j s))" for j
    using assms(1) by (simp add: inv_adv_def)
  ultimately show "set (advertised_of k (with_client h (\<lambda>c. c\<lparr>advertised_channels := s_erase i (advertised_channels c)\<rparr>) t)) =
      set (m_keys (publications k (with_client h (\<lambda>c. c\<lparr>advertised_channels := s_erase i (advertised_channels c)\<rparr>) t)))"
    by (simp add: t_def publications_assign)
qed

lemma keeps_advertise_both:
  "keeps inv_adv (bind (clients_at h) (\<lambda>_.
     seq (update_client h (\<lambda>c. c\<lparr>advertised_channels := s_insert i (advertised_channels c)\<rparr>))
       (update_publications h (m_emplace i adv))))"
  "keeps inv_adv (bind (clients_at h) (\<lambda>_.
     seq (update_publications h (m_erase i))
       (update_client h (\<lambda>c. c\<lparr>advertised_channels := s_erase i (advertised_channels c)\<rparr>))))"
proof -
  show "keeps inv_adv (bind (clients_at h) (\<lambda>_.
     seq (update_client h (\<lambda>c. c\<lparr>advertised_channels := s_insert i (advertised_channels c)\<rparr>))
       (update_publications h (m_emplace i adv))))"
    unfolding keeps_def update_client_modify update_publications_def modify_modify
    by (rule triple_bind [OF triple_clients_at], rule triple_modify) (elim conjE, rule advertise_both)
  show "keeps inv_adv (bind (clients_at h) (\<lambda>_.
     seq (update_publications h (m_erase i))
       (update_client h (\<lambda>c. c\<lparr>advertised_channels := s_erase i (advertised_channels c)\<rparr>))))"
    unfolding keeps_def update_client_modify update_publications_def modify_modify
    by (rule triple_bind [OF triple_clients_at], rule triple_modify) (elim conjE, rule unadvertise_both)
qed

context server_handlers
begin

lemma keeps_subs_handle_subscribe: "keeps inv_subs (handle_subscribe H payload h)"
proof -
  have step: "keeps (\<lambda>s. inv_subs s \<and> channels s = chs)
      (update_client h (\<lambda>c. c\<lparr>subscriptions_by_channel := m_emplace i j (subscriptions_by_channel c)\<rparr>))"
    if "m_contains chs i" for chs i j
    unfolding update_client_modify using that by (intro keeps_modify) (auto intro: subscribe_client)
  show ?thesis
    unfolding handle_subscribe_def
    by (intro keeps_bind [OF keeps_clients_at] keeps_bind [OF keeps_lift] keeps_Let keeps_for_each
        keeps_if keeps_bind_gets keeps_seq keeps_sends keeps_calls on_key_state_subs on_key_state_invs step) auto
qed

lemma keeps_adv_handle_advertise: "keeps inv_adv (handle_advertise H payload h)"
  unfolding handle_advertise_def advertise_channel_def
  by (intro keeps_advertise_both keeps_calls on_key_state_invs keeps_modify keeps_intros;
      simp add: inv_adv_def publications_emplace)

lemma keeps_adv_handle_unadvertise: "keeps inv_adv (handle_unadvertise H payload h)"
  unfolding handle_unadvertise_def
  by (intro keeps_advertise_both keeps_calls on_key_state_invs keeps_intros)

end

subsection \<open>Connection graph\<close>

text \<open>The invariant with \<open>d\<close> to spare, as it holds in the middle of an operation.\<close>

definition graph_slack :: "int \<Rightarrow> 'e server_scheme \<Rightarrow> bool" where
  "graph_slack d s = (int (card (graph_flagged s)) + d \<le> subscription_count (conn_graph s))"

lemma on_key_state_slack: "on_key_state (graph_slack d)"
  unfolding on_key_state_def key_state_def graph_slack_def graph_flagged_def by auto

lemma graph_slack_0: "graph_slack 0 = inv_graph"
  by (simp add: fun_eq_iff graph_slack_def inv_graph_def)

lemma graph_slack_inv: "graph_slack d s \<Longrightarrow> 0 \<le> d \<Longrightarrow> inv_graph s"
  by (simp add: graph_slack_def inv_graph_def)

lemma slack_count:
  "graph_slack d s \<Longrightarrow> graph_slack (d + e)
     (s\<lparr>conn_graph := (conn_graph s)\<lparr>subscription_count := subscription_count (conn_graph s) + e\<rparr>\<rparr>)"
  by (simp add: graph_slack_def graph_flagged_def)

lemma slack_flag:
  assumes "graph_slack 1 s"
  shows "inv_graph (with_client h (\<lambda>c. c\<lparr>subscribed_to_connection_graph := True\<rparr>) s)"
proof -
  have "graph_flagged (with_client h (\<lambda>c. c\<lparr>subscribed_to_connection_graph := True\<rparr>) s) \<subseteq> insert h (graph_flagged s)"
    by (auto simp: graph_flagged_def)
  then have "card (graph_flagged (with_client h (\<lambda>c. c\<lparr>subscribed_to_connection_graph := True\<rparr>) s)) \<le>
      card (insert h (graph_flagged s))"
    by (intro card_mono) simp_all
  also have "\<dots> \<le> Suc (card (graph_flagged s))"
    by (rule card_insert_le_m1) simp_all
  finally show ?thesis
    using assms by (simp add: graph_slack_def inv_graph_def)
qed

lemma slack_unflag:
  assumes "inv_graph s" "m_find (clients s) h = Some c" "subscribed_to_connection_graph c"
    and "graph_flagged t = graph_flagged s - {h}" "conn_graph t = conn_graph s"
  shows "graph_slack 1 t"
proof -
  have "h \<in> graph_flagged s"
    using assms(2,3) by (simp add: graph_flagged_def)
  then have "card (graph_flagged s) = Suc (card (graph_flagged t))"
    unfolding assms(4) by (rule card.remove [OF finite_graph_flagged])
  then show ?thesis
    using assms(1,5) by (simp add: inv_graph_def graph_slack_def)
qed

lemma slack_erase:
  assumes "inv_graph s" "m_find (clients s) h = Some c"
  shows "graph_slack (if subscribed_to_connection_graph c then 1 else 0) (s\<lparr>clients := m_erase h (clients s)\<rparr>)"
proof (cases "subscribed_to_connection_graph c")
  case True
  have "graph_slack 1 (s\<lparr>clients := m_erase h (clients s)\<rparr>)"
    by (rule slack_unflag [OF assms True]) (auto simp: graph_flagged_def split: if_splits)
  with True show ?thesis by simp
next
  case False
  then have "graph_flagged (s\<lparr>clients := m_erase h (clients s)\<rparr>) = graph_flagged s"
    using assms(2) by (auto simp: graph_flagged_def split: if_splits)
  with False assms(1) show ?thesis
    by (simp add: inv_graph_def graph_slack_def)
qed

text \<open>Adding \<open>e\<close> to the count adds \<open>e\<close> to the slack.\<close>

lemma triple_graph_count: "triple (graph_slack d) (add_graph_count e) (\<lambda>_. graph_slack (d + e)) E"
  unfolding add_graph_count_def by (intro triple_modify slack_count)

context server_handlers
begin

lemma keeps_graph_handle_subscribe_graph: "keeps inv_graph (handle_subscribe_connection_graph H h)"
proof -
  have flag: "triple (graph_slack 1) (bind (clients_at h) (\<lambda>_.
      update_client h (\<lambda>c. c\<lparr>subscribed_to_connection_graph := True\<rparr>))) (\<lambda>_. inv_graph) inv_graph"
    unfolding update_client_modify
    by (rule triple_bind [OF triple_quiet [OF keeps_clients_at]], erule graph_slack_inv, simp)
      (intro triple_modify slack_flag)
  have "triple (graph_slack 1) (seq (call (subscribe_connection_graph_handler H) (\<lambda>f. f True))
      (bind (clients_at h) (\<lambda>_. update_client h (\<lambda>c. c\<lparr>subscribed_to_connection_graph := True\<rparr>))))
      (\<lambda>_. inv_graph) inv_graph"
    by (rule triple_seq [OF triple_quiet [OF keeps_calls(5) [OF on_key_state_slack]] flag])
      (erule graph_slack_inv, simp)
  then have first: "triple (graph_slack 1) (whenever b (seq (call (subscribe_connection_graph_handler H) (\<lambda>f. f True))
      (bind (clients_at h) (\<lambda>_. update_client h (\<lambda>c. c\<lparr>subscribed_to_connection_graph := True\<rparr>)))))
      (\<lambda>_. inv_graph) inv_graph" for b
    unfolding whenever_def by (cases b) (auto intro!: triple_ret elim: graph_slack_inv)
  have count: "triple inv_graph (add_graph_count 1) (\<lambda>_. graph_slack 1) inv_graph"
    using triple_graph_count [of 0 1 inv_graph] by (simp add: graph_slack_0)
  have rest: "triple inv_graph (bind (gets conn_graph) (\<lambda>g. send_raw_json h
      (graph_update_json (published_topics g) (subscribed_topics g) (advertised_services g) [] []) True))
      (\<lambda>_. inv_graph) inv_graph"
    unfolding keeps_def [symmetric] by (intro keeps_intros)
  show ?thesis
    unfolding handle_subscribe_connection_graph_def keeps_def
    by (rule triple_seq [OF count], rule triple_bind [OF triple_gets], assumption,
        rule triple_seq [OF first rest])
qed

lemma keeps_graph_handle_unsubscribe_graph: "keeps inv_graph (handle_unsubscribe_connection_graph H h)"
proof -
  have unflag: "triple (\<lambda>s. inv_graph s \<and> m_find (clients s) h = Some c)
      (update_client h (\<lambda>c. c\<lparr>subscribed_to_connection_graph := False\<rparr>)) (\<lambda>_. graph_slack 1) inv_graph"
    if "subscribed_to_connection_graph c" for c
    unfolding update_client_modify
    by (rule triple_modify, elim conjE, rule slack_unflag, assumption, assumption, rule that)
      (auto simp: graph_flagged_def split: if_splits)
  have count: "triple (graph_slack 1) (add_graph_count (- 1)) (\<lambda>_. inv_graph) inv_graph"
    using triple_graph_count [of 1 "- 1" inv_graph] by (simp add: graph_slack_0)
  have rest: "triple inv_graph (bind (gets (\<lambda>s. subscription_count (conn_graph s) = 0)) (\<lambda>b.
      whenever b (call (subscribe_connection_graph_handler H) (\<lambda>f. f False)))) (\<lambda>_. inv_graph) inv_graph"
    unfolding keeps_def [symmetric] by (intro keeps_calls on_key_state_invs keeps_intros)
  have no: "triple (\<lambda>s. inv_graph s \<and> m_find (clients s) h = Some c)
      (send_status_and_log_msg h l m) (\<lambda>_. inv_graph) inv_graph" for c l m
    by (rule triple_conseq [OF invs_sends(24) [unfolded keeps_def]]) auto
  show ?thesis
    unfolding handle_unsubscribe_connection_graph_def keeps_def
    by (rule triple_bind [OF triple_clients_at], rule triple_if)
      (erule triple_seq [OF unflag], rule triple_seq [OF count rest], rule no)
qed

end

subsection \<open>A connection closed\<close>

text \<open>Nothing leaves \<open>ignoring\<close>.\<close>

lemma triple_ignoring: "keeps P m \<Longrightarrow> triple P (ignoring m) (\<lambda>_. P) E"
  unfolding ignoring_def catch_all_def keeps_def
  by (erule triple_try_catch) (simp add: triple_ret split: option.split)

lemma triple_option:
  "(x = None \<Longrightarrow> triple P m Q E) \<Longrightarrow> (\<And>a. x = Some a \<Longrightarrow> triple P (k a) Q E) \<Longrightarrow>
     triple P (case x of None \<Rightarrow> m | Some a \<Rightarrow> k a) Q E"
  by (cases x) auto

text \<open>The client is gone but its publications are still there.\<close>

definition adv_but :: "hdl \<Rightarrow> 'e server_scheme \<Rightarrow> bool" where
  "adv_but h s = (m_find (clients s) h = None \<and>
     (\<forall>k. k \<noteq> h \<longrightarrow> set (advertised_of k s) = set (m_keys (publications k s))))"

lemma on_key_state_adv_but: "on_key_state (adv_but h)"
  unfolding on_key_state_def key_state_def adv_but_def advertised_of_def publications_def by auto

lemma adv_but_erase: "inv_adv s \<Longrightarrow> adv_but h (s\<lparr>clients := m_erase h (clients s)\<rparr>)"
  by (auto simp: adv_but_def inv_adv_def advertised_of_def split: option.splits)

lemma adv_but_done: "adv_but h s \<Longrightarrow> inv_adv (s\<lparr>client_channels := m_erase h (client_channels s)\<rparr>)"
  unfolding inv_adv_def
proof
  fix k
  assume "adv_but h s"
  then show "set (advertised_of k (s\<lparr>client_channels := m_erase h (client_channels s)\<rparr>)) =
      set (m_keys (publications k (s\<lparr>client_channels := m_erase h (client_channels s)\<rparr>)))"
    by (cases "k = h") (auto simp: adv_but_def advertised_of_def publications_def m_keys_def)
qed

context server_handlers
begin

text \<open>The handlers called for a client that left.\<close>

definition closing_unadvertise :: "hdl \<Rightarrow> uint32_t \<Rightarrow> ('e server_scheme, unit) cpp" where
  "closing_unadvertise h i =
     (case client_unadvertise_handler H of None \<Rightarrow> ret () | Some f \<Rightarrow> ignoring (f i h))"

definition closing_unsubscribe :: "hdl \<Rightarrow> (uint32_t \<times> uint32_t) list \<Rightarrow> ('e server_scheme, unit) cpp" where
  "closing_unsubscribe h subs =
     (case unsubscribe_handler H of
        None \<Rightarrow> ret ()
      | Some f \<Rightarrow> for_each subs (\<lambda>(i, _). ignoring (f i h)))"

definition closing_graph :: "bool \<Rightarrow> ('e server_scheme, unit) cpp" where
  "closing_graph b =
     (case subscribe_connection_graph_handler H of
        None \<Rightarrow> ret ()
      | Some f \<Rightarrow> whenever b (ignoring (f False)))"

lemma triple_closing_unadvertise:
  assumes "on_key_state P"
  shows "triple P (closing_unadvertise h i) (\<lambda>_. P) E"
  unfolding closing_unadvertise_def
  by (rule triple_option) (simp add: triple_ret, rule triple_ignoring, erule keeps_found(2) [OF assms])

lemma keeps_closing:
  assumes "on_key_state P"
  shows "keeps P (closing_unadvertise h i)" "keeps P (closing_unsubscribe h subs)" "keeps P (closing_graph b)"
proof -
  show "keeps P (closing_unadvertise h i)"
    unfolding keeps_def by (rule triple_closing_unadvertise [OF assms])
  show "keeps P (closing_unsubscribe h subs)"
    unfolding closing_unsubscribe_def
    by (rule keeps_option, rule keeps_ret, rule keeps_for_each, rule keeps_prod, rule keeps_ignoring)
      (erule keeps_found(1) [OF assms])
  show "keeps P (closing_graph b)"
    unfolding closing_graph_def
    by (rule keeps_option, rule keeps_ret, rule keeps_whenever, rule keeps_ignoring)
      (erule keeps_found(3) [OF assms])
qed

lemma handle_connection_closed_alt:
  "handle_connection_closed H h =
     bind (gets clients) (\<lambda>cs.
     case m_find cs h of
       None \<Rightarrow> ret ()
     | Some client \<Rightarrow>
         seq (modify (\<lambda>s. s\<lparr>clients := m_erase h (clients s)\<rparr>)) (
         seq (for_each (advertised_channels client) (closing_unadvertise h)) (
         seq (modify (\<lambda>s. s\<lparr>client_channels := m_erase h (client_channels s)\<rparr>)) (
         seq (closing_unsubscribe h (subscriptions_by_channel client)) (
         bind (gets (param_names_of h)) (\<lambda>ns.
         seq (modify (\<lambda>s. s\<lparr>client_param_subscriptions := m_erase h (client_param_subscriptions s)\<rparr>)) (
         seq (unsubscribe_params_without_subscriptions H h ns) (
         whenever (subscribed_to_connection_graph client) (
           seq (add_graph_count (- 1)) (
           bind (gets (\<lambda>s. subscription_count (conn_graph s) = 0)) closing_graph))))))))))"
  unfolding handle_connection_closed_def closing_unadvertise_def [abs_def] closing_unsubscribe_def
    closing_graph_def [abs_def] by simp

lemma keeps_handle_connection_closed:
  "keeps inv_subs (handle_connection_closed H h)" "keeps inv_chan (handle_connection_closed H h)"
  "keeps inv_login (handle_connection_closed H h)"
  unfolding handle_connection_closed_alt add_graph_count_def
  by (intro keeps_closing keeps_unsubscribe_params on_key_state_invs keeps_modify keeps_intros;
      simp add: erase_client emplace_client other_members)+

lemma keeps_adv_handle_connection_closed: "keeps inv_adv (handle_connection_closed H h)"
proof -
  have erase: "triple inv_adv (modify (\<lambda>s. s\<lparr>clients := m_erase h (clients s)\<rparr>)) (\<lambda>_. adv_but h) inv_adv"
    by (intro triple_modify adv_but_erase)
  have handlers: "triple (adv_but h) (for_each is (closing_unadvertise h)) (\<lambda>_. adv_but h) inv_adv" for "is"
    by (intro triple_for_each triple_closing_unadvertise on_key_state_adv_but)
  have erase': "triple (adv_but h) (modify (\<lambda>s. s\<lparr>client_channels := m_erase h (client_channels s)\<rparr>))
      (\<lambda>_. inv_adv) inv_adv"
    by (intro triple_modify adv_but_done)
  show ?thesis
    unfolding handle_connection_closed_alt add_graph_count_def
    by (intro keeps_bind [OF keeps_gets] keeps_option keeps_ret,
        unfold keeps_def, rule triple_seq [OF erase], rule triple_seq [OF handlers],
        rule triple_seq [OF erase'], fold keeps_def,
        intro keeps_closing keeps_unsubscribe_params on_key_state_invs keeps_modify keeps_intros;
        simp add: other_members)
qed

lemma keeps_graph_handle_connection_closed: "keeps inv_graph (handle_connection_closed H h)"
proof -
  let ?d = "\<lambda>c. if subscribed_to_connection_graph c then 1 else 0 :: int"
  have erase: "triple (\<lambda>s. inv_graph s \<and> m_find (clients s) h = Some c)
      (modify (\<lambda>s. s\<lparr>clients := m_erase h (clients s)\<rparr>)) (\<lambda>_. graph_slack (?d c)) inv_graph" for c
    by (rule triple_modify, elim conjE, rule slack_erase)
  have middle: "keeps (graph_slack (?d c)) (for_each xs (closing_unadvertise h))"
    "keeps (graph_slack (?d c)) (modify (\<lambda>s. s\<lparr>client_channels := m_erase h (client_channels s)\<rparr>))"
    "keeps (graph_slack (?d c)) (closing_unsubscribe h ys)"
    "keeps (graph_slack (?d c)) (modify (\<lambda>s. s\<lparr>client_param_subscriptions := m_erase h (client_param_subscriptions s)\<rparr>))"
    "keeps (graph_slack (?d c)) (unsubscribe_params_without_subscriptions H h ns)" for c xs ys ns
    by (intro keeps_for_each keeps_closing keeps_unsubscribe_params on_key_state_slack keeps_modify;
        simp add: graph_slack_def graph_flagged_def)+
  have count: "triple (graph_slack (?d c)) (whenever (subscribed_to_connection_graph c) (seq (add_graph_count (- 1))
      (bind (gets (\<lambda>s. subscription_count (conn_graph s) = 0)) closing_graph))) (\<lambda>_. inv_graph) inv_graph" for c
  proof (cases "subscribed_to_connection_graph c")
    case True
    have "triple (graph_slack 1) (add_graph_count (- 1)) (\<lambda>_. inv_graph) inv_graph"
      using triple_graph_count [of 1 "- 1" inv_graph] by (simp add: graph_slack_0)
    moreover have "triple inv_graph (bind (gets (\<lambda>s. subscription_count (conn_graph s) = 0)) closing_graph)
        (\<lambda>_. inv_graph) inv_graph"
      unfolding keeps_def [symmetric]
      by (intro keeps_bind [OF keeps_gets] keeps_closing on_key_state_invs)
    ultimately show ?thesis
      using True by (auto simp: whenever_def intro: triple_seq)
  next
    case False
    then show ?thesis by (auto simp: whenever_def graph_slack_0 intro: triple_ret)
  qed
  note quiet = triple_quiet [where E = inv_graph, OF _ graph_slack_inv]
  have gets: "triple inv_graph (gets clients) (\<lambda>cs s. inv_graph s \<and> clients s = cs) inv_graph"
    by (rule triple_gets) simp
  show ?thesis
    unfolding handle_connection_closed_alt keeps_def
  proof (rule triple_bind [OF gets], rule triple_option)
    fix cs :: "(hdl \<times> client_info) list" and c
    assume "m_find cs h = Some c"
    then have "triple (\<lambda>s. inv_graph s \<and> clients s = cs)
        (modify (\<lambda>s. s\<lparr>clients := m_erase h (clients s)\<rparr>)) (\<lambda>_. graph_slack (?d c)) inv_graph"
      by (intro triple_conseq [OF erase]) auto
    then show "triple (\<lambda>s. inv_graph s \<and> clients s = cs)
      (seq (modify (\<lambda>s. s\<lparr>clients := m_erase h (clients s)\<rparr>)) (
         seq (for_each (advertised_channels c) (closing_unadvertise h)) (
         seq (modify (\<lambda>s. s\<lparr>client_channels := m_erase h (client_channels s)\<rparr>)) (
         seq (closing_unsubscribe h (subscriptions_by_channel c)) (
         bind (gets (param_names_of h)) (\<lambda>ns.
         seq (modify (\<lambda>s. s\<lparr>client_param_subscriptions := m_erase h (client_param_subscriptions s)\<rparr>)) (
         seq (unsubscribe_params_without_subscriptions H h ns) (
         whenever (subscribed_to_connection_graph c) (
           seq (add_graph_count (- 1)) (
           bind (gets (\<lambda>s. subscription_count (conn_graph s) = 0)) closing_graph)))))))))) (\<lambda>_. inv_graph) inv_graph"
      by (rule triple_seq,
        intro triple_seq [OF quiet [OF middle(1)]] triple_seq [OF quiet [OF middle(2)]]
          triple_seq [OF quiet [OF middle(3)]] triple_seq [OF quiet [OF middle(4)]]
          triple_seq [OF quiet [OF middle(5)]] triple_bind [OF quiet [OF keeps_gets]] count)
        auto
  qed (auto intro: triple_ret)
qed

end

section \<open>Messages\<close>

definition server_inv :: "'e server_scheme \<Rightarrow> bool" where
  "server_inv s = (inv_subs s \<and> inv_chan s \<and> inv_adv s \<and> inv_login s \<and> inv_graph s)"

lemma keeps_server_inv:
  "keeps inv_subs m \<Longrightarrow> keeps inv_chan m \<Longrightarrow> keeps inv_adv m \<Longrightarrow> keeps inv_login m \<Longrightarrow> keeps inv_graph m \<Longrightarrow>
     keeps server_inv m"
  unfolding server_inv_def [abs_def] by (intro keeps_conj)

lemma on_key_state_conj: "on_key_state P \<Longrightarrow> on_key_state Q \<Longrightarrow> on_key_state (\<lambda>s. P s \<and> Q s)"
  unfolding on_key_state_def [of "\<lambda>s. P s \<and> Q s"] by (intro allI impI conjI; elim conjE; erule (2) on_key_stateD)

lemma on_key_state_server_inv: "on_key_state server_inv"
  unfolding server_inv_def [abs_def] by (intro on_key_state_conj on_key_state_invs)

lemmas keeps_inv_sends [keeps_intros] = keeps_sends [OF on_key_state_server_inv]

lemma keeps_inv_quiet: "framed key_state m \<Longrightarrow> keeps server_inv m"
  by (rule on_key_state_keeps [OF on_key_state_server_inv])

lemma keeps_report_exception: "keeps server_inv (report_exception h op e)"
  unfolding report_exception_def
  by (cases "exn_id e"; cases "exn_what e"; simp only: prod.case option.case; rule keeps_inv_sends)

context server_handlers
begin

lemma keeps_inv_requests:
  "keeps server_inv (handle_login payload h)"
  "keeps server_inv (handle_subscribe H payload h)"
  "keeps server_inv (handle_unsubscribe H payload h)"
  "keeps server_inv (handle_advertise H payload h)"
  "keeps server_inv (handle_unadvertise H payload h)"
  "keeps server_inv (handle_subscribe_connection_graph H h)"
  "keeps server_inv (handle_unsubscribe_connection_graph H h)"
  "keeps server_inv (handle_connection_closed H h)"
  by (rule keeps_server_inv;
      rule keeps_handle_login keeps_login_handle_login keeps_handle_subscribe keeps_subs_handle_subscribe
        keeps_handle_unsubscribe keeps_handle_advertise keeps_adv_handle_advertise
        keeps_handle_unadvertise keeps_adv_handle_unadvertise keeps_handle_subscribe_graph
        keeps_graph_handle_subscribe_graph keeps_handle_unsubscribe_graph
        keeps_graph_handle_unsubscribe_graph keeps_handle_connection_closed
        keeps_adv_handle_connection_closed keeps_graph_handle_connection_closed)+

lemma keeps_inv_dispatch_op: "keeps server_inv (dispatch_op H op payload h)"
  unfolding dispatch_op_def Let_def
  by (intro keeps_if keeps_inv_requests keeps_inv_sends framed_parameter_requests [THEN keeps_inv_quiet])

lemma keeps_inv_text_message: "keeps server_inv (handle_text_message parse H h text)"
  unfolding handle_text_message_def
  by (intro keeps_intros keeps_inv_dispatch_op keeps_report_exception)

lemma keeps_inv_message: "keeps server_inv (handle_message parse now H h msg)"
  unfolding handle_message_def
  by (cases msg; simp only: ws_message.case; rule keeps_catch_all;
      rule keeps_inv_sends keeps_inv_text_message framed_binary_message [THEN keeps_inv_quiet] keeps_ret)

end

section \<open>Runs of the server\<close>

text \<open>What the transport makes happen on the server.\<close>

datatype transport_event =
    Accepted hdl conn_info
  | Validate hdl
  | Opened hdl
  | Received hdl uint64_t ws_message
  | Lost hdl
  | Closed hdl

fun transport_run ::
    "(string \<Rightarrow> json outcome) \<Rightarrow> ('e server_scheme) handlers \<Rightarrow> transport_event \<Rightarrow> ('e server_scheme, unit) cpp" where
  "transport_run parse H (Accepted h con) = modify (\<lambda>s. s\<lparr>conns := m_emplace h con (conns s)\<rparr>)"
| "transport_run parse H (Validate h) = discard (validate_connection h)"
| "transport_run parse H (Opened h) = handle_connection_opened h"
| "transport_run parse H (Received h now msg) = handle_message parse now H h msg"
| "transport_run parse H (Lost h) = modify (\<lambda>s. s\<lparr>conns := m_erase h (conns s)\<rparr>)"
| "transport_run parse H (Closed h) = handle_connection_closed H h"

lemma server_inv_start:
  assumes "server.truncate s = Server name opts"
  shows "server_inv s"
proof -
  have "clients s = []" "channels s = []" "client_channels s = []" "subscription_count (conn_graph s) = 0"
    using assms by (simp_all add: Server_def server.defs initial_graph_def)
  then show ?thesis
    by (simp add: server_inv_def inv_defs m_keys_def)
qed

lemma keeps_outcome:
  assumes "keeps P m" "P s" "m s = (r, t)" "\<And>what. r \<noteq> UB what"
  shows "P t"
  using assms by (cases r) (auto simp: keeps_def dest: triple_Ok triple_Throw)

lemma framed_discard: "framed f m \<Longrightarrow> framed f (discard m)"
  unfolding framed_def by (blast intro: keeps_discard)

lemma keeps_inv_channels: "keeps server_inv (add_channels chs)" "keeps server_inv (remove_channels ids)"
  by (intro keeps_server_inv keeps_add_channels keeps_remove_channels)+

lemma keeps_conns: "keeps server_inv (modify (\<lambda>s. s\<lparr>conns := f s\<rparr>))"
  by (intro keeps_inv_quiet framed_modify) (simp add: key_state_def)

context server_handlers
begin

lemma keeps_inv_transport: "keeps server_inv (transport_run parse H e)"
  by (cases e; simp only: transport_run.simps;
      rule keeps_conns keeps_inv_message keeps_inv_requests framed_quiet [THEN keeps_inv_quiet]
        keeps_inv_quiet [OF framed_quiet(10) [THEN framed_discard]])

end

end
