(* ===== verification/Message_Definitions.thy ===== *)
theory Message_Definitions
  imports Json
begin

text \<open>
  The cache of message definitions of the ROS 2 bridge (\<open>message_definition_cache.cpp\<close>): the
  definitions of message, service and action types are read from the share directories of their
  packages and concatenated with everything they depend on.  The index of installed packages and the
  file system are the argument \<open>A\<close>; the regular expressions of the source are written out as
  matchers.
\<close>

section \<open>Formats and names\<close>

datatype MessageDefinitionFormat = IDL | MSG | SRV_REQ | SRV_RESP

record message_spec =
  dependencies :: "string list"
  spec_text :: string
  spec_format :: MessageDefinitionFormat

record definition_identifier =
  def_format :: MessageDefinitionFormat
  package_resource_name :: string

type_synonym definition_cache = "(definition_identifier \<times> message_spec) list"

record ament =
  get_package_share_directory :: "string \<Rightarrow> string + string"
  rosidl_interfaces :: "string \<Rightarrow> string option"
  file_contents :: "string \<Rightarrow> string option"

text \<open>\<open>get_package_share_directory\<close> throws a \<open>PackageNotFoundError\<close>, a \<open>std::exception\<close>.\<close>

definition share_directory :: "ament \<Rightarrow> string \<Rightarrow> string outcome" where
  "share_directory A package =
     (case get_package_share_directory A package of
        Inl what \<Rightarrow> Throw (StdException what)
      | Inr dir \<Rightarrow> Ok dir)"

definition NL :: string where
  "NL = [CHR 0x0A]"

definition is_space :: "char \<Rightarrow> bool" where
  "is_space c = (c = CHR 0x20 \<or> 9 \<le> (of_char c :: nat) \<and> (of_char c :: nat) \<le> 13)"

text \<open>The character class \<open>[a-zA-Z0-9_]\<close>, and the same with a slash.\<close>

definition name_char :: "char \<Rightarrow> bool" where
  "name_char c =
     (let n = (of_char c :: nat)
      in 97 \<le> n \<and> n \<le> 122 \<or> 65 \<le> n \<and> n \<le> 90 \<or> 48 \<le> n \<and> n \<le> 57 \<or> n = 95)"

definition field_char :: "char \<Rightarrow> bool" where
  "field_char c = (name_char c \<or> c = CHR ''/'')"

section \<open>Strings\<close>

text \<open>\<open>split_string\<close>; no caller passes an empty delimiter, with which the loop would not end.\<close>

function split_string :: "string \<Rightarrow> string \<Rightarrow> string list" where
  "split_string str delim =
     (case str_find0 delim str of
        Some pos \<Rightarrow>
          if delim = [] then [str]
          else take pos str # split_string (drop (pos + length delim) str) delim
      | None \<Rightarrow> [str])"
  by pat_completeness auto

termination
proof (relation "measure (\<lambda>(str, _). length str)")
  fix str delim :: string and pos
  assume "str_find0 delim str = Some pos" "delim \<noteq> []"
  then show "((drop (pos + length delim) str, delim), (str, delim)) \<in> measure (\<lambda>(str, _). length str)"
    by (auto dest!: str_find0_Some) (metis add_pos_pos add_is_0 diff_less length_greater_0_conv le_zero_eq neq0_conv)
qed simp

declare split_string.simps [simp del]

definition ends_with :: "string \<Rightarrow> string \<Rightarrow> bool" where
  "ends_with str suffix =
     (length suffix \<le> length str \<and> drop (length str - length suffix) str = suffix)"

text \<open>\<open>std::filesystem::path(line).filename()\<close>.\<close>

definition path_filename :: "string \<Rightarrow> string" where
  "path_filename line =
     (case find_last_of line (CHR ''/'') of
        Some i \<Rightarrow> drop (Suc i) line
      | None \<Rightarrow> line)"

text \<open>A \<open>std::set\<close> of strings is iterated in the order of its elements.\<close>

fun set_insert :: "string \<Rightarrow> string list \<Rightarrow> string list" where
  "set_insert x [] = [x]"
| "set_insert x (y # ys) =
     (if x = y then y # ys else if str_less x y then x # y # ys else y # set_insert x ys)"

section \<open>Dependencies\<close>

text \<open>\<open>PACKAGE_TYPENAME_REGEX\<close>: package, subfolder (empty when missing) and type.\<close>

definition is_name :: "string \<Rightarrow> bool" where
  "is_name s = (s \<noteq> [] \<and> list_all name_char s)"

definition match_package_typename :: "string \<Rightarrow> (string \<times> string \<times> string) option" where
  "match_package_typename s =
     (case split_string s ''/'' of
        [p, t] \<Rightarrow> if is_name p \<and> is_name t then Some (p, [], t) else None
      | [p, f, t] \<Rightarrow>
          if is_name p \<and> f \<in> {''msg'', ''srv'', ''action''} \<and> is_name t then Some (p, f, t) else None
      | _ \<Rightarrow> None)"

text \<open>
  \<open>MSG_FIELD_TYPE_REGEX\<close> at the start of a line: blanks, a type, bounds in brackets, blanks.  The
  result is the type and what follows the match.
\<close>

definition skip_bounds :: "string \<Rightarrow> string" where
  "skip_bounds s =
     (case s of
        [] \<Rightarrow> []
      | c # r \<Rightarrow>
          if c = CHR ''[''
          then (case dropWhile (\<lambda>x. x \<noteq> CHR '']'') r of [] \<Rightarrow> s | _ # r' \<Rightarrow> r')
          else s)"

definition match_field_type :: "string \<Rightarrow> (string \<times> string) option" where
  "match_field_type s =
     (let s1 = dropWhile is_space s;
          type = takeWhile field_char s1;
          s2 = skip_bounds (dropWhile field_char s1)
      in if type \<noteq> [] \<and> s2 \<noteq> [] \<and> is_space (hd s2) then Some (type, dropWhile is_space s2) else None)"

text \<open>\<open>IDL_FIELD_TYPE_REGEX\<close> at the start of a line.\<close>

definition match_idl_include :: "string \<Rightarrow> (string \<times> string) option" where
  "match_idl_include s =
     (if starts_with ''#include'' s
      then let s1 = drop 8 s;
               s2 = dropWhile is_space s1;
               s3 = drop 1 s2;
               type = takeWhile field_char s3;
               s4 = dropWhile field_char s3
           in if s2 \<noteq> s1 \<and> s2 \<noteq> [] \<and> hd s2 \<in> {CHR 0x22, CHR 0x3C} \<and> type \<noteq> [] \<and>
                 starts_with ''.idl'' s4 \<and> drop 4 s4 \<noteq> [] \<and> hd (drop 4 s4) \<in> {CHR 0x22, CHR 0x3E}
              then Some (type, drop 5 s4)
              else None
      else None)"

lemma length_skip_bounds: "length (skip_bounds s) \<le> length s"
  unfolding skip_bounds_def
  by (auto split: list.split) (metis Suc_leD Suc_le_mono length_Cons length_dropWhile_le le_SucI)

lemma match_field_type_shorter: "match_field_type s = Some (t, r) \<Longrightarrow> length r < length s"
proof -
  assume m: "match_field_type s = Some (t, r)"
  let ?s1 = "dropWhile is_space s"
  let ?s2 = "skip_bounds (dropWhile field_char ?s1)"
  from m have r: "r = dropWhile is_space ?s2" "takeWhile field_char ?s1 \<noteq> []"
    unfolding match_field_type_def Let_def by (auto split: if_splits)
  have "length ?s1 = length (takeWhile field_char ?s1) + length (dropWhile field_char ?s1)"
    by (metis length_append takeWhile_dropWhile_id)
  with r(2) have "length (dropWhile field_char ?s1) < length ?s1" by simp
  with length_skip_bounds [of "dropWhile field_char ?s1"] length_dropWhile_le [of is_space s]
    length_dropWhile_le [of is_space ?s2]
  show ?thesis unfolding r(1) by linarith
qed

lemma match_idl_include_shorter: "match_idl_include s = Some (t, r) \<Longrightarrow> length r < length s"
proof -
  assume m: "match_idl_include s = Some (t, r)"
  let ?s3 = "drop 1 (dropWhile is_space (drop 8 s))"
  from m have "starts_with ''#include'' s" "r = drop 5 (dropWhile field_char ?s3)"
    unfolding match_idl_include_def Let_def by (auto split: if_splits)
  with length_dropWhile_le [of field_char ?s3] length_dropWhile_le [of is_space "drop 8 s"]
    starts_with_length [of "''#include''" s]
  show ?thesis by simp
qed

text \<open>
  \<open>std::sregex_iterator\<close> over a regular expression that begins with \<open>(?:^|\n)\<close>: a match starts at
  the beginning of the text or at a newline, and the search goes on after the match.
\<close>

function field_types :: "(string \<Rightarrow> (string \<times> string) option) \<Rightarrow> bool \<Rightarrow> string \<Rightarrow> string list" where
  "field_types m at_begin s =
     (case (if at_begin then m s else None) of
        Some (t, r) \<Rightarrow> if length r < length s then t # field_types m False r else []
      | None \<Rightarrow>
          (case s of
             [] \<Rightarrow> []
           | c # cs \<Rightarrow>
               (case (if c = CHR 0x0A then m cs else None) of
                  Some (t, r) \<Rightarrow> if length r < length s then t # field_types m False r else []
                | None \<Rightarrow> field_types m False cs)))"
  by pat_completeness auto

termination
  by (relation "measure (\<lambda>(m, b, s). length s)") auto

declare field_types.simps [simp del]

definition PRIMITIVE_TYPES :: "string list" where
  "PRIMITIVE_TYPES =
     [''bool'', ''byte'', ''char'', ''float32'', ''float64'', ''int8'', ''uint8'', ''int16'', ''uint16'',
      ''int32'', ''uint32'', ''int64'', ''uint64'', ''string'']"

definition parse_msg_dependencies :: "string \<Rightarrow> string \<Rightarrow> string list" where
  "parse_msg_dependencies text package_context =
     fold (\<lambda>type deps.
             if type \<in> set PRIMITIVE_TYPES then deps
             else if CHR ''/'' \<notin> set type then set_insert (package_context @ ''/'' @ type) deps
             else set_insert type deps)
       (field_types match_field_type True text) []"

definition parse_idl_dependencies :: "string \<Rightarrow> string list" where
  "parse_idl_dependencies text = fold set_insert (field_types match_idl_include True text) []"

fun parse_dependencies :: "MessageDefinitionFormat \<Rightarrow> string \<Rightarrow> string \<Rightarrow> string list" where
  "parse_dependencies MSG text pkg = parse_msg_dependencies text pkg"
| "parse_dependencies SRV_RESP text pkg = parse_msg_dependencies text pkg"
| "parse_dependencies SRV_REQ text pkg = parse_msg_dependencies text pkg"
| "parse_dependencies IDL text pkg = parse_idl_dependencies text"

fun extension_for_format :: "MessageDefinitionFormat \<Rightarrow> string" where
  "extension_for_format IDL = ''.idl''"
| "extension_for_format _ = ''.msg''"

definition delimiter :: "definition_identifier \<Rightarrow> string" where
  "delimiter d =
     replicate 80 (CHR ''='') @ NL @ (case def_format d of IDL \<Rightarrow> ''IDL: '' | _ \<Rightarrow> ''MSG: '') @
     package_resource_name d @ NL"

definition MessageSpec :: "MessageDefinitionFormat \<Rightarrow> string \<Rightarrow> string \<Rightarrow> message_spec" where
  "MessageSpec f text package_context =
     \<lparr>dependencies = parse_dependencies f text package_context, spec_text = text, spec_format = f\<rparr>"

section \<open>Splitting definitions\<close>

definition split_action_msg_definition :: "string \<Rightarrow> (string \<times> string \<times> string) outcome" where
  "split_action_msg_definition action_definition =
     (case split_string action_definition (NL @ ''---'' @ NL) of
        [goal, result, feedback] \<Rightarrow> Ok (goal, result, feedback)
      | _ \<Rightarrow> Throw (StdException (''Invalid action definition:'' @ NL @ action_definition)))"

lemma str_find_Some:
  "str_find s needle pos = Some p \<Longrightarrow>
     pos \<le> p \<and> p + length needle \<le> length s \<and> take (length needle) (drop p s) = needle"
  by (auto simp: str_find_def starts_with_iff add.commute split: if_splits dest!: str_find0_Some)

lemma replace_cr_fewer:
  assumes "str_find s [c] pos = Some p" "d \<noteq> c"
  shows "count_list (take p s @ [d] @ drop (p + 1) s) c < count_list s c"
proof -
  from assms(1) have "s = take p s @ [c] @ drop (p + 1) s"
    by (metis One_nat_def Suc_eq_plus1 append_take_drop_id drop_drop length_Cons list.size(3) plus_1_eq_Suc str_find_Some)
  then have "count_list s c = count_list (take p s) c + (1 + count_list (drop (p + 1) s) c)"
    by (metis (no_types, lifting) append_Cons append_Nil count_list.simps(2) count_list_append add.commute)
  with assms(2) show ?thesis by simp
qed

text \<open>The two loops that replace the ends of lines; \<open>pos\<close> is where the next search starts.\<close>

function replace_crlf :: "nat \<Rightarrow> string \<Rightarrow> string" where
  "replace_crlf pos s =
     (case str_find s [CHR 0x0D, CHR 0x0A] pos of
        Some p \<Rightarrow> replace_crlf p (take p s @ NL @ drop (p + 2) s)
      | None \<Rightarrow> s)"
  by pat_completeness auto

termination
  by (relation "measure (\<lambda>(pos, s). length s)") (auto simp: NL_def dest!: str_find_Some)

function replace_cr :: "nat \<Rightarrow> string \<Rightarrow> string" where
  "replace_cr pos s =
     (case str_find s [CHR 0x0D] pos of
        Some p \<Rightarrow> replace_cr p (take p s @ NL @ drop (p + 1) s)
      | None \<Rightarrow> s)"
  by pat_completeness auto

termination
  by (relation "measure (\<lambda>(pos, s). count_list s (CHR 0x0D))") (auto simp: NL_def dest!: replace_cr_fewer [where d = "CHR 0x0A"])

declare replace_crlf.simps [simp del] replace_cr.simps [simp del]

fun service_lines :: "string list \<Rightarrow> bool \<Rightarrow> string \<Rightarrow> string \<Rightarrow> string \<times> string" where
  "service_lines [] is_request request response = (request, response)"
| "service_lines (line # lines) is_request request response =
     (if line = ''---'' then service_lines lines False request response
      else if is_request then service_lines lines is_request (request @ line @ NL) response
      else service_lines lines is_request request (response @ line @ NL))"

definition split_service_definition :: "string \<Rightarrow> (string \<times> string) outcome" where
  "split_service_definition service_definition =
     (let lines = split_string (replace_cr 0 (replace_crlf 0 service_definition)) NL
      in if length lines = 1 \<and> hd lines \<noteq> ''---''
         then Throw (StdException (''Invalid service definition:'' @ NL @ service_definition))
         else Ok (service_lines lines True [] []))"

definition ACTION_SUFFIXES :: "string list" where
  "ACTION_SUFFIXES =
     [''_FeedbackMessage'', ''_GetResult'' @ ''_Request'', ''_GetResult'' @ ''_Response'',
      ''_SendGoal'' @ ''_Request'', ''_SendGoal'' @ ''_Response'']"

definition remove_action_subtype :: "string \<Rightarrow> string" where
  "remove_action_subtype action_type =
     (case List.find (ends_with action_type) ACTION_SUFFIXES of
        Some suffix \<Rightarrow> take (length action_type - length suffix) action_type
      | None \<Rightarrow> action_type)"

section \<open>Loading a definition\<close>

text \<open>The first line of the index whose last component is the file.\<close>

definition index_line :: "string \<Rightarrow> string \<Rightarrow> string option" where
  "index_line index_contents filename =
     List.find (\<lambda>line. path_filename line = filename) (split_string index_contents NL)"

definition load_service_spec :: "ament \<Rightarrow> definition_identifier \<Rightarrow> (definition_cache, message_spec) cpp" where
  "load_service_spec A d =
     bind (gets (\<lambda>cache. m_find cache d)) (\<lambda>hit.
     case hit of
       Some spec \<Rightarrow> ret spec
     | None \<Rightarrow>
         (case match_package_typename (package_resource_name d) of
            None \<Rightarrow> throw (StdException (''Invalid package resource name: '' @ package_resource_name d))
          | Some (package, subfolder, typename) \<Rightarrow>
              if subfolder \<noteq> ''srv'' \<and> subfolder \<noteq> []
              then throw (StdException (''Invalid subfolder: '' @ subfolder))
              else
                let is_service = (subfolder = ''srv'');
                    filename = (if is_service then typename @ ''.srv''
                                else typename @ extension_for_format (def_format d))
                in
                bind (lift (share_directory A package)) (\<lambda>share_dir.
                case rosidl_interfaces A package of
                  None \<Rightarrow> throw (DefinitionNotFoundError
                    (''get resource of '' @ [CHR 0x27] @ ''rosidl_interfaces'' @ [CHR 0x27] @ '' failed: '' @
                     package_resource_name d))
                | Some index_contents \<Rightarrow>
                    (case index_line index_contents filename of
                       None \<Rightarrow> throw (DefinitionNotFoundError
                         (''find '' @ filename @ '' in index_contents failed: '' @ index_contents))
                     | Some line \<Rightarrow>
                         let full_path = share_dir @ ''/'' @ line in
                         (case file_contents A full_path of
                            None \<Rightarrow> throw (DefinitionNotFoundError
                              (''file '' @ full_path @ '' not found:'' @ package_resource_name d))
                          | Some contents \<Rightarrow>
                              bind (if is_service
                                    then bind (lift (split_service_definition contents)) (\<lambda>(request, response).
                                           ret (if def_format d = SRV_REQ then request else response))
                                    else ret contents) (\<lambda>text.
                              let spec = MessageSpec (def_format d) text package in
                              seq (modify (m_emplace d spec)) (ret spec)))))))"

text \<open>The definitions of the messages an action consists of, in the order of the \<open>std::map\<close>.\<close>

definition action_type_definitions :: "string \<Rightarrow> string \<Rightarrow> string \<Rightarrow> (string \<times> string) list" where
  "action_type_definitions goal result feedback =
     [(''_FeedbackMessage'', ''unique_identifier_msgs/UUID goal_id'' @ NL @ feedback),
      (''_GetResult'' @ ''_Request'', ''unique_identifier_msgs/UUID goal_id'' @ NL),
      (''_GetResult'' @ ''_Response'', ''int8 status'' @ NL @ result),
      (''_SendGoal'' @ ''_Request'', ''unique_identifier_msgs/UUID goal_id'' @ NL @ goal),
      (''_SendGoal'' @ ''_Response'', ''bool accepted'' @ NL @ ''builtin_interfaces/msg/Time stamp'')]"

definition load_action_specs ::
    "string \<Rightarrow> string \<Rightarrow> string \<Rightarrow> definition_identifier \<Rightarrow> (definition_cache, message_spec) cpp" where
  "load_action_specs contents package action_name d =
     (if def_format d = MSG
      then bind (lift (split_action_msg_definition contents)) (\<lambda>(goal, result, feedback).
           seq (for_each (action_type_definitions goal result feedback) (\<lambda>(suffix, definition_text).
                  let e = \<lparr>def_format = def_format d,
                           package_resource_name = package @ ''/action/'' @ action_name @ suffix\<rparr>
                  in modify (m_emplace e (MessageSpec (def_format d) definition_text package)))) (
           bind (gets (\<lambda>cache. m_find cache d)) (\<lambda>found.
           case found of
             None \<Rightarrow> throw (DefinitionNotFoundError (package_resource_name d))
           | Some spec \<Rightarrow> ret spec)))
      else throw (DefinitionNotFoundError (package_resource_name d)))"

definition load_message_spec :: "ament \<Rightarrow> definition_identifier \<Rightarrow> (definition_cache, message_spec) cpp" where
  "load_message_spec A d =
     bind (gets (\<lambda>cache. m_find cache d)) (\<lambda>hit.
     case hit of
       Some spec \<Rightarrow> ret spec
     | None \<Rightarrow>
         (case match_package_typename (package_resource_name d) of
            None \<Rightarrow> throw (StdException (''Invalid package resource name: '' @ package_resource_name d))
          | Some (package, subfolder, typename) \<Rightarrow>
              let is_action_type = (subfolder = ''action'');
                  action_name = (if is_action_type then remove_action_subtype typename else []);
                  filename = (if is_action_type then action_name @ ''.action''
                              else typename @ extension_for_format (def_format d))
              in
              bind (lift (share_directory A package)) (\<lambda>share_dir.
              case rosidl_interfaces A package of
                None \<Rightarrow> throw (DefinitionNotFoundError (package_resource_name d))
              | Some index_contents \<Rightarrow>
                  (case index_line index_contents filename of
                     None \<Rightarrow> throw (DefinitionNotFoundError (package_resource_name d))
                   | Some line \<Rightarrow>
                       (case file_contents A (share_dir @ ''/'' @ line) of
                          None \<Rightarrow> throw (DefinitionNotFoundError (package_resource_name d))
                        | Some contents \<Rightarrow>
                            if is_action_type then load_action_specs contents package action_name d
                            else
                              let spec = MessageSpec (def_format d) contents package in
                              seq (modify (m_emplace d spec)) (ret spec))))))"

section \<open>Complete definitions\<close>

text \<open>
  \<open>append_recursive\<close>: the text of a definition followed by the definitions it depends on, each one
  once.  The state is the cache and the set \<open>seen_deps\<close>; the first argument bounds the depth of the
  recursion, beyond which the stack overflows.
\<close>

function append_recursive ::
    "(definition_identifier \<Rightarrow> (definition_cache, message_spec) cpp) \<Rightarrow> nat \<Rightarrow> definition_identifier \<Rightarrow>
     (definition_cache \<times> definition_identifier list, string) cpp"
  and append_deps ::
    "(definition_identifier \<Rightarrow> (definition_cache, message_spec) cpp) \<Rightarrow> nat \<Rightarrow> MessageDefinitionFormat \<Rightarrow>
     string list \<Rightarrow> string \<Rightarrow> (definition_cache \<times> definition_identifier list, string) cpp"
where
  "append_recursive load 0 d s = (UB ''stack overflow'', s)"
| "append_recursive load (Suc depth) d (cache, seen) =
     (case load d cache of
        (Ok spec, cache') \<Rightarrow>
          append_deps load depth (def_format d) (dependencies spec) (spec_text spec) (cache', seen)
      | (Throw e, cache') \<Rightarrow> (Throw e, (cache', seen))
      | (UB u, cache') \<Rightarrow> (UB u, (cache', seen)))"
| "append_deps load depth f [] result s = (Ok result, s)"
| "append_deps load depth f (dep_name # deps) result (cache, seen) =
     (let dep = \<lparr>def_format = f, package_resource_name = dep_name\<rparr>
      in if dep \<in> set seen then append_deps load depth f deps result (cache, seen)
         else
           (case append_recursive load depth dep (cache, dep # seen) of
              (Ok r, s') \<Rightarrow> append_deps load depth f deps (result @ NL @ delimiter dep @ r) s'
            | (Throw e, s') \<Rightarrow> (Throw e, s')
            | (UB u, s') \<Rightarrow> (UB u, s')))"
  by pat_completeness auto

termination
  by (relation "measures
      [\<lambda>x. case x of Inl (_, depth, _) \<Rightarrow> 2 * depth | Inr (_, depth, _) \<Rightarrow> 2 * depth + 1,
       \<lambda>x. case x of Inl _ \<Rightarrow> 0 | Inr (_, _, _, deps, _) \<Rightarrow> length deps]") auto

text \<open>The set \<open>seen_deps\<close> lives as long as the call.\<close>

definition with_seen_deps :: "(definition_cache \<times> definition_identifier list, 'a) cpp \<Rightarrow> (definition_cache, 'a) cpp" where
  "with_seen_deps m cache = (case m (cache, []) of (r, (cache', _)) \<Rightarrow> (r, cache'))"

definition get_full_srv_text ::
    "ament \<Rightarrow> nat \<Rightarrow> string \<Rightarrow> (definition_cache, string \<times> string) cpp" where
  "get_full_srv_text A depth service_name =
     with_seen_deps (\<lambda>s.
       case append_recursive (load_service_spec A) depth
              \<lparr>def_format = SRV_REQ, package_resource_name = service_name\<rparr> s of
         (Ok request, t) \<Rightarrow>
           (case append_recursive (load_service_spec A) depth
                   \<lparr>def_format = SRV_RESP, package_resource_name = service_name\<rparr> t of
              (Ok response, u) \<Rightarrow> (Ok (request, response), u)
            | (Throw (DefinitionNotFoundError _), u) \<Rightarrow> (Ok (request, []), u)
            | (Throw e, u) \<Rightarrow> (Throw e, u)
            | (UB w, u) \<Rightarrow> (UB w, u))
       | (Throw (DefinitionNotFoundError _), t) \<Rightarrow> (Ok ([], []), t)
       | (Throw e, t) \<Rightarrow> (Throw e, t)
       | (UB w, t) \<Rightarrow> (UB w, t))"

definition get_full_msg_text ::
    "ament \<Rightarrow> nat \<Rightarrow> string \<Rightarrow> (definition_cache, MessageDefinitionFormat \<times> string) cpp" where
  "get_full_msg_text A depth root_package_resource_name =
     with_seen_deps (try_catch
       (bind (append_recursive (load_message_spec A) depth
                \<lparr>def_format = MSG, package_resource_name = root_package_resource_name\<rparr>) (\<lambda>result.
        ret (MSG, result)))
       (\<lambda>e. case e of
              DefinitionNotFoundError _ \<Rightarrow>
                let root = \<lparr>def_format = IDL, package_resource_name = root_package_resource_name\<rparr> in
                bind (append_recursive (load_message_spec A) depth root) (\<lambda>result.
                ret (IDL, delimiter root @ result))
            | _ \<Rightarrow> throw e))"

section \<open>Strings, again\<close>

fun join :: "string \<Rightarrow> string list \<Rightarrow> string" where
  "join delim [] = []"
| "join delim [x] = x"
| "join delim (x # y # ys) = x @ delim @ join delim (y # ys)"

lemma split_string_not_Nil [simp]: "split_string s d \<noteq> []"
  by (subst split_string.simps) (simp split: option.split)

lemma join_split_string: "join d (split_string s d) = s"
proof (induction s d rule: split_string.induct)
  case (1 s d)
  show ?case
  proof (cases "str_find0 d s")
    case (Some pos)
    have "s = take pos s @ d @ drop (pos + length d) s"
      using str_find0_Some [OF Some]
      by (metis add.commute append_take_drop_id drop_drop starts_with_iff)
    moreover obtain y ys where "split_string (drop (pos + length d) s) d = y # ys"
      by (meson list.exhaust split_string_not_Nil)
    ultimately show ?thesis
      using 1 [OF Some] Some by (subst split_string.simps) (cases "d = []", auto)
  qed (subst split_string.simps, simp)
qed

lemma split_string_no: "c \<notin> set s \<Longrightarrow> split_string s [c] = [s]"
  by (subst split_string.simps) (simp add: str_find0_single_notin [THEN iffD2])

lemma split_string_Cons: "c \<notin> set a \<Longrightarrow> split_string (a @ c # b) [c] = a # split_string b [c]"
  by (subst split_string.simps) (simp add: str_find0_single_append)

lemma split_string_join:
  "xs \<noteq> [] \<Longrightarrow> \<forall>x \<in> set xs. c \<notin> set x \<Longrightarrow> split_string (join [c] xs) [c] = xs"
  by (induction "[c]" xs rule: join.induct) (simp_all add: split_string_no split_string_Cons)

text \<open>What the two replacement loops compute.\<close>

fun crlf :: "string \<Rightarrow> string" where
  "crlf [] = []"
| "crlf [c] = [c]"
| "crlf (c # d # s) = (if c = CHR 0x0D \<and> d = CHR 0x0A then d # crlf s else c # crlf (d # s))"

lemma crlf_none: "str_find0 [CHR 0x0D, CHR 0x0A] s = None \<Longrightarrow> crlf s = s"
  by (induction s rule: crlf.induct) (auto split: if_splits)

lemma crlf_newline: "crlf (CHR 0x0A # s) = CHR 0x0A # crlf s"
  by (cases s) auto

lemma crlf_some:
  "str_find0 [CHR 0x0D, CHR 0x0A] s = Some i \<Longrightarrow> crlf s = take i s @ CHR 0x0A # crlf (drop (i + 2) s)"
proof (induction s arbitrary: i rule: crlf.induct)
  case (3 c d s)
  show ?case
  proof (cases "c = CHR 0x0D \<and> d = CHR 0x0A")
    case False
    with "3.prems" obtain j where "str_find0 [CHR 0x0D, CHR 0x0A] (d # s) = Some j" "i = Suc j"
      by auto
    with "3.IH"(2) [OF False] False show ?thesis by simp
  qed (use "3.prems" in auto)
qed (auto split: if_splits)

lemma str_find_append: "str_find (u @ s) needle (length u) = map_option (\<lambda>i. length u + i) (str_find0 needle s)"
  by (simp add: str_find_def)

lemma replace_crlf_spec: "replace_crlf (length u) (u @ s) = u @ crlf s"
proof (induction "length s" arbitrary: u s rule: less_induct)
  case less
  show ?case
  proof (cases "str_find0 [CHR 0x0D, CHR 0x0A] s")
    case None
    then show ?thesis
      by (subst replace_crlf.simps) (simp add: str_find_append crlf_none)
  next
    case (Some i)
    let ?v = "drop (i + 2) s"
    have len: "length (take i s) = i" "i + 2 \<le> length s"
      using str_find0_Some [OF Some] by simp_all
    have "replace_crlf (length u) (u @ s) = replace_crlf (length (u @ take i s)) ((u @ take i s) @ CHR 0x0A # ?v)"
      using len by (subst replace_crlf.simps) (simp add: str_find_append Some NL_def)
    also have "\<dots> = (u @ take i s) @ crlf (CHR 0x0A # ?v)"
      by (rule less) (use len in simp)
    finally show ?thesis
      by (simp add: crlf_newline crlf_some [OF Some])
  qed
qed

definition cr :: "string \<Rightarrow> string" where
  "cr = map (\<lambda>c. if c = CHR 0x0D then CHR 0x0A else c)"

lemma cr_some:
  "str_find0 [CHR 0x0D] s = Some i \<Longrightarrow> cr s = take i s @ CHR 0x0A # cr (drop (i + 1) s)"
proof (induction s arbitrary: i)
  case (Cons c s)
  then show ?case by (cases i) (auto simp: cr_def split: if_splits)
qed simp

lemma cr_none: "str_find0 [CHR 0x0D] s = None \<Longrightarrow> cr s = s"
  by (auto simp: cr_def str_find0_single_notin intro: map_idI)

lemma replace_cr_spec: "replace_cr (length u) (u @ s) = u @ cr s"
proof (induction "count_list s (CHR 0x0D)" arbitrary: u s rule: less_induct)
  case less
  show ?case
  proof (cases "str_find0 [CHR 0x0D] s")
    case None
    then show ?thesis
      by (subst replace_cr.simps) (simp add: str_find_append cr_none)
  next
    case (Some i)
    let ?v = "drop (i + 1) s"
    have len: "length (take i s) = i" "i + 1 \<le> length s"
      using str_find0_Some [OF Some] by simp_all
    have "replace_cr (length u) (u @ s) = replace_cr (length (u @ take i s)) ((u @ take i s) @ CHR 0x0A # ?v)"
      using len by (subst replace_cr.simps) (simp add: str_find_append Some NL_def)
    also have "\<dots> = (u @ take i s) @ cr (CHR 0x0A # ?v)"
    proof (rule less)
      have "count_list (take i s @ [CHR 0x0A] @ ?v) (CHR 0x0D) < count_list s (CHR 0x0D)"
        by (rule replace_cr_fewer [where pos = 0]) (simp_all add: str_find_def Some)
      then show "count_list (CHR 0x0A # ?v) (CHR 0x0D) < count_list s (CHR 0x0D)"
        by simp
    qed
    finally show ?thesis
      by (simp add: cr_some [OF Some]) (simp add: cr_def)
  qed
qed

lemma crlf_clean:
  assumes "CHR 0x0D \<notin> set x"
  shows "crlf (x @ s) = x @ crlf s"
  using assms
proof (induction x)
  case (Cons c x)
  then show ?case by (cases "x @ s") auto
qed simp

lemma cr_append [simp]: "cr (x @ y) = cr x @ cr y"
  by (simp add: cr_def)

lemma cr_clean: "CHR 0x0D \<notin> set x \<Longrightarrow> cr x = x"
  by (auto simp: cr_def intro: map_idI)

lemma crlf_cr:
  "s = [] \<or> hd s \<noteq> CHR 0x0A \<Longrightarrow> crlf (CHR 0x0D # s) = CHR 0x0D # crlf s"
  by (cases s) auto

text \<open>The three ends of lines give the same lines.\<close>

lemma newlines_join:
  assumes "\<forall>l \<in> set ls. CHR 0x0A \<notin> set l \<and> CHR 0x0D \<notin> set l"
    and "eol \<in> {[CHR 0x0A], [CHR 0x0D, CHR 0x0A], [CHR 0x0D]}"
  shows "cr (crlf (join eol ls)) = join NL ls"
  using assms
proof (induction eol ls rule: join.induct)
  case (2 eol x)
  then show ?case using crlf_clean [of x "[]"] by (simp add: cr_clean)
next
  case (3 eol x y ys)
  have IH: "cr (crlf (join eol (y # ys))) = join NL (y # ys)"
    using 3 by simp
  have "join eol (y # ys) = [] \<or> hd (join eol (y # ys)) \<noteq> CHR 0x0A \<or> eol \<noteq> [CHR 0x0D]"
    using "3.prems" by (cases y; cases ys) auto
  then have "cr (crlf (eol @ join eol (y # ys))) = NL @ cr (crlf (join eol (y # ys)))"
    using "3.prems"(2) by (auto simp: NL_def crlf_newline crlf_cr) (simp_all add: cr_def)
  with IH 3(2) show ?case
    by (simp add: crlf_clean cr_clean)
qed (simp add: cr_def)

lemma service_lines_append:
  "\<forall>l \<in> set ls. l \<noteq> ''---'' \<Longrightarrow> service_lines (ls @ rest) True q r = service_lines rest True (q @ concat (map (\<lambda>l. l @ NL) ls)) r"
  by (induction ls arbitrary: q) simp_all

lemma service_lines_response:
  "\<forall>l \<in> set ls. l \<noteq> ''---'' \<Longrightarrow> service_lines ls False q r = (q, r @ concat (map (\<lambda>l. l @ NL) ls))"
  by (induction ls arbitrary: r) simp_all

text \<open>A service definition written as request lines, a separator and response lines, with any of
  the three ends of lines, is split into its request and its response, each line ended by a newline.\<close>

lemma service_definition_split:
  assumes "\<forall>l \<in> set (req @ resp). CHR 0x0A \<notin> set l \<and> CHR 0x0D \<notin> set l \<and> l \<noteq> ''---''"
    and "eol \<in> {[CHR 0x0A], [CHR 0x0D, CHR 0x0A], [CHR 0x0D]}"
  shows "split_service_definition (join eol (req @ ''---'' # resp)) =
     Ok (concat (map (\<lambda>l. l @ [CHR 0x0A]) req), concat (map (\<lambda>l. l @ [CHR 0x0A]) resp))"
proof -
  let ?ls = "req @ ''---'' # resp"
  have "replace_cr 0 (replace_crlf 0 (join eol ?ls)) = join NL ?ls"
    using newlines_join [of ?ls eol] assms replace_crlf_spec [of "[]"] replace_cr_spec [of "[]"] by simp
  moreover have "split_string (join NL ?ls) NL = ?ls"
    unfolding NL_def by (rule split_string_join) (use assms(1) in auto)
  ultimately have lines: "split_string (replace_cr 0 (replace_crlf 0 (join eol ?ls))) NL = ?ls"
    by simp
  have "service_lines ?ls True [] [] = (concat (map (\<lambda>l. l @ NL) req), concat (map (\<lambda>l. l @ NL) resp))"
    using assms(1) by (simp add: service_lines_append service_lines_response)
  moreover have "\<not> (length ?ls = 1 \<and> hd ?ls \<noteq> ''---'')"
    by (cases req) auto
  ultimately show ?thesis
    unfolding split_service_definition_def Let_def lines by (simp add: NL_def)
qed

lemma service_definition_split_witness:
  "split_service_definition (join [CHR 0x0D, CHR 0x0A] ([''int64 a''] @ ''---'' # [''int64 sum''])) =
     Ok (''int64 a'' @ [CHR 0x0A], ''int64 sum'' @ [CHR 0x0A])"
  using service_definition_split [of "[''int64 a'']" "[''int64 sum'']" "[CHR 0x0D, CHR 0x0A]"] by simp

end
