(* ===== verification/Definition_Closure.thy ===== *)
theory Definition_Closure
  imports Message_Definitions
begin

text \<open>
  Complete definitions: the recursion over the dependencies returns, it gives every dependency
  exactly once, and the cache does not change what it gives.
\<close>

section \<open>Loading without a cache\<close>

text \<open>A loader that reads every definition anew.\<close>

definition pure_load ::
    "(definition_identifier \<Rightarrow> message_spec outcome) \<Rightarrow> definition_identifier \<Rightarrow> (definition_cache, message_spec) cpp" where
  "pure_load spec d cache = (spec d, cache)"

text \<open>Two loaders that agree on the formats \<open>K\<close> give the same text and the same definitions seen.\<close>

definition agrees :: "MessageDefinitionFormat set \<Rightarrow> (definition_identifier \<Rightarrow> (definition_cache, message_spec) cpp) \<Rightarrow>
    (definition_cache \<Rightarrow> bool) \<Rightarrow> (definition_identifier \<Rightarrow> message_spec outcome) \<Rightarrow> bool" where
  "agrees K load good spec =
     (\<forall>d cache. def_format d \<in> K \<longrightarrow> good cache \<longrightarrow> fst (load d cache) = spec d \<and> good (snd (load d cache)))"

lemma append_agrees:
  "agrees K load good spec \<Longrightarrow> def_format d \<in> K \<Longrightarrow> good (fst s) \<Longrightarrow>
     \<exists>r cache' seen'. append_recursive load depth d s = (r, (cache', seen')) \<and> good cache' \<and>
       append_recursive (pure_load spec) depth d ([], snd s) = (r, ([], seen'))"
  "agrees K load good spec \<Longrightarrow> f \<in> K \<Longrightarrow> good (fst s) \<Longrightarrow>
     \<exists>r cache' seen'. append_deps load depth f deps result s = (r, (cache', seen')) \<and> good cache' \<and>
       append_deps (pure_load spec) depth f deps result ([], snd s) = (r, ([], seen'))"
proof (induction load depth d s and load depth f deps result s rule: append_recursive_append_deps.induct)
  case (1 load d s)
  then show ?case by (cases s) auto
next
  case (2 load depth d cache seen)
  from "2.prems" obtain cache' where load: "load d cache = (spec d, cache')" "good cache'"
    by (auto simp: agrees_def) (metis prod.collapse)
  with "2.IH" [OF load(1) [symmetric]] "2.prems" show ?case
    by (cases "spec d") (auto simp: pure_load_def)
next
  case (3 load depth f result s)
  then show ?case by (cases s) auto
next
  case (4 load depth f dep_name deps result cache seen)
  let ?dep = "\<lparr>def_format = f, package_resource_name = dep_name\<rparr>"
  show ?case
  proof (cases "?dep \<in> set seen")
    case True
    with 4 show ?thesis by simp
  next
    case False
    with "4.IH"(2) [OF refl False "4.prems"(1)] "4.prems" obtain r cache' seen' where first:
      "append_recursive load depth ?dep (cache, ?dep # seen) = (r, (cache', seen'))" "good cache'"
      "append_recursive (pure_load spec) depth ?dep ([], ?dep # seen) = (r, ([], seen'))"
      by auto
    with "4.IH"(3) [OF refl False first(1) [symmetric]] "4.prems" False show ?thesis
      by (cases r) auto
  qed
qed

text \<open>
  What the recursion relies on: as long as the cache is good, loading a definition of one of the
  formats \<open>K\<close> gives a result that does not depend on the cache, and the cache stays good.
\<close>

locale definition_loader =
  fixes K :: "MessageDefinitionFormat set"
    and load :: "definition_identifier \<Rightarrow> (definition_cache, message_spec) cpp"
    and good :: "definition_cache \<Rightarrow> bool"
    and spec :: "definition_identifier \<Rightarrow> message_spec outcome"
  assumes load_result: "def_format d \<in> K \<Longrightarrow> good cache \<Longrightarrow> fst (load d cache) = spec d"
    and load_good: "def_format d \<in> K \<Longrightarrow> good cache \<Longrightarrow> good (snd (load d cache))"
begin

lemma append_uncached:
  assumes "def_format d \<in> K" "good cache"
  obtains r cache' seen' where "append_recursive load depth d (cache, seen) = (r, (cache', seen'))" "good cache'"
    "append_recursive (pure_load spec) depth d ([], seen) = (r, ([], seen'))"
  using append_agrees(1) [of K load good spec d "(cache, seen)" depth] assms load_result load_good
  by (auto simp: agrees_def)

end

section \<open>The dependencies of a definition\<close>

definition def_id :: "MessageDefinitionFormat \<Rightarrow> string \<Rightarrow> definition_identifier" where
  "def_id f name = \<lparr>def_format = f, package_resource_name = name\<rparr>"

definition deps_of :: "(definition_identifier \<Rightarrow> message_spec outcome) \<Rightarrow> definition_identifier \<Rightarrow> definition_identifier list" where
  "deps_of spec d = (case spec d of Ok sp \<Rightarrow> map (def_id (def_format d)) (dependencies sp) | _ \<Rightarrow> [])"

definition text_of :: "(definition_identifier \<Rightarrow> message_spec outcome) \<Rightarrow> definition_identifier \<Rightarrow> string" where
  "text_of spec d = (case spec d of Ok sp \<Rightarrow> spec_text sp | _ \<Rightarrow> [])"

definition definition_section :: "(definition_identifier \<Rightarrow> message_spec outcome) \<Rightarrow> definition_identifier \<Rightarrow> string" where
  "definition_section spec d = [CHR 0x0A] @ delimiter d @ text_of spec d"

definition depends :: "(definition_identifier \<Rightarrow> message_spec outcome) \<Rightarrow> (definition_identifier \<times> definition_identifier) set" where
  "depends spec = {(d, e). e \<in> set (deps_of spec d)}"

text \<open>
  The definitions \<open>ds\<close> visited from \<open>xs\<close> when \<open>seen\<close> was seen before: new ones, closed under
  dependencies, all of them needed.
\<close>

definition visited ::
    "(definition_identifier \<Rightarrow> message_spec outcome) \<Rightarrow> definition_identifier list \<Rightarrow> definition_identifier list \<Rightarrow>
     definition_identifier list \<Rightarrow> bool" where
  "visited spec seen xs ds =
     (distinct ds \<and> set ds \<inter> set seen = {} \<and> set xs \<subseteq> set seen \<union> set ds \<and>
      (\<forall>d \<in> set ds. set (deps_of spec d) \<subseteq> set seen \<union> set ds) \<and>
      (\<forall>d \<in> set ds. \<exists>x \<in> set xs. (x, d) \<in> (depends spec)\<^sup>*))"

lemma visited_Cons:
  assumes "x \<notin> set seen"
    and one: "visited spec (x # seen) (deps_of spec x) ds"
    and more: "visited spec (rev ds @ x # seen) xs es"
  shows "visited spec seen (x # xs) (x # ds @ es)"
proof -
  have reach: "(x, d) \<in> (depends spec)\<^sup>*" if d: "d \<in> set ds" for d
  proof -
    obtain y where "y \<in> set (deps_of spec x)" "(y, d) \<in> (depends spec)\<^sup>*"
      using one d by (auto simp: visited_def)
    moreover from this have "(x, y) \<in> depends spec" by (simp add: depends_def)
    ultimately show ?thesis by (rule_tac converse_rtrancl_into_rtrancl)
  qed
  show ?thesis
    unfolding visited_def
  proof (intro conjI)
    show "distinct (x # ds @ es)" "set (x # ds @ es) \<inter> set seen = {}" "set (x # xs) \<subseteq> set seen \<union> set (x # ds @ es)"
      using assms by (auto simp: visited_def)
    show "\<forall>d \<in> set (x # ds @ es). set (deps_of spec d) \<subseteq> set seen \<union> set (x # ds @ es)"
      using one more unfolding visited_def by auto
    show "\<forall>d \<in> set (x # ds @ es). \<exists>y \<in> set (x # xs). (y, d) \<in> (depends spec)\<^sup>*"
      using reach more unfolding visited_def by auto
  qed
qed

lemma append_visits:
  "load = pure_load spec \<Longrightarrow> append_recursive load depth d s = (Ok r, t) \<Longrightarrow>
     \<exists>ds. snd t = rev ds @ snd s \<and> r = text_of spec d @ concat (map (definition_section spec) ds) \<and>
       visited spec (snd s) (deps_of spec d) ds"
  "load = pure_load spec \<Longrightarrow> append_deps load depth f names result s = (Ok r, t) \<Longrightarrow>
     \<exists>ds. snd t = rev ds @ snd s \<and> r = result @ concat (map (definition_section spec) ds) \<and>
       visited spec (snd s) (map (def_id f) names) ds"
proof (induction load depth d s and load depth f names result s arbitrary: r t and r t
    rule: append_recursive_append_deps.induct)
  case (2 load depth d cache seen)
  then obtain sp where sp: "spec d = Ok sp" "load d cache = (Ok sp, cache)"
    by (cases "spec d") (auto simp: pure_load_def)
  with "2.IH" [OF sp(2) [symmetric] refl "2.prems"(1)] "2.prems" show ?case
    by (auto simp: deps_of_def text_of_def)
next
  case (3 load depth f result s)
  then show ?case by (auto simp: visited_def)
next
  case (4 load depth f name names result cache seen)
  let ?dep = "\<lparr>def_format = f, package_resource_name = name\<rparr>"
  show ?case
  proof (cases "?dep \<in> set seen")
    case True
    with "4.prems"(2) have "append_deps load depth f names result (cache, seen) = (Ok r, t)" by simp
    from "4.IH"(1) [OF refl True "4.prems"(1) this] obtain ds where
      "snd t = rev ds @ seen" "r = result @ concat (map (definition_section spec) ds)"
      "visited spec seen (map (def_id f) names) ds"
      by auto
    moreover from this True have "visited spec seen (map (def_id f) (name # names)) ds"
      by (auto simp: visited_def def_id_def)
    ultimately show ?thesis by auto
  next
    case False
    with "4.prems" obtain r1 s1 where first: "append_recursive load depth ?dep (cache, ?dep # seen) = (Ok r1, s1)"
      and rest: "append_deps load depth f names (result @ NL @ delimiter ?dep @ r1) s1 = (Ok r, t)"
      by (auto simp: Let_def split: prod.splits outcome.splits)
    obtain ds where ds: "snd s1 = rev ds @ ?dep # seen"
      "r1 = text_of spec ?dep @ concat (map (definition_section spec) ds)"
      "visited spec (?dep # seen) (deps_of spec ?dep) ds"
      using "4.IH"(2) [OF refl False "4.prems"(1) first] by auto
    obtain es where es: "snd t = rev es @ snd s1"
      "r = (result @ NL @ delimiter ?dep @ r1) @ concat (map (definition_section spec) es)"
      "visited spec (snd s1) (map (def_id f) names) es"
      using "4.IH"(3) [OF refl False first [symmetric] refl "4.prems"(1) rest] by auto
    have "visited spec seen (?dep # map (def_id f) names) (?dep # ds @ es)"
      using visited_Cons [OF False ds(3)] es(3) ds(1) by simp
    then show ?thesis
      using ds es by (intro exI [of _ "?dep # ds @ es"]) (simp add: def_id_def [of f name] definition_section_def [of spec ?dep] NL_def)
  qed
qed simp

lemma depends_format: "(d, e) \<in> depends spec \<Longrightarrow> def_format e = def_format d"
  by (auto simp: depends_def deps_of_def def_id_def split: outcome.splits)

lemma depends_trancl_format: "(d, e) \<in> (depends spec)\<^sup>+ \<Longrightarrow> def_format e = def_format d"
  by (induction rule: trancl_induct) (auto dest: depends_format)

lemma visited_reachable:
  assumes "visited spec seen (deps_of spec d) ds" "\<And>e. e \<in> set seen \<Longrightarrow> def_format e \<noteq> def_format d"
  shows "set ds = {e. (d, e) \<in> (depends spec)\<^sup>+}"
proof
  show "set ds \<subseteq> {e. (d, e) \<in> (depends spec)\<^sup>+}"
  proof
    fix e
    assume "e \<in> set ds"
    then obtain x where "x \<in> set (deps_of spec d)" "(x, e) \<in> (depends spec)\<^sup>*"
      using assms(1) by (auto simp: visited_def)
    then show "e \<in> {e. (d, e) \<in> (depends spec)\<^sup>+}"
      by (auto simp: depends_def intro: rtrancl_into_trancl2)
  qed
next
  have "e \<in> set ds" if "(d, e) \<in> (depends spec)\<^sup>+" for e
    using that
  proof (induction rule: trancl_induct)
    case (base e)
    then show ?case
      using assms depends_format [OF base] by (auto simp: visited_def depends_def)
  next
    case (step e e')
    then have "e' \<in> set seen \<union> set ds"
      using assms(1) by (auto simp: visited_def depends_def)
    moreover have "def_format e' = def_format d"
      using depends_trancl_format [OF step.hyps(1)] depends_format [OF step.hyps(2)] by simp
    ultimately show ?case using assms(2) by auto
  qed
  then show "{e. (d, e) \<in> (depends spec)\<^sup>+} \<subseteq> set ds" by blast
qed

text \<open>Whatever the outcome, only definitions of the same format are added to those seen.\<close>

lemma append_seen_format:
  "set (snd (snd (append_recursive load depth d s))) \<subseteq> set (snd s) \<union> {e. def_format e = def_format d}"
  "set (snd (snd (append_deps load depth f names result s))) \<subseteq> set (snd s) \<union> {e. def_format e = f}"
proof (induction load depth d s and load depth f names result s rule: append_recursive_append_deps.induct)
  case (2 load depth d cache seen)
  then show ?case by (auto split: prod.split outcome.split)
next
  case (4 load depth f name names result cache seen)
  let ?dep = "\<lparr>def_format = f, package_resource_name = name\<rparr>"
  show ?case
  proof (cases "?dep \<in> set seen")
    case True
    with "4.IH"(1) [OF refl True] show ?thesis by simp
  next
    case False
    obtain r s' where first: "append_recursive load depth ?dep (cache, ?dep # seen) = (r, s')"
      by (rule prod.exhaust)
    with "4.IH"(2) [OF refl False] have s': "set (snd s') \<subseteq> set seen \<union> {e. def_format e = f}"
      by auto
    show ?thesis
    proof (cases r)
      case (Ok a)
      from "4.IH"(3) [OF refl False first [symmetric] Ok] s' False first Ok show ?thesis
        by auto
    qed (use False first s' in auto)
  qed
qed auto

section \<open>The recursion returns\<close>

text \<open>
  When the definitions that can be reached are finitely many, a depth greater than their number is
  enough.
\<close>

lemma append_returns:
  "load = pure_load spec \<Longrightarrow> finite U \<Longrightarrow> (\<And>x. x \<in> U \<Longrightarrow> set (deps_of spec x) \<subseteq> U) \<Longrightarrow>
     (\<And>x u. spec x \<noteq> UB u) \<Longrightarrow> d \<in> U \<Longrightarrow> card (U - set (snd s)) < depth \<Longrightarrow>
     \<forall>u. fst (append_recursive load depth d s) \<noteq> UB u"
  "load = pure_load spec \<Longrightarrow> finite U \<Longrightarrow> (\<And>x. x \<in> U \<Longrightarrow> set (deps_of spec x) \<subseteq> U) \<Longrightarrow>
     (\<And>x u. spec x \<noteq> UB u) \<Longrightarrow> set (map (def_id f) names) \<subseteq> U \<Longrightarrow> card (U - set (snd s)) \<le> depth \<Longrightarrow>
     \<forall>u. fst (append_deps load depth f names result s) \<noteq> UB u"
proof (induction load depth d s and load depth f names result s rule: append_recursive_append_deps.induct)
  case (2 load depth d cache seen)
  show ?case
  proof (cases "spec d")
    case (Ok sp)
    with "2.prems"(1) have load: "load d cache = (Ok sp, cache)" by (simp add: pure_load_def)
    have "set (map (def_id (def_format d)) (dependencies sp)) \<subseteq> U"
      using "2.prems"(3) [OF "2.prems"(5)] Ok by (simp add: deps_of_def)
    with "2.IH" [OF load [symmetric] refl "2.prems"(1-4)] "2.prems"(6) load show ?thesis by simp
  qed (use "2.prems"(1,4) in \<open>auto simp: pure_load_def\<close>)
next
  case (4 load depth f name names result cache seen)
  let ?dep = "\<lparr>def_format = f, package_resource_name = name\<rparr>"
  have dep: "?dep \<in> U" and names: "set (map (def_id f) names) \<subseteq> U"
    using "4.prems"(5) by (auto simp: def_id_def)
  show ?case
  proof (cases "?dep \<in> set seen")
    case True
    with "4.IH"(1) [OF refl True "4.prems"(1-4) names] "4.prems"(6) show ?thesis by simp
  next
    case False
    have "U - set seen = insert ?dep (U - set (?dep # seen))"
      using dep False by auto
    then have "card (U - set seen) = Suc (card (U - set (?dep # seen)))"
      using "4.prems"(2) by (metis Diff_iff card_insert_disjoint finite_Diff list.set_intros(1))
    with "4.prems"(6) have less: "card (U - set (?dep # seen)) < depth" by simp
    obtain r s' where first: "append_recursive load depth ?dep (cache, ?dep # seen) = (r, s')"
      by (rule prod.exhaust)
    show ?thesis
    proof (cases r)
      case (Ok a)
      with first append_visits(1) [OF "4.prems"(1), of depth ?dep] have "set seen \<subseteq> set (snd s')"
        by fastforce
      then have "card (U - set (snd s')) \<le> card (U - set seen)"
        using "4.prems"(2) by (intro card_mono) auto
      with "4.IH"(3) [OF refl False first [symmetric] Ok "4.prems"(1-4) names] "4.prems"(6) False first Ok
      show ?thesis by simp
    next
      case (UB w)
      with "4.IH"(2) [OF refl False "4.prems"(1-4) dep] less first show ?thesis by simp
    qed (use False first in auto)
  qed
qed auto

section \<open>The cache is transparent\<close>

definition fresh_spec :: "ament \<Rightarrow> definition_identifier \<Rightarrow> message_spec outcome" where
  "fresh_spec A d =
     (if def_format d \<in> {SRV_REQ, SRV_RESP} then fst (load_service_spec A d [])
      else fst (load_message_spec A d []))"

text \<open>Every entry of the cache is what reading the definition anew would give.\<close>

definition coherent :: "ament \<Rightarrow> definition_cache \<Rightarrow> bool" where
  "coherent A cache = (\<forall>d sp. m_find cache d = Some sp \<longrightarrow> fresh_spec A d = Ok sp)"

lemma coherent_Nil: "coherent A []"
  by (simp add: coherent_def m_find_def)

lemma coherent_emplace:
  "coherent A cache \<Longrightarrow> fresh_spec A d = Ok sp \<Longrightarrow> coherent A (m_emplace d sp cache)"
  by (auto simp: coherent_def split: if_splits)

lemma for_each_modify: "for_each xs (\<lambda>x. modify (g x)) s = (Ok (), fold g xs s)"
  by (induction xs arbitrary: s) (simp_all add: cpp_defs)

lemma m_find_fold_emplace:
  "m_find (fold (\<lambda>(k, v). m_emplace k v) es m) d = (case m_find m d of Some v \<Rightarrow> Some v | None \<Rightarrow> map_of es d)"
  by (induction es arbitrary: m) (auto split: option.splits)

lemma coherent_fold_emplace:
  assumes "coherent A cache" "\<And>d sp. (d, sp) \<in> set es \<Longrightarrow> fresh_spec A d = Ok sp"
  shows "coherent A (fold (\<lambda>(k, v). m_emplace k v) es cache)"
  using assms by (induction es arbitrary: cache) (auto intro: coherent_emplace)

subsection \<open>Services\<close>

lemma load_service_hit: "m_find cache d = Some sp \<Longrightarrow> load_service_spec A d cache = (Ok sp, cache)"
  by (simp add: load_service_spec_def cpp_defs)

lemma load_service_miss:
  assumes "m_find cache d = None"
  shows "load_service_spec A d cache =
     (let r = fst (load_service_spec A d []) in (r, case r of Ok sp \<Rightarrow> m_emplace d sp cache | _ \<Rightarrow> cache))"
proof -
  have "m_find [] d = None" by (simp add: m_find_def)
  then show ?thesis
    unfolding load_service_spec_def using assms
    by (simp add: cpp_defs Let_def split: option.split prod.split outcome.split)
qed

lemma service_loader:
  assumes "def_format d \<in> {SRV_REQ, SRV_RESP}" "coherent A cache"
  shows "fst (load_service_spec A d cache) = fresh_spec A d" "coherent A (snd (load_service_spec A d cache))"
proof -
  have fresh: "fresh_spec A d = fst (load_service_spec A d [])"
    using assms(1) by (simp add: fresh_spec_def)
  have "fst (load_service_spec A d cache) = fresh_spec A d \<and> coherent A (snd (load_service_spec A d cache))"
  proof (cases "m_find cache d")
    case None
    then show ?thesis
      using assms(2) fresh
      by (simp add: load_service_miss [OF None] Let_def coherent_emplace split: outcome.split)
  next
    case (Some sp)
    then show ?thesis
      using assms(2) by (simp add: load_service_hit coherent_def)
  qed
  then show "fst (load_service_spec A d cache) = fresh_spec A d" "coherent A (snd (load_service_spec A d cache))"
    by simp_all
qed

subsection \<open>Messages and actions\<close>

lemma ends_with_rev: "ends_with x y = starts_with (rev y) (rev x)"
  unfolding ends_with_def starts_with_iff
  by (metis (no_types, opaque_lifting) diff_le_self length_drop length_rev rev_drop rev_rev_ident take_all_iff
      diff_diff_cancel nat_le_linear rev_take)

lemma remove_action_suffix:
  assumes "suffix \<in> set ACTION_SUFFIXES"
  shows "remove_action_subtype (a @ suffix) = a"
proof -
  have "\<forall>s \<in> set ACTION_SUFFIXES. List.find (ends_with (a @ s)) ACTION_SUFFIXES = Some s"
    by (simp add: ACTION_SUFFIXES_def ends_with_rev)
  with assms show ?thesis by (simp add: remove_action_subtype_def)
qed

lemma is_name_no_slash: "is_name s \<Longrightarrow> CHR ''/'' \<notin> set s"
  by (auto simp: is_name_def list_all_iff name_char_def Let_def)

lemma match_action_typename:
  assumes "is_name p" "is_name t"
  shows "match_package_typename (p @ ''/action/'' @ t) = Some (p, ''action'', t)"
proof -
  have "split_string (p @ CHR ''/'' # ''action'' @ CHR ''/'' # t) ''/'' = [p, ''action'', t]"
    using split_string_Cons [of "CHR ''/''" p] split_string_Cons [of "CHR ''/''" "''action''" t]
      split_string_no [OF is_name_no_slash [OF assms(2)]] is_name_no_slash [OF assms(1)]
    by simp
  with assms show ?thesis by (simp add: match_package_typename_def)
qed

lemma match_package_typename_names:
  "match_package_typename s = Some (p, f, t) \<Longrightarrow> is_name p \<and> is_name t"
  by (auto simp: match_package_typename_def split: list.splits if_splits)

lemma is_name_action:
  assumes "is_name t" "suffix \<in> set ACTION_SUFFIXES"
  shows "is_name (remove_action_subtype t @ suffix)"
proof -
  have "\<forall>s \<in> set ACTION_SUFFIXES. list_all name_char s"
    by (simp add: ACTION_SUFFIXES_def name_char_def)
  with assms(2) have "list_all name_char suffix" by blast
  moreover have "list_all name_char (remove_action_subtype t)"
    using assms(1) by (auto simp: remove_action_subtype_def is_name_def list_all_iff split: option.split dest: in_set_takeD)
  moreover have "\<forall>s \<in> set ACTION_SUFFIXES. s \<noteq> []"
    by (simp add: ACTION_SUFFIXES_def)
  with assms(2) have "suffix \<noteq> []" by blast
  ultimately show ?thesis by (simp add: is_name_def)
qed

text \<open>The contents of a definition file.\<close>

definition definition_file :: "ament \<Rightarrow> string \<Rightarrow> string \<Rightarrow> string \<Rightarrow> string outcome" where
  "definition_file A package filename name =
     obind (share_directory A package) (\<lambda>share_dir.
     case rosidl_interfaces A package of
       None \<Rightarrow> Throw (DefinitionNotFoundError name)
     | Some index_contents \<Rightarrow>
         (case index_line index_contents filename of
            None \<Rightarrow> Throw (DefinitionNotFoundError name)
          | Some line \<Rightarrow>
              (case file_contents A (share_dir @ ''/'' @ line) of
                 None \<Rightarrow> Throw (DefinitionNotFoundError name)
               | Some contents \<Rightarrow> Ok contents)))"

lemma definition_file_Ok: "definition_file A p f n = Ok c \<Longrightarrow> definition_file A p f n' = Ok c"
  unfolding definition_file_def by (cases "share_directory A p") (auto split: option.splits)

text \<open>The file of a message or action type: package, whether it is an action, action name, contents.\<close>

definition located :: "ament \<Rightarrow> definition_identifier \<Rightarrow> (string \<times> bool \<times> string \<times> string) outcome" where
  "located A d =
     (case match_package_typename (package_resource_name d) of
        None \<Rightarrow> Throw (StdException (''Invalid package resource name: '' @ package_resource_name d))
      | Some (package, subfolder, typename) \<Rightarrow>
          let is_action = (subfolder = ''action'');
              action_name = (if is_action then remove_action_subtype typename else []);
              filename = (if is_action then action_name @ ''.action''
                          else typename @ extension_for_format (def_format d))
          in obind (definition_file A package filename (package_resource_name d)) (\<lambda>contents.
             Ok (package, is_action, action_name, contents)))"

lemma load_message_hit: "m_find cache d = Some sp \<Longrightarrow> load_message_spec A d cache = (Ok sp, cache)"
  by (simp add: load_message_spec_def cpp_defs)

lemma load_message_miss:
  assumes "m_find cache d = None"
  shows "load_message_spec A d cache =
     (case located A d of
        Ok (package, is_action, action_name, contents) \<Rightarrow>
          if is_action then load_action_specs contents package action_name d cache
          else let sp = MessageSpec (def_format d) contents package in (Ok sp, m_emplace d sp cache)
      | Throw e \<Rightarrow> (Throw e, cache)
      | UB u \<Rightarrow> (UB u, cache))"
proof -
  have hit: "bind (gets (\<lambda>cache. m_find cache d)) k cache = k None cache" for k :: "_ \<Rightarrow> (definition_cache, message_spec) cpp"
    using assms by (simp add: cpp_defs)
  show ?thesis
    unfolding load_message_spec_def hit located_def
    by (cases "match_package_typename (package_resource_name d)")
      (auto simp: cpp_defs Let_def definition_file_def share_directory_def split: option.split sum.split)
qed

definition action_entries ::
    "MessageDefinitionFormat \<Rightarrow> string \<Rightarrow> string \<Rightarrow> string \<times> string \<times> string \<Rightarrow> definition_cache" where
  "action_entries f package action_name = (\<lambda>(goal, result, feedback).
     map (\<lambda>(suffix, text). (def_id f (package @ ''/action/'' @ action_name @ suffix), MessageSpec f text package))
       (action_type_definitions goal result feedback))"

lemma load_action_run:
  "load_action_specs contents package action_name d cache =
     (if def_format d = MSG
      then (case split_action_msg_definition contents of
              Ok grf \<Rightarrow>
                let cache' = fold (\<lambda>(k, v). m_emplace k v) (action_entries MSG package action_name grf) cache
                in (case m_find cache' d of
                      None \<Rightarrow> Throw (DefinitionNotFoundError (package_resource_name d))
                    | Some sp \<Rightarrow> Ok sp, cache')
            | Throw e \<Rightarrow> (Throw e, cache)
            | UB u \<Rightarrow> (UB u, cache))
      else (Throw (DefinitionNotFoundError (package_resource_name d)), cache))"
proof (cases "split_action_msg_definition contents")
  case (Ok grf)
  obtain goal result feedback where grf: "grf = (goal, result, feedback)" by (cases grf)
  have loop: "for_each (action_type_definitions goal result feedback) (\<lambda>(suffix, text).
      let e = \<lparr>def_format = MSG, package_resource_name = package @ ''/action/'' @ action_name @ suffix\<rparr>
      in modify (m_emplace e (MessageSpec MSG text package))) cache =
    (Ok (), fold (\<lambda>(k, v). m_emplace k v) (action_entries MSG package action_name grf) cache)"
    using for_each_modify [of "action_type_definitions goal result feedback"
        "\<lambda>(suffix, text). m_emplace (def_id MSG (package @ ''/action/'' @ action_name @ suffix)) (MessageSpec MSG text package)" cache]
    by (simp add: grf action_entries_def fold_map comp_def split_def def_id_def Let_def)
  show ?thesis
    unfolding load_action_specs_def using Ok grf loop
    by (simp add: cpp_defs Let_def split: option.split)
qed (simp_all add: load_action_specs_def cpp_defs)

lemma action_suffixes: "map fst (action_type_definitions goal result feedback) = ACTION_SUFFIXES"
  by (simp add: action_type_definitions_def ACTION_SUFFIXES_def)

lemma located_action:
  assumes "located A d = Ok (package, True, action_name, contents)" "suffix \<in> set ACTION_SUFFIXES"
  shows "located A (def_id MSG (package @ ''/action/'' @ action_name @ suffix)) = Ok (package, True, action_name, contents)"
proof -
  obtain p f t where match: "match_package_typename (package_resource_name d) = Some (p, f, t)"
    using assms(1) unfolding located_def by (cases "match_package_typename (package_resource_name d)") auto
  with assms(1) have pf: "p = package" "f = ''action''" "action_name = remove_action_subtype t"
    and contents: "definition_file A package (action_name @ ''.action'') (package_resource_name d) = Ok contents"
    by (auto simp: located_def Let_def obind_eq_Ok split: if_splits)
  have "is_name package" "is_name (action_name @ suffix)"
    using match_package_typename_names [OF match] is_name_action [OF _ assms(2)] pf by simp_all
  then have "match_package_typename (package @ ''/action/'' @ action_name @ suffix) =
      Some (package, ''action'', action_name @ suffix)"
    by (rule match_action_typename)
  then show ?thesis
    using definition_file_Ok [OF contents] remove_action_suffix [OF assms(2), of action_name]
    by (simp add: located_def Let_def def_id_def)
qed

lemma map_of_action_entries:
  assumes "(e, sp) \<in> set (action_entries MSG package action_name grf)"
  shows "map_of (action_entries MSG package action_name grf) e = Some sp"
proof -
  obtain goal result feedback where grf: "grf = (goal, result, feedback)" by (cases grf)
  have "map fst (action_entries MSG package action_name grf) =
      map (\<lambda>suffix. def_id MSG (package @ ''/action/'' @ action_name @ suffix)) ACTION_SUFFIXES"
    unfolding action_suffixes [symmetric, of goal result feedback]
    by (simp add: action_entries_def grf comp_def split_def)
  moreover have "distinct (map (\<lambda>suffix. def_id MSG (package @ ''/action/'' @ action_name @ suffix)) ACTION_SUFFIXES)"
    by (simp add: distinct_map inj_on_def def_id_def) (simp add: ACTION_SUFFIXES_def)
  ultimately show ?thesis using assms by (simp add: map_of_eq_Some_iff)
qed

lemma fresh_action:
  assumes "located A d = Ok (package, True, action_name, contents)"
    and "split_action_msg_definition contents = Ok grf"
    and "(e, sp) \<in> set (action_entries MSG package action_name grf)"
  shows "fresh_spec A e = Ok sp"
proof -
  obtain goal result feedback where grf: "grf = (goal, result, feedback)" by (cases grf)
  obtain suffix where e: "e = def_id MSG (package @ ''/action/'' @ action_name @ suffix)"
    and "suffix \<in> set (map fst (action_type_definitions goal result feedback))"
    using assms(3) by (force simp: action_entries_def grf)
  then have loc: "located A e = Ok (package, True, action_name, contents)"
    using located_action [OF assms(1)] by (simp add: action_suffixes)
  have "fst (load_message_spec A e []) = Ok sp"
    using loc map_of_action_entries [OF assms(3)] assms(2)
    by (simp add: load_message_miss load_action_run m_find_fold_emplace m_find_def [of "[]"] e)
      (simp add: def_id_def)
  then show ?thesis by (simp add: fresh_spec_def e def_id_def)
qed

lemma message_loader:
  assumes "def_format d \<in> {MSG, IDL}" "coherent A cache"
  shows "fst (load_message_spec A d cache) = fresh_spec A d" "coherent A (snd (load_message_spec A d cache))"
proof -
  have fresh: "fresh_spec A d = fst (load_message_spec A d [])"
    using assms(1) by (auto simp: fresh_spec_def)
  have "fst (load_message_spec A d cache) = fresh_spec A d \<and> coherent A (snd (load_message_spec A d cache))"
  proof (cases "m_find cache d")
    case (Some sp)
    then show ?thesis
      using assms(2) by (simp add: load_message_hit coherent_def)
  next
    case None
    have nil: "m_find [] d = None" by (simp add: m_find_def)
    show ?thesis
    proof (cases "located A d")
      case (Ok loc)
      obtain package is_action action_name contents where loc: "loc = (package, is_action, action_name, contents)"
        by (cases loc)
      show ?thesis
      proof (cases is_action)
        case True
        show ?thesis
          unfolding fresh load_message_miss [OF None] load_message_miss [OF nil] load_action_run
          using Ok loc True None assms(2) fresh_action [of A d package action_name contents]
          by (auto simp: Let_def m_find_fold_emplace nil split: outcome.split intro!: coherent_fold_emplace)
      next
        case False
        then show ?thesis
          using Ok loc None assms(2) fresh
          by (simp add: load_message_miss nil Let_def coherent_emplace)
      qed
    qed (use None nil fresh assms(2) in \<open>simp_all add: load_message_miss\<close>)
  qed
  then show "fst (load_message_spec A d cache) = fresh_spec A d" "coherent A (snd (load_message_spec A d cache))"
    by simp_all
qed

interpretation msg: definition_loader "{MSG, IDL}" "load_message_spec A" "coherent A" "fresh_spec A" for A
  by unfold_locales (rule message_loader; assumption)+

interpretation srv: definition_loader "{SRV_REQ, SRV_RESP}" "load_service_spec A" "coherent A" "fresh_spec A" for A
  by unfold_locales (rule service_loader; assumption)+

section \<open>Complete definitions\<close>

lemma share_directory_not_UB [simp]: "share_directory A p \<noteq> UB u"
  by (simp add: share_directory_def split: sum.split)

lemma split_not_UB [simp]: "split_action_msg_definition s \<noteq> UB u" "split_service_definition s \<noteq> UB u"
  by (simp_all add: split_action_msg_definition_def split_service_definition_def Let_def split: list.split)

lemma definition_file_not_UB [simp]: "definition_file A p f n \<noteq> UB u"
  unfolding definition_file_def by (cases "share_directory A p") (auto split: option.splits)

lemma obind_UB: "obind m k = UB u \<Longrightarrow> (m = UB u \<Longrightarrow> P) \<Longrightarrow> (\<And>a. m = Ok a \<Longrightarrow> k a = UB u \<Longrightarrow> P) \<Longrightarrow> P"
  by (cases m) auto

lemma fresh_spec_not_UB: "fresh_spec A d \<noteq> UB u"
proof (cases "def_format d \<in> {SRV_REQ, SRV_RESP}")
  case True
  have "m_find [] d = None" by (simp add: m_find_def)
  then have "fst (load_service_spec A d []) \<noteq> UB u"
    unfolding load_service_spec_def
    by (simp add: cpp_defs Let_def split: option.split prod.split outcome.split)
  with True show ?thesis by (simp add: fresh_spec_def)
next
  case False
  have "m_find [] d = None" by (simp add: m_find_def)
  moreover have "located A d \<noteq> UB u"
    unfolding located_def Let_def by (auto split: option.split elim!: obind_UB)
  ultimately have "fst (load_message_spec A d []) \<noteq> UB u"
    by (auto simp: load_message_miss load_action_run Let_def split: outcome.split option.split)
  with False show ?thesis by (simp add: fresh_spec_def)
qed

text \<open>The complete definition, computed without a cache.\<close>

definition full_msg_spec :: "ament \<Rightarrow> nat \<Rightarrow> string \<Rightarrow> (MessageDefinitionFormat \<times> string) outcome" where
  "full_msg_spec A depth name =
     (case append_recursive (pure_load (fresh_spec A)) depth (def_id MSG name) ([], []) of
        (Ok text, _) \<Rightarrow> Ok (MSG, text)
      | (Throw (DefinitionNotFoundError _), (_, seen)) \<Rightarrow>
          (case append_recursive (pure_load (fresh_spec A)) depth (def_id IDL name) ([], seen) of
             (Ok text, _) \<Rightarrow> Ok (IDL, delimiter (def_id IDL name) @ text)
           | (Throw e, _) \<Rightarrow> Throw e
           | (UB u, _) \<Rightarrow> UB u)
      | (Throw e, _) \<Rightarrow> Throw e
      | (UB u, _) \<Rightarrow> UB u)"

lemma get_full_msg_text_run:
  assumes "coherent A cache"
  shows "fst (get_full_msg_text A depth name cache) = full_msg_spec A depth name"
    "coherent A (snd (get_full_msg_text A depth name cache))"
proof -
  obtain r cache' seen' where first:
    "append_recursive (load_message_spec A) depth (def_id MSG name) (cache, []) = (r, (cache', seen'))" "coherent A cache'"
    "append_recursive (pure_load (fresh_spec A)) depth (def_id MSG name) ([], []) = (r, ([], seen'))"
    by (rule msg.append_uncached [OF _ assms, of "def_id MSG name" depth "[]"]) (simp add: def_id_def)
  obtain r' cache'' seen'' where second:
    "append_recursive (load_message_spec A) depth (def_id IDL name) (cache', seen') = (r', (cache'', seen''))" "coherent A cache''"
    "append_recursive (pure_load (fresh_spec A)) depth (def_id IDL name) ([], seen') = (r', ([], seen''))"
    by (rule msg.append_uncached [OF _ first(2), of "def_id IDL name" depth seen']) (simp add: def_id_def)
  note runs = first(1,3) [unfolded def_id_def] second(1,3) [unfolded def_id_def]
  have "fst (get_full_msg_text A depth name cache) = full_msg_spec A depth name \<and>
      coherent A (snd (get_full_msg_text A depth name cache))"
  proof (cases r)
    case (Throw e)
    with runs first(2) second(2) show ?thesis
      by (cases e; cases r') (simp_all add: get_full_msg_text_def full_msg_spec_def with_seen_deps_def cpp_defs def_id_def Let_def)
  qed (use runs first(2) in \<open>simp_all add: get_full_msg_text_def full_msg_spec_def with_seen_deps_def cpp_defs def_id_def\<close>)
  then show "fst (get_full_msg_text A depth name cache) = full_msg_spec A depth name"
    "coherent A (snd (get_full_msg_text A depth name cache))"
    by simp_all
qed

text \<open>An index with one package of two message types, the first of which uses the second.\<close>

definition ament_example :: ament where
  "ament_example =
     \<lparr>get_package_share_directory = (\<lambda>p. if p = ''p'' then Inr ''/share'' else Inl ''package not found''),
      rosidl_interfaces = (\<lambda>p. if p = ''p'' then Some (''msg/A.msg'' @ NL @ ''msg/B.msg'') else None),
      file_contents = (\<lambda>path.
        if path = ''/share/msg/A.msg'' then Some (''B b'' @ NL)
        else if path = ''/share/msg/B.msg'' then Some (''int32 x'' @ NL)
        else None)\<rparr>"

text \<open>C33: The cache of definitions is transparent: a cache whose entries are what reading the files
  gives stays such a cache, and the complete definition of a type is the one an empty cache gives.\<close>

theorem definition_cache_transparent:
  assumes "coherent A cache"
  shows "fst (get_full_msg_text A depth name cache) = fst (get_full_msg_text A depth name []) \<and>
    coherent A (snd (get_full_msg_text A depth name cache))"
  using get_full_msg_text_run [OF assms, of depth name] get_full_msg_text_run [OF coherent_Nil, of A depth name]
  by simp

theorem definition_cache_transparent_witness:
  "fst (get_full_msg_text ament_example 5 ''p/B'' (snd (get_full_msg_text ament_example 5 ''p/A'' []))) =
   fst (get_full_msg_text ament_example 5 ''p/B'' [])"
  using definition_cache_transparent [OF conjunct2 [OF definition_cache_transparent [OF coherent_Nil]]] by blast

text \<open>C34: The complete definition of a message type is its own text followed by one section for every
  definition it depends on, directly or not, and for no other: each dependency appears exactly once.
  When the definition comes from IDL files, a header for the type itself comes first.\<close>

theorem full_definition_complete:
  assumes "get_full_msg_text A depth name cache = (Ok (f, text), cache')" "coherent A cache"
  shows "\<exists>ds. distinct ds \<and> set ds = {d. (def_id f name, d) \<in> (depends (fresh_spec A))\<^sup>+} \<and>
     text = (if f = IDL then delimiter (def_id f name) else []) @ text_of (fresh_spec A) (def_id f name) @
       concat (map (definition_section (fresh_spec A)) ds)"
proof -
  have full: "full_msg_spec A depth name = Ok (f, text)"
    using get_full_msg_text_run(1) [OF assms(2), of depth name] assms(1) by simp
  obtain r seen' c' where first:
    "append_recursive (pure_load (fresh_spec A)) depth (def_id MSG name) ([], []) = (r, (c', seen'))"
    by (metis prod.exhaust)
  have part: "\<exists>ds. distinct ds \<and> set ds = {d. (def_id g name, d) \<in> (depends (fresh_spec A))\<^sup>+} \<and>
      t = text_of (fresh_spec A) (def_id g name) @ concat (map (definition_section (fresh_spec A)) ds)"
    if run: "append_recursive (pure_load (fresh_spec A)) depth (def_id g name) ([], seen) = (Ok t, u)"
      and other: "\<And>e. e \<in> set seen \<Longrightarrow> def_format e \<noteq> g" for g t u seen
  proof -
    from append_visits(1) [OF refl run] obtain ds where
      "t = text_of (fresh_spec A) (def_id g name) @ concat (map (definition_section (fresh_spec A)) ds)"
      "visited (fresh_spec A) seen (deps_of (fresh_spec A) (def_id g name)) ds" by auto
    moreover from visited_reachable [OF this(2)] other
    have "set ds = {d. (def_id g name, d) \<in> (depends (fresh_spec A))\<^sup>+}" by (simp add: def_id_def)
    ultimately show ?thesis by (auto simp: visited_def)
  qed
  show ?thesis
  proof (cases r)
    case (Ok t)
    with full first have "f = MSG" "text = t" by (simp_all add: full_msg_spec_def)
    with part [of MSG "[]"] first Ok show ?thesis by simp
  next
    case (Throw e)
    with full first obtain t u where second:
      "append_recursive (pure_load (fresh_spec A)) depth (def_id IDL name) ([], seen') = (Ok t, u)"
      and f: "f = IDL" "text = delimiter (def_id IDL name) @ t"
      by (auto simp: full_msg_spec_def split: exn.splits prod.splits outcome.splits)
    have "def_format e \<noteq> IDL" if "e \<in> set seen'" for e
      using append_seen_format(1) [of "pure_load (fresh_spec A)" depth "def_id MSG name" "([], [])"] first that
      by (auto simp: def_id_def)
    from part [OF second this] f show ?thesis by auto
  next
    case (UB u)
    with full first show ?thesis by (simp add: full_msg_spec_def)
  qed
qed

theorem full_definition_complete_witness:
  "\<exists>ds. distinct ds \<and> set ds = {d. (def_id MSG ''p/A'', d) \<in> (depends (fresh_spec ament_example))\<^sup>+} \<and>
     ''B b'' @ NL @ NL @ delimiter (def_id MSG ''p/B'') @ ''int32 x'' @ NL =
       text_of (fresh_spec ament_example) (def_id MSG ''p/A'') @
       concat (map (definition_section (fresh_spec ament_example)) ds)"
proof -
  have "fst (get_full_msg_text ament_example 3 ''p/A'' []) =
      Ok (MSG, ''B b'' @ NL @ NL @ delimiter (def_id MSG ''p/B'') @ ''int32 x'' @ NL)"
    by code_simp
  then have "get_full_msg_text ament_example 3 ''p/A'' [] =
      (Ok (MSG, ''B b'' @ NL @ NL @ delimiter (def_id MSG ''p/B'') @ ''int32 x'' @ NL),
       snd (get_full_msg_text ament_example 3 ''p/A'' []))"
    by (metis prod.collapse)
  from full_definition_complete [OF this coherent_Nil] show ?thesis by simp
qed

text \<open>C35: When the definitions that can be reached from a type are finitely many, the recursion over
  them ends within a depth greater than their number: the complete definition is returned or an
  exception is thrown, the stack does not overflow.\<close>

theorem full_definition_returns:
  assumes "coherent A cache" "finite U" "\<forall>d \<in> U. set (deps_of (fresh_spec A) d) \<subseteq> U"
    and "def_id MSG name \<in> U" "def_id IDL name \<in> U" "card U < depth"
  shows "(\<exists>v. fst (get_full_msg_text A depth name cache) = Ok v) \<or>
    (\<exists>e. fst (get_full_msg_text A depth name cache) = Throw e)"
proof -
  have less: "card (U - set seen) < depth" for seen
    using card_mono [OF assms(2), of "U - set seen"] assms(6) by auto
  have no: "fst (append_recursive (pure_load (fresh_spec A)) depth (def_id g name) (c, seen)) \<noteq> UB u"
    if "g = MSG \<or> g = IDL" for g c seen u
    using append_returns(1) [OF refl assms(2), of "fresh_spec A" "def_id g name" "(c, seen)" depth]
      assms(3-5) fresh_spec_not_UB less [of seen] that by auto
  obtain r c seen where first:
    "append_recursive (pure_load (fresh_spec A)) depth (def_id MSG name) ([], []) = (r, (c, seen))"
    by (metis prod.exhaust)
  obtain r' s' where second:
    "append_recursive (pure_load (fresh_spec A)) depth (def_id IDL name) ([], seen) = (r', s')"
    by (rule prod.exhaust)
  have "r \<noteq> UB w" "r' \<noteq> UB w" for w
    using no [of MSG "[]" "[]" w] no [of IDL "[]" seen w] first second by simp_all
  with first second have "full_msg_spec A depth name \<noteq> UB u" for u
    by (cases r; cases r') (simp_all add: full_msg_spec_def split: exn.split)
  then show ?thesis
    unfolding get_full_msg_text_run(1) [OF assms(1)] by (cases "full_msg_spec A depth name") auto
qed

theorem full_definition_returns_witness:
  "(\<exists>v. fst (get_full_msg_text ament_example 4 ''p/A'' []) = Ok v) \<or>
   (\<exists>e. fst (get_full_msg_text ament_example 4 ''p/A'' []) = Throw e)"
proof (rule full_definition_returns [where U = "{def_id MSG ''p/A'', def_id MSG ''p/B'', def_id IDL ''p/A''}"])
  have "deps_of (fresh_spec ament_example) (def_id MSG ''p/A'') = [def_id MSG ''p/B'']"
    "deps_of (fresh_spec ament_example) (def_id MSG ''p/B'') = []"
    "deps_of (fresh_spec ament_example) (def_id IDL ''p/A'') = []"
    by code_simp+
  then show "\<forall>d \<in> {def_id MSG ''p/A'', def_id MSG ''p/B'', def_id IDL ''p/A''}.
      set (deps_of (fresh_spec ament_example) d) \<subseteq> {def_id MSG ''p/A'', def_id MSG ''p/B'', def_id IDL ''p/A''}"
    by simp
qed (simp_all add: coherent_Nil def_id_def card_insert_if)

text \<open>The ROS 2 type \<open>wstring\<close> is not among the primitive types.\<close>

lemma wstring_is_a_dependency: "parse_msg_dependencies (''wstring name'' @ [CHR 0x0A]) package = [package @ ''/wstring'']"
proof -
  have "field_types match_field_type True (''wstring name'' @ [CHR 0x0A]) = [''wstring'']"
    by code_simp
  then show ?thesis by (simp add: parse_msg_dependencies_def PRIMITIVE_TYPES_def)
qed

text \<open>When the definition of a service is not found, its request and response are both empty and
  no exception is thrown: nothing is read from IDL files.\<close>

lemma missing_service_definition_is_empty:
  assumes "coherent A cache" "fresh_spec A (def_id SRV_REQ name) = Throw (DefinitionNotFoundError what)"
  shows "fst (get_full_srv_text A (Suc depth) name cache) = Ok ([], [])"
proof -
  have "fst (load_service_spec A (def_id SRV_REQ name) cache) = Throw (DefinitionNotFoundError what)"
    using service_loader(1) [OF _ assms(1), of "def_id SRV_REQ name"] assms(2) by (simp add: def_id_def)
  then obtain cache' where
    "load_service_spec A (def_id SRV_REQ name) cache = (Throw (DefinitionNotFoundError what), cache')"
    by (metis prod.collapse)
  then show ?thesis
    by (simp add: get_full_srv_text_def with_seen_deps_def def_id_def)
qed

lemma missing_service_definition_is_empty_witness:
  "fst (get_full_srv_text ament_example (Suc 3) ''p/srv/Add'' []) = Ok ([], [])"
proof (rule missing_service_definition_is_empty [OF coherent_Nil])
  show "fresh_spec ament_example (def_id SRV_REQ ''p/srv/Add'') =
      Throw (DefinitionNotFoundError (''find Add.srv in index_contents failed: '' @ ''msg/A.msg'' @ NL @ ''msg/B.msg''))"
    by code_simp
qed

end
