(* ===== verification/Parameter_Interface.thy ===== *)
theory Parameter_Interface
  imports Server_State
begin

text \<open>
  \<open>ParameterInterface\<close> of the ROS 2 bridge (\<open>parameter_interface.cpp\<close>): reading, setting and
  watching the parameters of other nodes.  A parameter is named by its node and its name with a dot
  in between.  What the nodes answer is the argument \<open>N\<close>; the requests to set parameters are recorded
  in the state.  The asynchronous calls only read the state and are collected in the order in which
  they were started.
\<close>

section \<open>Parameters of ROS\<close>

datatype ros_value =
    RNotSet
  | RBool bool
  | RInteger int64_t
  | RDouble double
  | RString string
  | RByteArray bytes
  | RBoolArray "bool list"
  | RIntegerArray "int64_t list"
  | RDoubleArray "double list"
  | RStringArray "string list"

type_synonym ros_parameter = "string \<times> ros_value"

definition PARAM_SEP :: char where
  "PARAM_SEP = CHR ''.''"

text \<open>Without a dot, \<open>find\<close> gives \<open>npos\<close> and \<open>npos + 1\<close> is zero: both parts are the whole name.\<close>

definition get_node_and_param_name :: "string \<Rightarrow> string \<times> string" where
  "get_node_and_param_name name =
     (case str_find0 [PARAM_SEP] name of
        Some i \<Rightarrow> (take i name, drop (i + 1) name)
      | None \<Rightarrow> (name, name))"

definition prepend_node_name_to_param_name :: "string \<Rightarrow> string \<Rightarrow> string" where
  "prepend_node_name_to_param_name param_name node_name = node_name @ [PARAM_SEP] @ param_name"

definition get_node_and_node_namespace :: "string \<Rightarrow> (string \<times> string) outcome" where
  "get_node_and_node_namespace fqn_node_name =
     (case find_last_of fqn_node_name (CHR ''/'') of
        None \<Rightarrow> Throw (StdException (''Invalid fully qualified node name: '' @ fqn_node_name))
      | Some found \<Rightarrow> Ok (take found fqn_node_name, drop (found + 1) fqn_node_name))"

text \<open>\<open>getValue<T>\<close> of an element; a value of another type is a \<open>bad_any_cast\<close>.\<close>

definition bad_any_cast :: exn where
  "bad_any_cast = StdException ''bad any_cast''"

fun as_bool :: "parameter_value \<Rightarrow> bool outcome" where
  "as_bool (PBool b) = Ok b"
| "as_bool _ = Throw bad_any_cast"

fun as_integer :: "parameter_value \<Rightarrow> int64_t outcome" where
  "as_integer (PInteger i) = Ok i"
| "as_integer _ = Throw bad_any_cast"

fun as_double :: "parameter_value \<Rightarrow> double outcome" where
  "as_double (PDouble d) = Ok d"
| "as_double _ = Throw bad_any_cast"

fun as_string :: "parameter_value \<Rightarrow> string outcome" where
  "as_string (PString s) = Ok s"
| "as_string _ = Throw bad_any_cast"

definition unsupported :: exn where
  "unsupported = StdException ''Unsupported parameter type''"

text \<open>\<open>front()\<close> of an empty vector is undefined.\<close>

fun array_to_ros :: "parameter_value list \<Rightarrow> ros_value outcome" where
  "array_to_ros [] = UB ''front of an empty vector''"
| "array_to_ros (PBool b # vs) = obind (omap as_bool (PBool b # vs)) (\<lambda>bs. Ok (RBoolArray bs))"
| "array_to_ros (PInteger i # vs) = obind (omap as_integer (PInteger i # vs)) (\<lambda>is. Ok (RIntegerArray is))"
| "array_to_ros (PDouble d # vs) = obind (omap as_double (PDouble d # vs)) (\<lambda>ds. Ok (RDoubleArray ds))"
| "array_to_ros (PString s # vs) = obind (omap as_string (PString s # vs)) (\<lambda>ss. Ok (RStringArray ss))"
| "array_to_ros _ = Throw unsupported"

fun value_to_ros :: "parameter_value \<Rightarrow> ros_value outcome" where
  "value_to_ros (PBool b) = Ok (RBool b)"
| "value_to_ros (PInteger i) = Ok (RInteger i)"
| "value_to_ros (PDouble d) = Ok (RDouble d)"
| "value_to_ros (PString s) = Ok (RString s)"
| "value_to_ros (PByteArray bs) = Ok (RByteArray bs)"
| "value_to_ros (PArray vs) = array_to_ros vs"
| "value_to_ros PNotSet = Ok RNotSet"
| "value_to_ros (PStruct _) = Throw unsupported"

definition to_ros_param :: "parameter \<Rightarrow> ros_parameter outcome" where
  "to_ros_param p = obind (value_to_ros (p_value p)) (\<lambda>v. Ok (p_name p, v))"

fun value_from_ros :: "ros_value \<Rightarrow> parameter_value" where
  "value_from_ros RNotSet = PNotSet"
| "value_from_ros (RBool b) = PBool b"
| "value_from_ros (RInteger i) = PInteger i"
| "value_from_ros (RDouble d) = PDouble d"
| "value_from_ros (RString s) = PString s"
| "value_from_ros (RByteArray bs) = PByteArray bs"
| "value_from_ros (RBoolArray bs) = PArray (map PBool bs)"
| "value_from_ros (RIntegerArray is) = PArray (map PInteger is)"
| "value_from_ros (RDoubleArray ds) = PArray (map PDouble ds)"
| "value_from_ros (RStringArray ss) = PArray (map PString ss)"

definition from_ros_param :: "ros_parameter \<Rightarrow> parameter" where
  "from_ros_param p = \<lparr>p_name = fst p, p_value = value_from_ros (snd p)\<rparr>"

section \<open>State and environment\<close>

record parameter_interface =
  param_whitelist_patterns :: "regex list"
  param_clients_by_node :: "string list"
  subscribed_params_by_node :: "(string \<times> string list) list"
  param_subscriptions_by_node :: "string list"
  parameters_set :: "(string \<times> ros_parameter list) list"

definition ParameterInterface :: "regex list \<Rightarrow> parameter_interface" where
  "ParameterInterface patterns =
     \<lparr>param_whitelist_patterns = patterns, param_clients_by_node = [], subscribed_params_by_node = [],
      param_subscriptions_by_node = [], parameters_set = []\<rparr>"

text \<open>
  The node and the parameter services of the other nodes.  A call that gives \<open>Inl\<close> throws; a request
  that gives \<open>None\<close> was not answered within the timeout.
\<close>

record ros_node =
  get_fully_qualified_name :: string
  get_node_names :: "string list"
  get_service_names_and_types_by_node :: "string \<Rightarrow> string \<Rightarrow> string + (string \<times> string list) list"
  service_is_ready :: "string \<Rightarrow> bool"
  list_parameters :: "string \<Rightarrow> string list option"
  request_parameters :: "string \<Rightarrow> string list \<Rightarrow> ros_parameter list option"
  set_parameters_answered :: "string \<Rightarrow> ros_parameter list \<Rightarrow> bool"

section \<open>Reading\<close>

definition get_node_parameters :: "ros_node \<Rightarrow> regex list \<Rightarrow> string \<Rightarrow> string list \<Rightarrow> parameter list outcome" where
  "get_node_parameters N patterns node_name param_names =
     (if \<not> service_is_ready N node_name
      then Throw (StdException (''Parameter service for node '' @ quoted node_name @ '' is not ready''))
      else
        obind (if param_names = []
               then (case list_parameters N node_name of
                       None \<Rightarrow> Throw (StdException (''Failed to retrieve parameter names for node '' @ quoted node_name))
                     | Some names \<Rightarrow> Ok names)
               else Ok param_names) (\<lambda>params_to_request.
        case request_parameters N node_name params_to_request of
          None \<Rightarrow> Throw (StdException (''Timed out waiting for '' @ to_string (length params_to_request) @
                    '' parameter(s) from node '' @ quoted node_name))
        | Some params \<Rightarrow>
            Ok (map from_ros_param
              (filter (\<lambda>(name, _). is_whitelisted name patterns)
                (map (\<lambda>(name, v). (prepend_node_name_to_param_name name node_name, v)) params)))))"

text \<open>The nodes that offer the services to list and to get parameters.\<close>

definition offers_parameters :: "(string \<times> string list) list \<Rightarrow> bool" where
  "offers_parameters service_names_and_types =
     ((\<exists>(_, types) \<in> set service_names_and_types. ''rcl_interfaces/srv/ListParameters'' \<in> set types) \<and>
      (\<exists>(_, types) \<in> set service_names_and_types. ''rcl_interfaces/srv/GetParameters'' \<in> set types))"

fun all_nodes :: "ros_node \<Rightarrow> string list \<Rightarrow> (string \<times> string list) list \<Rightarrow> (string \<times> string list) list outcome" where
  "all_nodes N [] m = Ok m"
| "all_nodes N (fqn # fqns) m =
     (if fqn = get_fully_qualified_name N \<or> fqn = ''/cobridge_component_manager'' then all_nodes N fqns m
      else
        obind (get_node_and_node_namespace fqn) (\<lambda>(node_namespace, node_name).
        obind (rcl (get_service_names_and_types_by_node N node_name node_namespace)) (\<lambda>services.
        all_nodes N fqns (if offers_parameters services then m_emplace fqn [] m else m))))"

definition names_by_node :: "string list \<Rightarrow> (string \<times> string list) list" where
  "names_by_node param_names =
     fold (\<lambda>full m.
             let (node_name, param_name) = get_node_and_param_name full
             in m_assign node_name ((case m_find m node_name of Some ps \<Rightarrow> ps | None \<Rightarrow> []) @ [param_name]) m)
       param_names []"

text \<open>A failed request is logged and skipped; each answer goes to the front of the result.\<close>

fun collect_params :: "parameter list outcome list \<Rightarrow> parameter list \<Rightarrow> parameter list outcome" where
  "collect_params [] result = Ok result"
| "collect_params (f # fs) result =
     (case f of
        Ok params \<Rightarrow> collect_params fs (params @ result)
      | Throw e \<Rightarrow> if exn_what e = None then Throw e else collect_params fs result
      | UB u \<Rightarrow> UB u)"

definition add_param_client :: "string \<Rightarrow> (parameter_interface, unit) cpp" where
  "add_param_client node_name =
     modify (\<lambda>s. s\<lparr>param_clients_by_node := s_insert node_name (param_clients_by_node s)\<rparr>)"

definition get_params :: "ros_node \<Rightarrow> string list \<Rightarrow> (parameter_interface, parameter list) cpp" where
  "get_params N param_names =
     bind (lift (if param_names \<noteq> [] then Ok (names_by_node param_names)
                 else all_nodes N (get_node_names N) [])) (\<lambda>param_names_by_node_name.
     bind (gets param_whitelist_patterns) (\<lambda>patterns.
     bind (for_fold param_names_by_node_name (\<lambda>(node_name, names) futures.
             if node_name = get_fully_qualified_name N then ret futures
             else seq (add_param_client node_name)
                    (ret (futures @ [get_node_parameters N patterns node_name names]))) []) (\<lambda>futures.
     lift (collect_params futures []))))"

section \<open>Writing\<close>

text \<open>The requests by node; \<open>None\<close> is the \<open>return\<close> at the first name that is not whitelisted.\<close>

fun params_by_node :: "regex list \<Rightarrow> parameter list \<Rightarrow> (string \<times> ros_parameter list) list \<Rightarrow>
    (string \<times> ros_parameter list) list option outcome" where
  "params_by_node patterns [] m = Ok (Some m)"
| "params_by_node patterns (p # ps) m =
     (if \<not> is_whitelisted (p_name p) patterns then Ok None
      else
        obind (to_ros_param p) (\<lambda>(name, v).
        let (node_name, param_name) = get_node_and_param_name name
        in params_by_node patterns ps
             (m_assign node_name ((case m_find m node_name of Some qs \<Rightarrow> qs | None \<Rightarrow> []) @ [(param_name, v)]) m)))"

definition set_node_parameters :: "ros_node \<Rightarrow> string \<Rightarrow> ros_parameter list \<Rightarrow> (parameter_interface, unit) cpp" where
  "set_node_parameters N node_name params =
     (if \<not> service_is_ready N node_name
      then throw (StdException (''Parameter service for node '' @ quoted node_name @ '' is not ready''))
      else
        seq (modify (\<lambda>s. s\<lparr>parameters_set := parameters_set s @ [(node_name, params)]\<rparr>)) (
        if \<not> set_parameters_answered N node_name params
        then throw (StdException (''Param client failed to set '' @ to_string (length params) @
               '' parameter(s) for node '' @ quoted node_name @ '' within the given timeout''))
        else ret ()))"

definition set_params :: "ros_node \<Rightarrow> parameter list \<Rightarrow> (parameter_interface, unit) cpp" where
  "set_params N parameters =
     bind (gets param_whitelist_patterns) (\<lambda>patterns.
     bind (lift (params_by_node patterns parameters [])) (\<lambda>grouped.
     case grouped of
       None \<Rightarrow> ret ()
     | Some m \<Rightarrow>
         seq (for_each m (\<lambda>(node_name, _). add_param_client node_name)) (
         for_each m (\<lambda>(node_name, params). catch_std (set_node_parameters N node_name params) (\<lambda>_. ret ())))))"

section \<open>Watching\<close>

text \<open>The names are recorded one by one; the \<open>return\<close> leaves the names before it recorded.\<close>

fun subscribe_names :: "string list \<Rightarrow> string list \<Rightarrow> (parameter_interface, string list option) cpp" where
  "subscribe_names [] nodes_to_subscribe = ret (Some nodes_to_subscribe)"
| "subscribe_names (param_name # names) nodes_to_subscribe =
     bind (gets param_whitelist_patterns) (\<lambda>patterns.
     if \<not> is_whitelisted param_name patterns then ret None
     else
       let (node_name, paramN) = get_node_and_param_name param_name in
       bind (gets (\<lambda>s. \<not> m_contains (subscribed_params_by_node s) node_name)) (\<lambda>newly_created.
       seq (modify (\<lambda>s. s\<lparr>subscribed_params_by_node :=
              m_assign node_name
                (s_insert paramN (case m_find (subscribed_params_by_node s) node_name of Some ps \<Rightarrow> ps | None \<Rightarrow> []))
                (subscribed_params_by_node s)\<rparr>)) (
       subscribe_names names
         (if newly_created then s_insert node_name nodes_to_subscribe else nodes_to_subscribe))))"

definition subscribe_params :: "string list \<Rightarrow> (parameter_interface, unit) cpp" where
  "subscribe_params param_names =
     bind (subscribe_names param_names []) (\<lambda>nodes.
     case nodes of
       None \<Rightarrow> ret ()
     | Some nodes_to_subscribe \<Rightarrow>
         for_each nodes_to_subscribe (\<lambda>node_name.
           seq (add_param_client node_name)
             (modify (\<lambda>s. s\<lparr>param_subscriptions_by_node := s_insert node_name (param_subscriptions_by_node s)\<rparr>))))"

text \<open>\<open>erase\<close> of the iterator that \<open>find\<close> gives for a missing element is undefined.\<close>

definition unsubscribe_param :: "string \<Rightarrow> (parameter_interface, unit) cpp" where
  "unsubscribe_param param_name =
     (let (node_name, paramN) = get_node_and_param_name param_name in
      bind (gets (\<lambda>s. m_find (subscribed_params_by_node s) node_name)) (\<lambda>subscribed_node_params.
      case subscribed_node_params of
        None \<Rightarrow> ret ()
      | Some ps \<Rightarrow>
          if paramN \<notin> set ps then ub ''erase of end()''
          else if s_erase paramN ps \<noteq> []
          then modify (\<lambda>s. s\<lparr>subscribed_params_by_node :=
                 m_assign node_name (s_erase paramN ps) (subscribed_params_by_node s)\<rparr>)
          else
            seq (modify (\<lambda>s. s\<lparr>subscribed_params_by_node := m_erase node_name (subscribed_params_by_node s)\<rparr>)) (
            bind (gets param_subscriptions_by_node) (\<lambda>subs.
            if node_name \<notin> set subs then ub ''erase of end()''
            else modify (\<lambda>s. s\<lparr>param_subscriptions_by_node := s_erase node_name (param_subscriptions_by_node s)\<rparr>)))))"

definition unsubscribe_params :: "string list \<Rightarrow> (parameter_interface, unit) cpp" where
  "unsubscribe_params param_names = for_each param_names unsubscribe_param"

text \<open>
  The callback of the parameter events of a node: the changed parameters that are watched.  Looking
  up a node that is no longer there adds it with no parameters.
\<close>

definition parameter_event :: "string \<Rightarrow> ros_parameter list \<Rightarrow> (parameter_interface, parameter list) cpp" where
  "parameter_event node_name changed =
     seq (modify (\<lambda>s. s\<lparr>subscribed_params_by_node := m_emplace node_name [] (subscribed_params_by_node s)\<rparr>)) (
     gets (\<lambda>s.
       map (\<lambda>(name, v). from_ros_param (prepend_node_name_to_param_name name node_name, v))
         (filter (\<lambda>(name, _). name \<in> set (case m_find (subscribed_params_by_node s) node_name of Some ps \<Rightarrow> ps | None \<Rightarrow> []))
           changed)))"

section \<open>Conversions\<close>

fun is_empty_array :: "ros_value \<Rightarrow> bool" where
  "is_empty_array (RBoolArray bs) = (bs = [])"
| "is_empty_array (RIntegerArray is) = (is = [])"
| "is_empty_array (RDoubleArray ds) = (ds = [])"
| "is_empty_array (RStringArray ss) = (ss = [])"
| "is_empty_array _ = False"

lemma omap_as [simp]:
  "omap as_bool (map PBool bs) = Ok bs" "omap as_integer (map PInteger is) = Ok is"
  "omap as_double (map PDouble ds) = Ok ds" "omap as_string (map PString ss) = Ok ss"
proof -
  show "omap as_bool (map PBool bs) = Ok bs" by (induction bs) auto
  show "omap as_integer (map PInteger is) = Ok is" by (induction "is") auto
  show "omap as_double (map PDouble ds) = Ok ds" by (induction ds) auto
  show "omap as_string (map PString ss) = Ok ss" by (induction ss) auto
qed

text \<open>C36: A parameter that a node reported to a client can be sent back unchanged to be set, except
  an empty array, for which the conversion reads the first element of an empty vector.\<close>

theorem ros_parameter_roundtrip:
  "to_ros_param (from_ros_param p) =
     (if is_empty_array (snd p) then UB ''front of an empty vector'' else Ok p)"
proof (cases p)
  case (Pair name v)
  have "value_to_ros (value_from_ros v) = (if is_empty_array v then UB ''front of an empty vector'' else Ok v)"
  proof (cases v)
    case (RBoolArray bs)
    then show ?thesis using omap_as(1) [of bs] by (cases bs) auto
  next
    case (RIntegerArray "is")
    then show ?thesis using omap_as(2) [of "is"] by (cases "is") auto
  next
    case (RDoubleArray ds)
    then show ?thesis using omap_as(3) [of ds] by (cases ds) auto
  next
    case (RStringArray ss)
    then show ?thesis using omap_as(4) [of ss] by (cases ss) auto
  qed simp_all
  with Pair show ?thesis by (simp add: to_ros_param_def from_ros_param_def)
qed

lemma node_and_param_name:
  "PARAM_SEP \<notin> set node \<Longrightarrow> get_node_and_param_name (prepend_node_name_to_param_name param node) = (node, param)"
  by (simp add: get_node_and_param_name_def prepend_node_name_to_param_name_def str_find0_single_append)

section \<open>Only whitelisted parameters are read\<close>

lemma get_node_parameters_whitelisted:
  "get_node_parameters N patterns node names = Ok ps \<Longrightarrow> \<forall>p \<in> set ps. is_whitelisted (p_name p) patterns"
  by (auto simp: get_node_parameters_def obind_eq_Ok from_ros_param_def split: if_splits option.splits)

lemma collect_params_all:
  "collect_params fs result = Ok ps \<Longrightarrow> \<forall>p \<in> set result. P p \<Longrightarrow>
     \<forall>qs. Ok qs \<in> set fs \<longrightarrow> (\<forall>p \<in> set qs. P p) \<Longrightarrow> \<forall>p \<in> set ps. P p"
proof (induction fs arbitrary: result)
  case (Cons f fs)
  show ?case
  proof (cases f)
    case (Ok qs)
    with Cons.IH [of "qs @ result"] Cons.prems show ?thesis by auto
  qed (use Cons.IH [of result] Cons.prems in \<open>auto split: if_splits\<close>)
qed simp

lemma add_param_client_simps [simp]:
  "add_param_client node s = (Ok (), s\<lparr>param_clients_by_node := s_insert node (param_clients_by_node s)\<rparr>)"
  by (simp add: add_param_client_def cpp_defs)

lemma futures_run:
  "\<exists>fs t. for_fold m (\<lambda>(node, names) futures.
      if node = this then ret futures
      else seq (add_param_client node) (ret (futures @ [get_node_parameters N patterns node names]))) acc s = (Ok fs, t) \<and>
    set fs \<subseteq> set acc \<union> {get_node_parameters N patterns node names | node names. True} \<and>
    t = s\<lparr>param_clients_by_node := param_clients_by_node t\<rparr>"
proof (induction m arbitrary: acc s)
  case Nil
  show ?case by (simp add: cpp_defs)
next
  case (Cons x m)
  obtain node names where x: "x = (node, names)" by (cases x)
  show ?case
  proof (cases "node = this")
    case True
    with Cons.IH [of acc s] show ?thesis by (simp add: x)
  next
    case False
    let ?s = "s\<lparr>param_clients_by_node := s_insert node (param_clients_by_node s)\<rparr>"
    let ?acc = "acc @ [get_node_parameters N patterns node names]"
    have "for_fold (x # m) (\<lambda>(node, names) futures.
        if node = this then ret futures
        else seq (add_param_client node) (ret (futures @ [get_node_parameters N patterns node names]))) acc s =
      for_fold m (\<lambda>(node, names) futures.
        if node = this then ret futures
        else seq (add_param_client node) (ret (futures @ [get_node_parameters N patterns node names]))) ?acc ?s"
      using False by (simp add: x bind_def seq_def ret_def)
    with Cons.IH [of ?acc ?s] show ?thesis by (auto; blast?)
  qed
qed

text \<open>A node with one other node, which offers two parameters.\<close>

definition node_example :: ros_node where
  "node_example =
     \<lparr>get_fully_qualified_name = ''/cobridge'', get_node_names = [''/cobridge'', ''/n''],
      get_service_names_and_types_by_node = (\<lambda>node ns. Inr
        [(''/n/list_parameters'', [''rcl_interfaces/srv/ListParameters'']),
         (''/n/get_parameters'', [''rcl_interfaces/srv/GetParameters''])]),
      service_is_ready = (\<lambda>node. node = ''/n''),
      list_parameters = (\<lambda>node. Some [''a'', ''secret'']),
      request_parameters = (\<lambda>node names. Some (map (\<lambda>n. (n, RBool True)) names)),
      set_parameters_answered = (\<lambda>node ps. True)\<rparr>"

text \<open>C37: Whatever is asked for, and whatever the nodes answer, a parameter whose full name is not
  on the whitelist is never among the parameters read.\<close>

theorem get_params_whitelisted:
  assumes "get_params N param_names s = (Ok params, t)" "p \<in> set params"
  shows "is_whitelisted (p_name p) (param_whitelist_patterns s)"
proof -
  let ?m = "if param_names \<noteq> [] then Ok (names_by_node param_names) else all_nodes N (get_node_names N) []"
  from assms(1) obtain m where m: "?m = Ok m"
    unfolding get_params_def by (cases ?m) (auto simp: bind_def lift_def throw_def)
  obtain fs u where futures: "for_fold m (\<lambda>(node_name, names) futures.
        if node_name = get_fully_qualified_name N then ret futures
        else seq (add_param_client node_name)
               (ret (futures @ [get_node_parameters N (param_whitelist_patterns s) node_name names]))) [] s = (Ok fs, u)"
    and sub: "set fs \<subseteq> {get_node_parameters N (param_whitelist_patterns s) node names | node names. True}"
    using futures_run [of m "get_fully_qualified_name N" N "param_whitelist_patterns s" "[]" s] by auto
  have "collect_params fs [] = Ok params"
    using assms(1) unfolding get_params_def by (simp add: m bind_def gets_def lift_def ret_def futures)
  moreover have "\<forall>qs. Ok qs \<in> set fs \<longrightarrow> (\<forall>p \<in> set qs. is_whitelisted (p_name p) (param_whitelist_patterns s))"
  proof (intro allI impI)
    fix qs
    assume "Ok qs \<in> set fs"
    with sub obtain node names where "get_node_parameters N (param_whitelist_patterns s) node names = Ok qs"
      by force
    then show "\<forall>p \<in> set qs. is_whitelisted (p_name p) (param_whitelist_patterns s)"
      by (rule get_node_parameters_whitelisted)
  qed
  ultimately show ?thesis
    using collect_params_all [of fs "[]" params "\<lambda>p. is_whitelisted (p_name p) (param_whitelist_patterns s)"] assms(2)
    by simp
qed

definition interface_example :: parameter_interface where
  "interface_example = ParameterInterface [\<lambda>name. name \<noteq> ''/n.secret'']"

theorem get_params_whitelisted_witness:
  "fst (get_params node_example [] interface_example) = Ok [\<lparr>p_name = ''/n.a'', p_value = PBool True\<rparr>] \<and>
   is_whitelisted ''/n.a'' (param_whitelist_patterns interface_example)"
proof -
  have run: "fst (get_params node_example [] interface_example) = Ok [\<lparr>p_name = ''/n.a'', p_value = PBool True\<rparr>]"
    by code_simp
  then have "get_params node_example [] interface_example =
      (Ok [\<lparr>p_name = ''/n.a'', p_value = PBool True\<rparr>], snd (get_params node_example [] interface_example))"
    by (metis prod.collapse)
  from get_params_whitelisted [OF this] run show ?thesis by simp
qed

text \<open>C38: Setting parameters is all or nothing with respect to the whitelist: when one of them is not
  on it, no parameter of the request is set, and the caller is not told.\<close>

theorem set_params_all_or_nothing:
  assumes "\<exists>p \<in> set params. \<not> is_whitelisted (p_name p) (param_whitelist_patterns s)"
  shows "snd (set_params N params s) = s"
proof -
  have "params_by_node patterns params m \<noteq> Ok (Some g)"
    if "\<exists>p \<in> set params. \<not> is_whitelisted (p_name p) patterns" for patterns m g
    using that
  proof (induction params arbitrary: m)
    case (Cons p ps)
    then show ?case
      by (cases "to_ros_param p") (auto split: prod.split)
  qed simp
  with assms show ?thesis
    unfolding set_params_def
    by (cases "params_by_node (param_whitelist_patterns s) params []")
      (auto simp: bind_def gets_def lift_def ret_def throw_def split: option.split)
qed

theorem set_params_all_or_nothing_witness:
  "snd (set_params node_example
     [\<lparr>p_name = ''/n.a'', p_value = PBool False\<rparr>, \<lparr>p_name = ''/n.secret'', p_value = PBool False\<rparr>] interface_example) =
   interface_example"
  by (rule set_params_all_or_nothing) (simp add: interface_example_def ParameterInterface_def is_whitelisted_def)

section \<open>The set of watched parameters\<close>





lemma s_insert_not_Nil [simp]: "s_insert x xs \<noteq> []"
  by (auto simp: s_insert_def)








text \<open>Unsubscribing from a parameter that is not watched, of a node that is watched, erases an
  iterator past the end.  This is what happens to a parameter that is not on the whitelist: the
  subscription to it is ignored without a report.\<close>

lemma unsubscribe_unwatched_undefined:
  assumes "get_node_and_param_name name = (n, p)" "m_find (subscribed_params_by_node s) n = Some ps" "p \<notin> set ps"
  shows "unsubscribe_params [name] s = (UB ''erase of end()'', s)"
  using assms by (simp add: unsubscribe_params_def unsubscribe_param_def seq_def bind_def gets_def ub_def lift_def)

lemma unsubscribe_unwatched_undefined_witness:
  "unsubscribe_params [''/n.secret'']
     (snd (subscribe_params [''/n.secret''] (snd (subscribe_params [''/n.a''] interface_example)))) =
   (UB ''erase of end()'', snd (subscribe_params [''/n.secret''] (snd (subscribe_params [''/n.a''] interface_example))))"
  by (rule unsubscribe_unwatched_undefined [where n = "''/n''" and p = "''secret''" and ps = "[''a'']"]) code_simp+

text \<open>A request with a name that is not whitelisted after one that is leaves a node without events.\<close>

lemma partial_subscription_undefined:
  "fst (subscribe_params [''/n.a'', ''/n.secret''] interface_example) = Ok () \<and>
   fst (unsubscribe_params [''/n.a''] (snd (subscribe_params [''/n.a'', ''/n.secret''] interface_example))) =
     UB ''erase of end()''"
  by code_simp

end
