(* ===== verification/Callback_Queue.thy ===== *)
theory Callback_Queue
  imports Cpp_Monad
begin

text \<open>
  \<open>CallbackQueue\<close> (\<open>callback_queue.hpp\<close>): the queue of the work that must not run in the thread of a
  connection.  A round of a worker takes the lock, so a step of the model is one call of
  \<open>add_callback\<close>, one call of \<open>stop\<close> or one round of \<open>do_work\<close>; waiting on the condition variable is
  a round that takes nothing.
\<close>

record 'c callback_queue =
  quit :: bool
  pending :: "'c list"

definition CallbackQueue :: "'c callback_queue" where
  "CallbackQueue = \<lparr>quit = False, pending = []\<rparr>"

definition stop :: "'c callback_queue \<Rightarrow> 'c callback_queue" where
  "stop q = q\<lparr>quit := True\<rparr>"

definition add_callback :: "'c \<Rightarrow> 'c callback_queue \<Rightarrow> 'c callback_queue" where
  "add_callback cb q = (if quit q then q else q\<lparr>pending := pending q @ [cb]\<rparr>)"

text \<open>One round of \<open>do_work\<close> up to \<open>lock.unlock()\<close>: the callback to run.\<close>

definition do_work :: "'c callback_queue \<Rightarrow> 'c option \<times> 'c callback_queue" where
  "do_work q =
     (if quit q then (None, q)
      else case pending q of
             [] \<Rightarrow> (None, q)
           | cb # cbs \<Rightarrow> (Some cb, q\<lparr>pending := cbs\<rparr>))"

section \<open>Order of the callbacks\<close>

datatype 'c queue_step = Add 'c | Work | Stop

fun queue_run :: "'c queue_step list \<Rightarrow> 'c callback_queue \<Rightarrow> 'c list \<times> 'c callback_queue" where
  "queue_run [] q = ([], q)"
| "queue_run (Add cb # ss) q = queue_run ss (add_callback cb q)"
| "queue_run (Stop # ss) q = queue_run ss (stop q)"
| "queue_run (Work # ss) q =
     (case do_work q of
        (None, q') \<Rightarrow> queue_run ss q'
      | (Some cb, q') \<Rightarrow> (let (cbs, q'') = queue_run ss q' in (cb # cbs, q'')))"

fun added :: "'c queue_step list \<Rightarrow> 'c list" where
  "added [] = []"
| "added (Add cb # ss) = cb # added ss"
| "added (Work # ss) = added ss"
| "added (Stop # ss) = []"

lemma queue_run_stopped: "quit q \<Longrightarrow> queue_run ss q = ([], q)"
  by (induction ss q rule: queue_run.induct) (auto simp: add_callback_def stop_def do_work_def)

lemma queue_run_fifo:
  "\<not> quit q \<Longrightarrow> fst (queue_run ss q) @ pending (snd (queue_run ss q)) = pending q @ added ss"
proof (induction ss q rule: queue_run.induct)
  case (3 ss q)
  then show ?case by (simp add: queue_run_stopped stop_def)
qed (auto simp: add_callback_def do_work_def split: list.splits prod.splits)

text \<open>C40: The callbacks run in the order in which they were added and each at most once; a callback that
  did not run is still in the queue, and one that was added after \<open>stop\<close> is neither.\<close>

theorem callbacks_fifo:
  "fst (queue_run ss CallbackQueue) @ pending (snd (queue_run ss CallbackQueue)) = added ss"
  using queue_run_fifo [of CallbackQueue ss] by (simp add: CallbackQueue_def)

end
