(* ===== verification/Ros2_Bridge.thy ===== *)
theory Ros2_Bridge
  imports Server_Invariant Definition_Closure Parameter_Interface Callback_Queue
begin

text \<open>
  The ROS 2 bridge (\<open>ros2_bridge.cpp\<close>): \<open>CoBridge\<close> advertises the topics and services of the ROS
  graph on the server and serves the requests of the clients.  Its members extend the state of the
  server, so that its handlers and the server run on one state.  The ROS node, the file system and
  the resource retriever are the argument \<open>E\<close>; what is published and which services are called is
  recorded in the state.
\<close>

section \<open>The ROS environment\<close>

datatype history_policy = HistorySystemDefault | HistoryKeepLast | HistoryKeepAll | HistoryUnknown

record qos_profile =
  qos_history :: history_policy
  qos_depth :: uint64_t
  qos_reliable :: bool
  qos_transient_local :: bool

record endpoint_info =
  ep_node_name :: string
  ep_node_namespace :: string
  ep_qos :: qos_profile

record ros_subscription =
  sub_topic :: string
  sub_datatype :: string
  sub_qos :: qos_profile

record ros_publisher =
  pub_topic :: string
  pub_datatype :: string
  pub_qos :: qos_profile

text \<open>A call that gives \<open>Inl\<close> throws a \<open>std::exception\<close> with that text.\<close>

record ros = ros_node +
  ros_ok :: bool
  topic_names_and_types :: "(string \<times> string list) list"
  service_names_and_types :: "(string \<times> string list) list"
  get_publishers_info_by_topic :: "string \<Rightarrow> string + endpoint_info list"
  get_subscriptions_info_by_topic :: "string \<Rightarrow> string + endpoint_info list"
  get_name :: string
  get_namespace :: string
  system_defaults_qos :: qos_profile
  create_generic_subscription :: "ros_subscription \<Rightarrow> string + unit"
  create_generic_publisher :: "ros_publisher \<Rightarrow> string + unit"
  publish :: "ros_publisher \<Rightarrow> bytes \<Rightarrow> string + unit"
  create_service_client :: "string \<Rightarrow> string \<Rightarrow> string + unit"
  wait_for_service :: "string \<Rightarrow> bool"
  retrieve_resource :: "string \<Rightarrow> string + bytes"
  ros_now :: uint64_t
  ament_index :: ament
  stack_depth :: nat

section \<open>State\<close>

record cobridge = server +
  message_definition_cache :: definition_cache
  topic_whitelist_patterns :: "regex list"
  service_whitelist_patterns :: "regex list"
  asset_uri_allowlist_patterns :: "regex list"
  param_interface :: parameter_interface
  advertised_topics :: "(uint32_t \<times> channel_without_id) list"
  bridge_services :: "(uint32_t \<times> service_without_id) list"
  subscriptions :: "(uint32_t \<times> (hdl \<times> ros_subscription) list) list"
  client_advertised_topics :: "(hdl \<times> (uint32_t \<times> ros_publisher) list) list"
  service_clients :: "uint32_t list"
  min_qos_depth :: uint64_t
  max_qos_depth :: uint64_t
  use_sim_time :: bool
  bridge_capabilities :: "string list"
  subscribe_graph_updates :: bool
  include_hidden :: bool
  fetch_asset_queue :: "(string \<times> uint32_t \<times> hdl) callback_queue"
  published :: "(ros_publisher \<times> bytes) list"
  service_calls :: "(service_request \<times> hdl) list"

text \<open>A computation on the parameter interface or on the cache of definitions.\<close>

definition on_params :: "(parameter_interface, 'a) cpp \<Rightarrow> (cobridge, 'a) cpp" where
  "on_params m s = (case m (param_interface s) of (r, p) \<Rightarrow> (r, s\<lparr>param_interface := p\<rparr>))"

definition on_definitions :: "(definition_cache, 'a) cpp \<Rightarrow> (cobridge, 'a) cpp" where
  "on_definitions m s = (case m (message_definition_cache s) of (r, c) \<Rightarrow> (r, s\<lparr>message_definition_cache := c\<rparr>))"

definition has_bridge_capability :: "string \<Rightarrow> cobridge \<Rightarrow> bool" where
  "has_bridge_capability capability s = (capability \<in> set (bridge_capabilities s))"

section \<open>Topics and services\<close>

definition is_hidden_topic_or_service :: "string \<Rightarrow> bool outcome" where
  "is_hidden_topic_or_service name =
     (case name of
        [] \<Rightarrow> Throw (StdException (''Topic or service name can'' @ [CHR 0x27] @ ''t be empty''))
      | c # _ \<Rightarrow> Ok (c = CHR ''_'' \<or> str_find0 ''/_'' name \<noteq> None))"

text \<open>\<open>!_include_hidden && is_hidden_topic_or_service(name)\<close>.\<close>

definition hidden_here :: "string \<Rightarrow> cobridge \<Rightarrow> bool outcome" where
  "hidden_here name s = (if include_hidden s then Ok False else is_hidden_topic_or_service name)"

definition latest_topic :: "string \<times> string list \<Rightarrow> (string \<times> string) list \<Rightarrow> (cobridge, (string \<times> string) list) cpp" where
  "latest_topic = (\<lambda>(topic_name, datatypes) latest_topics.
     bind (gets (hidden_here topic_name)) (\<lambda>r.
     bind (lift r) (\<lambda>hidden.
     if hidden then ret latest_topics
     else
       bind (gets topic_whitelist_patterns) (\<lambda>patterns.
       if is_whitelisted topic_name patterns
       then ret (fold (\<lambda>datatype. s_insert (topic_name, datatype)) datatypes latest_topics)
       else ret latest_topics))))"

definition new_channel :: "ros \<Rightarrow> string \<times> string \<Rightarrow> channel_without_id list \<Rightarrow> (cobridge, channel_without_id list) cpp" where
  "new_channel E = (\<lambda>(topic, datatype) channels_to_add.
     bind (gets (\<lambda>s. \<exists>(_, ch) \<in> set (advertised_topics s).
             channel_without_id.topic ch = topic \<and> channel_without_id.schema_name ch = datatype)) (\<lambda>known.
     if known then ret channels_to_add
     else
       try_catch
         (bind (on_definitions (get_full_msg_text (ament_index E) (stack_depth E) datatype)) (\<lambda>(format, schema).
          ret (channels_to_add @
            [\<lparr>topic = topic, ch_encoding = ''cdr'', schema_name = datatype, schema = schema,
              schema_encoding = Some (case format of IDL \<Rightarrow> ''ros2idl'' | _ \<Rightarrow> ''ros2msg'')\<rparr>])))
         (\<lambda>e. case e of
                DefinitionNotFoundError _ \<Rightarrow>
                  ret (channels_to_add @
                    [\<lparr>topic = topic, ch_encoding = [], schema_name = datatype, schema = [], schema_encoding = None\<rparr>])
              | OtherException \<Rightarrow> throw e
              | _ \<Rightarrow> ret channels_to_add)))"

text \<open>The channels whose topic is gone.\<close>

definition gone_channels :: "(string \<times> string) list \<Rightarrow> cobridge \<Rightarrow> uint32_t list" where
  "gone_channels latest_topics s =
     map fst (filter (\<lambda>(_, ch). (channel_without_id.topic ch, channel_without_id.schema_name ch) \<notin> set latest_topics)
       (advertised_topics s))"

definition update_advertised_topics :: "ros \<Rightarrow> (string \<times> string list) list \<Rightarrow> (cobridge, unit) cpp" where
  "update_advertised_topics E names_and_types =
     (if \<not> ros_ok E then ret ()
      else
        bind (for_fold names_and_types latest_topic []) (\<lambda>latest_topics.
        bind (gets (gone_channels latest_topics)) (\<lambda>channel_ids_to_remove.
        seq (modify (\<lambda>s. s\<lparr>subscriptions := fold m_erase channel_ids_to_remove (subscriptions s),
                            advertised_topics := fold m_erase channel_ids_to_remove (advertised_topics s)\<rparr>)) (
        seq (remove_channels channel_ids_to_remove) (
        bind (for_fold latest_topics (new_channel E) []) (\<lambda>channels_to_add.
        bind (add_channels channels_to_add) (\<lambda>channel_ids.
        modify (\<lambda>s. s\<lparr>advertised_topics :=
          fold (\<lambda>(i, ch). m_emplace i ch) (zip channel_ids channels_to_add) (advertised_topics s)\<rparr>))))))))"

definition new_service :: "ros \<Rightarrow> string \<times> string list \<Rightarrow> service_without_id list \<Rightarrow> (cobridge, service_without_id list) cpp" where
  "new_service E = (\<lambda>(service_name, datatypes) new_services.
     bind (gets (\<lambda>s. \<exists>(_, sv) \<in> set (bridge_services s). sv_name sv = service_name)) (\<lambda>known.
     if known then ret new_services
     else
       bind (gets (hidden_here service_name)) (\<lambda>r.
       bind (lift r) (\<lambda>hidden.
       if hidden then ret new_services
       else
         bind (gets service_whitelist_patterns) (\<lambda>patterns.
         if \<not> is_whitelisted service_name patterns then ret new_services
         else
           (case datatypes of
              [] \<Rightarrow> ub ''front of an empty vector''
            | datatype # _ \<Rightarrow>
                try_catch
                  (bind (on_definitions (get_full_srv_text (ament_index E) (stack_depth E) datatype)) (\<lambda>(request, response).
                   ret (new_services @
                     [\<lparr>sv_name = service_name, sv_type = datatype, request_schema = request, response_schema = response\<rparr>])))
                  (\<lambda>e. case e of
                         DefinitionNotFoundError _ \<Rightarrow>
                           ret (new_services @
                             [\<lparr>sv_name = service_name, sv_type = datatype, request_schema = [], response_schema = []\<rparr>])
                       | OtherException \<Rightarrow> throw e
                       | _ \<Rightarrow> ret new_services)))))))"

definition update_advertised_services :: "ros \<Rightarrow> (cobridge, unit) cpp" where
  "update_advertised_services E =
     (if \<not> ros_ok E then ret ()
      else
        bind (gets (has_bridge_capability ''services'')) (\<lambda>capable.
        if \<not> capable then ret ()
        else
          bind (gets (\<lambda>s. map fst (filter (\<lambda>(_, sv). sv_name sv \<notin> fst ` set (service_names_and_types E)) (bridge_services s)))) (\<lambda>services_to_remove.
          seq (modify (\<lambda>s. s\<lparr>bridge_services := fold m_erase services_to_remove (bridge_services s)\<rparr>)) (
          seq (remove_services services_to_remove) (
          bind (for_fold (service_names_and_types E) (new_service E) []) (\<lambda>new_services.
          bind (add_services new_services) (\<lambda>service_ids.
          modify (\<lambda>s. s\<lparr>bridge_services :=
            fold (\<lambda>(i, sv). m_emplace i sv) (zip service_ids new_services) (bridge_services s)\<rparr>))))))))"

section \<open>Connection graph\<close>

definition node_id :: "endpoint_info \<Rightarrow> string" where
  "node_id ep =
     (let ns = ep_node_namespace ep;
          sep = (if ns \<noteq> [] \<and> last ns = CHR ''/'' then [] else ''/'')
      in ns @ sep @ ep_node_name ep)"

text \<open>Nodes of the publishers and of the subscribers of the whitelisted topics.\<close>

definition graph_topic ::
    "ros \<Rightarrow> string \<times> string list \<Rightarrow> map_of_sets \<times> map_of_sets \<Rightarrow> (cobridge, map_of_sets \<times> map_of_sets) cpp" where
  "graph_topic E = (\<lambda>(topic_name, _) (publishers, subscribers).
     bind (gets topic_whitelist_patterns) (\<lambda>patterns.
     if \<not> is_whitelisted topic_name patterns then ret (publishers, subscribers)
     else
       bind (lift (rcl (get_publishers_info_by_topic E topic_name))) (\<lambda>publishers_info.
       bind (lift (rcl (get_subscriptions_info_by_topic E topic_name))) (\<lambda>subscribers_info.
       ret (m_emplace topic_name (s_of (map node_id publishers_info)) publishers,
            m_emplace topic_name (s_of (map node_id subscribers_info)) subscribers)))))"

definition graph_services :: "ros \<Rightarrow> string \<Rightarrow> map_of_sets \<Rightarrow> (cobridge, map_of_sets) cpp" where
  "graph_services E fqn_node_name svcs =
     bind (lift (get_node_and_node_namespace fqn_node_name)) (\<lambda>(node_namespace, node_name).
     bind (lift (rcl (get_service_names_and_types_by_node E node_name node_namespace))) (\<lambda>names_and_types.
     bind (gets service_whitelist_patterns) (\<lambda>patterns.
     ret (fold (\<lambda>(service_name, _) m.
            if is_whitelisted service_name patterns
            then m_assign service_name
                   (s_insert fqn_node_name (case m_find m service_name of Some ids \<Rightarrow> ids | None \<Rightarrow> [])) m
            else m) names_and_types svcs))))"

definition update_ros_graph :: "ros \<Rightarrow> (string \<times> string list) list \<Rightarrow> (cobridge, unit) cpp" where
  "update_ros_graph E names_and_types =
     bind (for_fold names_and_types (graph_topic E) ([], [])) (\<lambda>(publishers, subscribers).
     bind (for_fold (get_node_names E) (graph_services E) []) (\<lambda>svcs.
     update_connection_graph publishers subscribers svcs))"

definition subscribe_connection_graph :: "ros \<Rightarrow> bool \<Rightarrow> (cobridge, unit) cpp" where
  "subscribe_connection_graph E subscribe =
     seq (modify (\<lambda>s. s\<lparr>subscribe_graph_updates := subscribe\<rparr>)) (
     whenever subscribe (update_ros_graph E (topic_names_and_types E)))"

text \<open>One round of \<open>rosgraph_poll_thread\<close> after a change of the graph.\<close>

definition rosgraph_poll :: "ros \<Rightarrow> (cobridge, unit) cpp" where
  "rosgraph_poll E =
     catch_std
       (seq (update_advertised_topics E (topic_names_and_types E)) (
        seq (update_advertised_services E) (
        bind (gets subscribe_graph_updates) (\<lambda>b.
        whenever b (update_ros_graph E (topic_names_and_types E))))))
       (\<lambda>_. ret ())"

text \<open>The thread polls once before it enters the loop; there an exception is not caught.\<close>

definition rosgraph_first_poll :: "ros \<Rightarrow> (cobridge, unit) cpp" where
  "rosgraph_first_poll E =
     seq (update_advertised_topics E (topic_names_and_types E)) (update_advertised_services E)"

section \<open>Subscriptions\<close>

text \<open>\<open>depth + std::max(1, depth of the publisher)\<close>; the sum of \<open>size_t\<close> wraps.\<close>

definition total_depth :: "endpoint_info list \<Rightarrow> uint64_t" where
  "total_depth publishers = fold (\<lambda>p depth. depth + max 1 (qos_depth (ep_qos p))) publishers 0"

definition subscription_qos :: "uint64_t \<Rightarrow> uint64_t \<Rightarrow> endpoint_info list \<Rightarrow> qos_profile" where
  "subscription_qos min_depth max_depth publishers =
     (let reliable_count = length (filter (\<lambda>p. qos_reliable (ep_qos p)) publishers);
          transient_local_count = length (filter (\<lambda>p. qos_transient_local (ep_qos p)) publishers);
          depth = max (total_depth publishers) min_depth
      in \<lparr>qos_history = HistoryKeepLast,
          qos_depth = (if depth > max_depth then max_depth else depth),
          qos_reliable = (reliable_count = length publishers),
          qos_transient_local = (transient_local_count = length publishers)\<rparr>)"

text \<open>
  The entry of the channel is made before the subscription, so that it stays, empty, when creating
  the subscription fails.
\<close>

definition subscribe :: "ros \<Rightarrow> uint32_t \<Rightarrow> hdl \<Rightarrow> (cobridge, unit) cpp" where
  "subscribe E chan_id client_handle =
     bind (gets (\<lambda>s. m_find (advertised_topics s) chan_id)) (\<lambda>it.
     case it of
       None \<Rightarrow> throw (ChannelError chan_id
                 (''Received subscribe request for unknown channel '' @ to_string (unat chan_id)))
     | Some channel \<Rightarrow>
         bind (gets (\<lambda>s. m_find (subscriptions s) chan_id)) (\<lambda>before.
         seq (modify (\<lambda>s. s\<lparr>subscriptions := m_emplace chan_id [] (subscriptions s)\<rparr>)) (
         if (case before of Some subs \<Rightarrow> m_contains subs client_handle | None \<Rightarrow> False)
         then throw (ChannelError chan_id
                (''Client is already subscribed to channel '' @ to_string (unat chan_id)))
         else
           bind (lift (rcl (get_publishers_info_by_topic E (topic channel)))) (\<lambda>publisher_info.
           bind (gets (\<lambda>s. subscription_qos (min_qos_depth s) (max_qos_depth s) publisher_info)) (\<lambda>qos.
           let sub = \<lparr>sub_topic = topic channel, sub_datatype = schema_name channel, sub_qos = qos\<rparr> in
           catch_std
             (seq (lift (rcl (create_generic_subscription E sub)))
               (modify (\<lambda>s. s\<lparr>subscriptions := m_assign chan_id
                  (m_emplace client_handle sub
                    (case m_find (subscriptions s) chan_id of Some subs \<Rightarrow> subs | None \<Rightarrow> []))
                  (subscriptions s)\<rparr>)))
             (\<lambda>what. throw (ChannelError chan_id
                (''Failed to subscribe to topic '' @ topic channel @ '' ('' @ schema_name channel @ ''): '' @ what))))))))"

definition unsubscribe :: "uint32_t \<Rightarrow> hdl \<Rightarrow> (cobridge, unit) cpp" where
  "unsubscribe chan_id client_handle =
     bind (gets (\<lambda>s. m_contains (advertised_topics s) chan_id)) (\<lambda>known.
     if \<not> known
     then throw (ChannelError chan_id
            (''Received unsubscribe request for unknown channel '' @ to_string (unat chan_id)))
     else
       bind (gets (\<lambda>s. m_find (subscriptions s) chan_id)) (\<lambda>it.
       case it of
         None \<Rightarrow> throw (ChannelError chan_id
                   (''Received unsubscribe request for channel '' @ to_string (unat chan_id) @
                    '' that was not subscribed to''))
       | Some subs \<Rightarrow>
           if \<not> m_contains subs client_handle
           then throw (ChannelError chan_id
                  (''Received unsubscribe request for channel '' @ to_string (unat chan_id) @
                   ''from a client that was not subscribed to this channel''))
           else
             modify (\<lambda>s. s\<lparr>subscriptions :=
               (if m_erase client_handle subs = [] then m_erase chan_id (subscriptions s)
                else m_assign chan_id (m_erase client_handle subs) (subscriptions s))\<rparr>)))"

section \<open>Client publications\<close>

definition client_publications :: "hdl \<Rightarrow> cobridge \<Rightarrow> (uint32_t \<times> ros_publisher) list" where
  "client_publications h s = (case m_find (client_advertised_topics s) h of Some pubs \<Rightarrow> pubs | None \<Rightarrow> [])"

definition publisher_qos :: "ros \<Rightarrow> endpoint_info list \<Rightarrow> qos_profile" where
  "publisher_qos E other_publishers =
     (let qos = (case find (\<lambda>ep. ep_node_name ep \<noteq> get_name E \<or> ep_node_namespace ep \<noteq> get_namespace E) other_publishers of
                   None \<Rightarrow> system_defaults_qos E
                 | Some ep \<Rightarrow> ep_qos ep)
      in if qos_history qos = HistoryUnknown then qos\<lparr>qos_history := HistorySystemDefault\<rparr> else qos)"

definition client_advertise :: "ros \<Rightarrow> client_advertisement \<Rightarrow> hdl \<Rightarrow> (cobridge, unit) cpp" where
  "client_advertise E adv h =
     seq (modify (\<lambda>s. s\<lparr>client_advertised_topics := m_emplace h [] (client_advertised_topics s)\<rparr>)) (
     bind (gets (client_publications h)) (\<lambda>pubs.
     if m_contains pubs (channel_id adv)
     then bind (gets (remote_endpoint_string h)) (\<lambda>remote.
          throw (ClientChannelError (channel_id adv)
            (''Received client advertisement from '' @ remote @ '' for channel '' @
             to_string (unat (channel_id adv)) @ '' it had already advertised'')))
     else
       catch_std
         (bind (lift (rcl (get_publishers_info_by_topic E (adv_topic adv)))) (\<lambda>other_publishers.
          let publisher = \<lparr>pub_topic = adv_topic adv, pub_datatype = adv_schema_name adv,
                           pub_qos = publisher_qos E other_publishers\<rparr> in
          seq (lift (rcl (create_generic_publisher E publisher)))
            (modify (\<lambda>s. s\<lparr>client_advertised_topics :=
               m_assign h (m_emplace (channel_id adv) publisher (client_publications h s))
                 (client_advertised_topics s)\<rparr>))))
         (\<lambda>what. throw (ClientChannelError (channel_id adv) (''Failed to create publisher: '' @ what)))))"

definition client_unadvertise :: "uint32_t \<Rightarrow> hdl \<Rightarrow> (cobridge, unit) cpp" where
  "client_unadvertise chan_id h =
     bind (gets (remote_endpoint_string h)) (\<lambda>remote.
     bind (gets (\<lambda>s. m_find (client_advertised_topics s) h)) (\<lambda>it.
     case it of
       None \<Rightarrow> throw (ClientChannelError chan_id
                 (''Ignoring client unadvertisement from '' @ remote @ '' for unknown channel '' @
                  to_string (unat chan_id) @ '', client has no advertised topics''))
     | Some pubs \<Rightarrow>
         if \<not> m_contains pubs chan_id
         then throw (ClientChannelError chan_id
                (''Ignoring client unadvertisement from '' @ remote @ '' for unknown channel '' @
                 to_string (unat chan_id) @ '', client has '' @ to_string (length pubs) @ '' advertised topic(s)''))
         else
           modify (\<lambda>s. s\<lparr>client_advertised_topics :=
             (if m_erase chan_id pubs = [] then m_erase h (client_advertised_topics s)
              else m_assign h (m_erase chan_id pubs) (client_advertised_topics s))\<rparr>)))"

definition CoBridge_client_message :: "ros \<Rightarrow> client_message \<Rightarrow> hdl \<Rightarrow> (cobridge, unit) cpp" where
  "CoBridge_client_message E message h =
     (let chan_id = channel_id (advertisement message) in
      bind (gets (remote_endpoint_string h)) (\<lambda>remote.
      bind (gets (\<lambda>s. m_find (client_advertised_topics s) h)) (\<lambda>it.
      case it of
        None \<Rightarrow> throw (ClientChannelError chan_id
                  (''Dropping client message from '' @ remote @ '' for unknown channel '' @
                   to_string (unat chan_id) @ '', client has no advertised topics''))
      | Some pubs \<Rightarrow>
          (case m_find pubs chan_id of
             None \<Rightarrow> throw (ClientChannelError chan_id
                       (''Dropping client message from '' @ remote @ '' for unknown channel '' @
                        to_string (unat chan_id) @ '', client has '' @ to_string (length pubs) @ '' advertised topic(s)''))
           | Some publisher \<Rightarrow>
               let payload = take (getLength message) (getData message) in
               seq (lift (rcl (publish E publisher payload)))
                 (modify (\<lambda>s. s\<lparr>published := published s @ [(publisher, payload)]\<rparr>))))))"

section \<open>Parameters\<close>

definition get_parameters :: "ros \<Rightarrow> string list \<Rightarrow> string option \<Rightarrow> hdl \<Rightarrow> (cobridge, unit) cpp" where
  "get_parameters E parameters req_id h =
     bind (on_params (get_params (ros_node.truncate E) parameters)) (\<lambda>params.
     publish_parameter_values h params req_id)"

definition set_parameters :: "ros \<Rightarrow> parameter list \<Rightarrow> string option \<Rightarrow> hdl \<Rightarrow> (cobridge, unit) cpp" where
  "set_parameters E parameters req_id h =
     seq (on_params (set_params (ros_node.truncate E) parameters)) (
     whenever (req_id \<noteq> None) (get_parameters E (map p_name parameters) req_id h))"

definition subscribe_parameters ::
    "string list \<Rightarrow> ParameterSubscriptionOperation \<Rightarrow> hdl \<Rightarrow> (cobridge, unit) cpp" where
  "subscribe_parameters parameters operation h =
     (if operation = SUBSCRIBE then on_params (subscribe_params parameters)
      else on_params (unsubscribe_params parameters))"

definition parameter_updates :: "parameter list \<Rightarrow> (cobridge, unit) cpp" where
  "parameter_updates parameters = update_parameter_values parameters"

text \<open>A parameter event of a node: the callback of the interface, then the update of the clients.\<close>

definition node_parameter_event :: "string \<Rightarrow> ros_parameter list \<Rightarrow> (cobridge, unit) cpp" where
  "node_parameter_event node_name changed =
     bind (on_params (parameter_event node_name changed)) (\<lambda>params.
     whenever (params \<noteq> []) (parameter_updates params))"

section \<open>Messages, services and assets\<close>

definition ros_message_handler :: "ros \<Rightarrow> uint32_t \<Rightarrow> hdl \<Rightarrow> bytes \<Rightarrow> uint64_t \<Rightarrow> (cobridge, unit) cpp" where
  "ros_message_handler E chan_id client_handle msg timestamp =
     send_message client_handle chan_id (if timestamp \<noteq> 0 then timestamp else ros_now E) msg"

definition service_client :: "ros \<Rightarrow> uint32_t \<Rightarrow> service_without_id \<Rightarrow> (cobridge, unit) cpp" where
  "service_client E serv_id sv =
     bind (gets service_clients) (\<lambda>known.
     whenever (serv_id \<notin> set known)
       (catch_std
         (seq (lift (rcl (create_service_client E (sv_name sv) (sv_type sv))))
           (modify (\<lambda>s. s\<lparr>service_clients := service_clients s @ [serv_id]\<rparr>)))
         (\<lambda>what. throw (ServiceError serv_id
           (''Failed to create service client for service '' @ sv_name sv @ '': '' @ what)))))"

definition CoBridge_service_request :: "ros \<Rightarrow> service_request \<Rightarrow> hdl \<Rightarrow> (cobridge, unit) cpp" where
  "CoBridge_service_request E request client_handle =
     bind (gets (\<lambda>s. m_find (bridge_services s) (service_id request))) (\<lambda>it.
     case it of
       None \<Rightarrow> throw (ServiceError (service_id request)
                 (''Service with id '' @ to_string (unat (service_id request)) @ '' does not exist''))
     | Some sv \<Rightarrow>
         seq (service_client E (service_id request) sv) (
         if \<not> wait_for_service E (sv_name sv)
         then throw (ServiceError (service_id request) (''Service '' @ sv_name sv @ '' is not available''))
         else modify (\<lambda>s. s\<lparr>service_calls := service_calls s @ [(request, client_handle)]\<rparr>)))"

text \<open>The callback of \<open>async_send_request\<close>, with the payload of the response.\<close>

definition response_received :: "service_request \<Rightarrow> hdl \<Rightarrow> bytes \<Rightarrow> (cobridge, unit) cpp" where
  "response_received request client_handle payload =
     send_service_response client_handle (request\<lparr>serv_data := payload\<rparr>)"

definition fetch_asset :: "ros \<Rightarrow> string \<Rightarrow> uint32_t \<Rightarrow> hdl \<Rightarrow> (cobridge, unit) cpp" where
  "fetch_asset E asset_id req_id client_handle =
     bind (gets asset_uri_allowlist_patterns) (\<lambda>patterns.
     bind (catch_std
             (if str_find0 ''..'' asset_id \<noteq> None \<or> \<not> is_whitelisted asset_id patterns
              then throw (StdException (''Asset URI not allowed: '' @ asset_id))
              else
                bind (lift (rcl (retrieve_resource E asset_id))) (\<lambda>resource.
                ret \<lparr>request_id = req_id, status = FetchSuccess, error_message = [], asset_data = resource\<rparr>))
             (\<lambda>_. ret \<lparr>request_id = req_id, status = FetchError,
                      error_message = ''Failed to retrieve asset '' @ asset_id, asset_data = []\<rparr>)) (\<lambda>response.
     send_fetch_asset_response client_handle response))"

text \<open>One round of the worker of \<open>_fetch_asset_queue\<close>.\<close>

definition fetch_asset_work :: "ros \<Rightarrow> (cobridge, unit) cpp" where
  "fetch_asset_work E =
     bind (gets (\<lambda>s. do_work (fetch_asset_queue s))) (\<lambda>(cb, q).
     seq (modify (\<lambda>s. s\<lparr>fetch_asset_queue := q\<rparr>)) (
     case cb of
       None \<Rightarrow> ret ()
     | Some (uri, req_id, h) \<Rightarrow> catch_all (fetch_asset E uri req_id h) (\<lambda>_. ret ()) (ret ())))"

section \<open>Start\<close>

text \<open>The parameters of the node that the constructor reads.\<close>

record bridge_config =
  cfg_send_buffer_limit :: nat
  cfg_tls :: bool
  cfg_certfile :: string
  cfg_keyfile :: string
  cfg_min_qos_depth :: int64_t
  cfg_max_qos_depth :: int64_t
  cfg_topic_whitelist :: "string list"
  cfg_service_whitelist :: "string list"
  cfg_param_whitelist :: "string list"
  cfg_client_topic_whitelist :: "string list"
  cfg_asset_uri_allowlist :: "string list"
  cfg_use_compression :: bool
  cfg_use_sim_time :: bool
  cfg_capabilities :: "string list"
  cfg_include_hidden :: bool
  env_ros_distro :: string
  env_colink_ip :: string
  env_mac_addresses :: string
  env_ip_addresses :: "string list"
  env_time :: string

text \<open>An expression that does not compile (\<open>regex p = None\<close>) is left out.\<close>

definition parse_regex_strings :: "(string \<Rightarrow> regex option) \<Rightarrow> string list \<Rightarrow> regex list" where
  "parse_regex_strings regex strings = List.map_filter regex strings"

definition bridge_server_options :: "(string \<Rightarrow> regex option) \<Rightarrow> bridge_config \<Rightarrow> server_options" where
  "bridge_server_options regex cfg =
     \<lparr>capabilities = cfg_capabilities cfg @ (if cfg_use_sim_time cfg then [''time''] else []) @ [''messageTime''],
      supported_encodings = [''cdr''],
      metadata = [(''ROS_DISTRO'', env_ros_distro cfg), (''COLINK'', env_colink_ip cfg)],
      send_buffer_limit_bytes = cfg_send_buffer_limit cfg, use_tls = cfg_tls cfg,
      cert_file = cfg_certfile cfg, key_file = cfg_keyfile cfg, session_id = env_time cfg,
      use_compression = cfg_use_compression cfg,
      client_topic_whitelist_patterns = parse_regex_strings regex (cfg_client_topic_whitelist cfg),
      mac_addr = env_mac_addresses cfg, ip_addrs = env_ip_addresses cfg\<rparr>"

definition CoBridge :: "(string \<Rightarrow> regex option) \<Rightarrow> bridge_config \<Rightarrow> cobridge" where
  "CoBridge regex cfg = server.extend (Server ''cobridge'' (bridge_server_options regex cfg))
     \<lparr>message_definition_cache = [],
      topic_whitelist_patterns = parse_regex_strings regex (cfg_topic_whitelist cfg),
      service_whitelist_patterns = parse_regex_strings regex (cfg_service_whitelist cfg),
      asset_uri_allowlist_patterns = parse_regex_strings regex (cfg_asset_uri_allowlist cfg),
      param_interface = ParameterInterface (parse_regex_strings regex (cfg_param_whitelist cfg)),
      advertised_topics = [], bridge_services = [], subscriptions = [], client_advertised_topics = [],
      service_clients = [], min_qos_depth = ucast (cfg_min_qos_depth cfg),
      max_qos_depth = ucast (cfg_max_qos_depth cfg), use_sim_time = cfg_use_sim_time cfg,
      bridge_capabilities = cfg_capabilities cfg, subscribe_graph_updates = False,
      include_hidden = cfg_include_hidden cfg, fetch_asset_queue = CallbackQueue, published = [],
      service_calls = []\<rparr>"

text \<open>The handlers: those of the parameters and of the assets depend on the capabilities.\<close>

definition bridge_handlers :: "ros \<Rightarrow> string list \<Rightarrow> cobridge handlers" where
  "bridge_handlers E caps =
     (let params = ''parameters'' \<in> set caps \<or> ''parametersSubscribe'' \<in> set caps in
      \<lparr>subscribe_handler = Some (subscribe E), unsubscribe_handler = Some unsubscribe,
       client_advertise_handler = Some (client_advertise E),
       client_unadvertise_handler = Some client_unadvertise,
       client_message_handler = Some (CoBridge_client_message E),
       parameter_request_handler = (if params then Some (get_parameters E) else None),
       parameter_change_handler = (if params then Some (set_parameters E) else None),
       parameter_subscription_handler = (if params then Some subscribe_parameters else None),
       service_request_handler = Some (CoBridge_service_request E),
       subscribe_connection_graph_handler = Some (subscribe_connection_graph E),
       fetch_asset_handler =
         (if ''assets'' \<in> set caps
          then Some (\<lambda>uri req_id h. modify (\<lambda>s. s\<lparr>fetch_asset_queue :=
                 add_callback (uri, req_id, h) (fetch_asset_queue s)\<rparr>))
          else None)\<rparr>)"

text \<open>The callback of \<open>/clock\<close>, installed when simulated time is used.\<close>

definition clock_message :: "int64_t \<Rightarrow> (cobridge, unit) cpp" where
  "clock_message timestamp =
     (if timestamp <s 0 then ub ''assertion failed: Timestamp is negative''
      else broadcast_time (ucast timestamp))"

end
