(* ===== verification/Bridge_Links.thy ===== *)
theory Bridge_Links
  imports Ros2_Bridge
begin

text \<open>
  How the tables of the ROS 2 bridge and those of the server belong together: every channel and
  service is in both, a client is subscribed on the server exactly when the bridge holds a ROS
  subscription for it, and every publication of a client has a ROS publisher.  The handlers of the
  bridge are shown to satisfy the contract of the server.
\<close>

section \<open>What the handlers leave alone\<close>

definition bridge_frame :: "cobridge \<Rightarrow> _" where
  "bridge_frame s = (key_state s, services s, advertised_topics s, bridge_services s, subscriptions s,
     client_advertised_topics s)"

lemma key_state_bridge_update [simp]:
  fixes s :: cobridge
  shows "key_state (s\<lparr>message_definition_cache := a\<rparr>) = key_state s"
    "key_state (s\<lparr>param_interface := b\<rparr>) = key_state s"
    "key_state (s\<lparr>advertised_topics := c\<rparr>) = key_state s"
    "key_state (s\<lparr>bridge_services := d\<rparr>) = key_state s"
    "key_state (s\<lparr>subscriptions := e\<rparr>) = key_state s"
    "key_state (s\<lparr>client_advertised_topics := f\<rparr>) = key_state s"
    "key_state (s\<lparr>service_clients := g\<rparr>) = key_state s"
    "key_state (s\<lparr>subscribe_graph_updates := i\<rparr>) = key_state s"
    "key_state (s\<lparr>fetch_asset_queue := j\<rparr>) = key_state s"
    "key_state (s\<lparr>published := k\<rparr>) = key_state s"
    "key_state (s\<lparr>service_calls := l\<rparr>) = key_state s"
  by (simp_all add: key_state_def)

lemma bridge_frame_update [simp]:
  "bridge_frame (s\<lparr>outbox := xs\<rparr>) = bridge_frame s"
  "bridge_frame (s\<lparr>client_param_subscriptions := ps\<rparr>) = bridge_frame s"
  "bridge_frame (s\<lparr>conns := cs\<rparr>) = bridge_frame s"
  "bridge_frame (s\<lparr>message_definition_cache := a\<rparr>) = bridge_frame s"
  "bridge_frame (s\<lparr>param_interface := b\<rparr>) = bridge_frame s"
  "bridge_frame (s\<lparr>service_clients := g\<rparr>) = bridge_frame s"
  "bridge_frame (s\<lparr>subscribe_graph_updates := i\<rparr>) = bridge_frame s"
  "bridge_frame (s\<lparr>fetch_asset_queue := j\<rparr>) = bridge_frame s"
  "bridge_frame (s\<lparr>published := k\<rparr>) = bridge_frame s"
  "bridge_frame (s\<lparr>service_calls := l\<rparr>) = bridge_frame s"
  by (simp_all add: bridge_frame_def)

lemma bridge_frame_key_state: "framed bridge_frame m \<Longrightarrow> framed key_state m"
  by (erule framed_weaken) (simp add: bridge_frame_def)

lemma keeps_frame_sends [keeps_intros]:
  "keeps (\<lambda>s. bridge_frame s = v) (send_json h j r)"
  "keeps (\<lambda>s. bridge_frame s = v) (send_raw_json h j r)"
  "keeps (\<lambda>s. bridge_frame s = v) (send_binary h b r)"
  "keeps (\<lambda>s. bridge_frame s = v) (send_status_and_log_msg h l m)"
  by (auto intro: keepsI simp: sending_runs)

lemma keeps_frame_con_send [keeps_intros]: "keeps (\<lambda>s. bridge_frame s = v) (con_send h con f r)"
  unfolding con_send_def by (intro keeps_intros keeps_modify) simp

lemma keeps_on_params: "(\<And>s p. P s \<Longrightarrow> P (s\<lparr>param_interface := p\<rparr>)) \<Longrightarrow> keeps P (on_params m)"
  by (auto intro!: keepsI simp: on_params_def split: prod.splits)

lemma keeps_on_definitions:
  "(\<And>s p. P s \<Longrightarrow> P (s\<lparr>message_definition_cache := p\<rparr>)) \<Longrightarrow> keeps P (on_definitions m)"
  by (auto intro!: keepsI simp: on_definitions_def split: prod.splits)

lemma keeps_frame_server_send [keeps_intros]: "keeps (\<lambda>s. bridge_frame s = v) (server_send h f)"
  unfolding server_send_def by (intro keeps_intros)

lemma framed_bridge_graph: "framed bridge_frame (update_connection_graph pubs subs servs)"
  unfolding update_connection_graph_def
  by (intro framedI keeps_intros keeps_modify; simp add: bridge_frame_def key_state_def)

lemma framed_bridge_params:
  "framed bridge_frame (get_parameters E ns rid h)"
  "framed bridge_frame (set_parameters E qs rid h)"
  "framed bridge_frame (subscribe_parameters ns op h)"
  "framed bridge_frame (node_parameter_event node changed)"
  unfolding set_parameters_def get_parameters_def subscribe_parameters_def node_parameter_event_def
    parameter_updates_def publish_parameter_values_def update_parameter_values_def
  by (intro framedI keeps_intros keeps_on_params; simp)+

lemma framed_update_ros_graph: "framed bridge_frame (update_ros_graph E ts)"
  unfolding update_ros_graph_def graph_topic_def graph_services_def
  by (intro framedI keeps_intros framed_bridge_graph [THEN framed_keepsD])

lemma framed_subscribe_connection_graph: "framed bridge_frame (subscribe_connection_graph E b)"
  unfolding subscribe_connection_graph_def
  by (intro framedI keeps_intros keeps_modify framed_update_ros_graph [THEN framed_keepsD]; simp)

lemma framed_client_message: "framed bridge_frame (CoBridge_client_message E m h)"
  unfolding CoBridge_client_message_def by (intro framedI keeps_intros keeps_modify; simp)

lemma framed_service_request: "framed bridge_frame (CoBridge_service_request E req h)"
  unfolding CoBridge_service_request_def service_client_def by (intro framedI keeps_intros keeps_modify; simp)

lemma framed_responses:
  "framed bridge_frame (ros_message_handler E i h p t)"
  "framed bridge_frame (response_received req h p)"
  "framed bridge_frame (broadcast_time ts)"
  "framed bridge_frame (fetch_asset_work E)"
  unfolding ros_message_handler_def send_message_def response_received_def send_service_response_def
    broadcast_time_def fetch_asset_work_def fetch_asset_def send_fetch_asset_response_def
  by (intro framedI keeps_intros keeps_modify; simp)+

lemmas framed_bridge = framed_bridge_params framed_update_ros_graph framed_subscribe_connection_graph
  framed_client_message framed_service_request framed_responses

text \<open>The four handlers that change the tables of subscriptions and publications.\<close>

lemma framed_tables:
  "framed key_state (subscribe E i h)" "framed key_state (unsubscribe i h)"
  "framed key_state (client_advertise E adv h)" "framed key_state (client_unadvertise i h)"
  unfolding subscribe_def unsubscribe_def client_advertise_def client_unadvertise_def
  by (intro framedI keeps_intros keeps_modify; simp)+

interpretation bridge: server_handlers "bridge_handlers E caps" for E caps
  by unfold_locales
    (auto simp: bridge_handlers_def Let_def intro: framed_tables framed_bridge [THEN bridge_frame_key_state]
      intro!: framed_modify split: if_splits)

interpretation tables: quiet_handlers "bridge_handlers E caps" bridge_frame for E caps
  by unfold_locales
    (auto simp: bridge_handlers_def Let_def intro: framed_bridge intro!: framed_modify split: if_splits)

lemma bridge_handlers_simps [simp]:
  "subscribe_handler (bridge_handlers E caps) = Some (subscribe E)"
  "unsubscribe_handler (bridge_handlers E caps) = Some unsubscribe"
  "client_advertise_handler (bridge_handlers E caps) = Some (client_advertise E)"
  "client_unadvertise_handler (bridge_handlers E caps) = Some client_unadvertise"
  "client_message_handler (bridge_handlers E caps) = Some (CoBridge_client_message E)"
  "service_request_handler (bridge_handlers E caps) = Some (CoBridge_service_request E)"
  "subscribe_connection_graph_handler (bridge_handlers E caps) = Some (subscribe_connection_graph E)"
  by (simp_all add: bridge_handlers_def Let_def)

section \<open>The invariants\<close>

text \<open>The ROS subscription the bridge holds for a client, and the ROS publisher.\<close>

definition sub_in :: "(uint32_t \<times> (hdl \<times> ros_subscription) list) list \<Rightarrow> hdl \<Rightarrow> uint32_t \<Rightarrow> ros_subscription option" where
  "sub_in subs h i = (case m_find subs i of None \<Rightarrow> None | Some m \<Rightarrow> m_find m h)"

abbreviation ros_subscription_of :: "cobridge \<Rightarrow> hdl \<Rightarrow> uint32_t \<Rightarrow> ros_subscription option" where
  "ros_subscription_of s \<equiv> sub_in (subscriptions s)"

definition pub_in :: "(hdl \<times> (uint32_t \<times> ros_publisher) list) list \<Rightarrow> hdl \<Rightarrow> uint32_t \<Rightarrow> ros_publisher option" where
  "pub_in pubs h i = (case m_find pubs h of None \<Rightarrow> None | Some m \<Rightarrow> m_find m i)"

abbreviation ros_publisher_of :: "cobridge \<Rightarrow> hdl \<Rightarrow> uint32_t \<Rightarrow> ros_publisher option" where
  "ros_publisher_of s \<equiv> pub_in (client_advertised_topics s)"

definition link_channels :: "cobridge \<Rightarrow> bool" where
  "link_channels s = (\<forall>i. m_find (channels s) i = map_option (Channel i) (m_find (advertised_topics s) i))"

definition link_services :: "cobridge \<Rightarrow> bool" where
  "link_services s = (\<forall>i. m_find (services s) i = m_find (bridge_services s) i)"

definition link_subs :: "cobridge \<Rightarrow> bool" where
  "link_subs s = (\<forall>h i. ros_subscription_of s h i = None \<longleftrightarrow> subscription_of s h i = None)"

definition link_topics :: "cobridge \<Rightarrow> bool" where
  "link_topics s = (\<forall>h i sub. ros_subscription_of s h i = Some sub \<longrightarrow>
     (\<exists>ch. m_find (advertised_topics s) i = Some ch \<and> sub_topic sub = topic ch \<and> sub_datatype sub = schema_name ch))"

text \<open>The publisher of the publication with the identifier \<open>i\<close>.\<close>

definition pub_match :: "uint32_t \<Rightarrow> client_advertisement \<Rightarrow> ros_publisher \<Rightarrow> bool" where
  "pub_match i adv p = (channel_id adv = i \<and> pub_topic p = adv_topic adv \<and> pub_datatype p = adv_schema_name adv)"

definition link_pubs :: "cobridge \<Rightarrow> bool" where
  "link_pubs s = (\<forall>h i adv. m_find (publications h s) i = Some adv \<longrightarrow>
     (\<exists>p. ros_publisher_of s h i = Some p \<and> pub_match i adv p))"

definition links :: "cobridge \<Rightarrow> bool" where
  "links s = (link_channels s \<and> link_services s \<and> link_subs s \<and> link_topics s \<and> link_pubs s)"

lemmas link_defs = link_channels_def link_services_def link_subs_def link_topics_def link_pubs_def

text \<open>What these invariants read.\<close>

definition link_frame :: "cobridge \<Rightarrow> _" where
  "link_frame s = (subscription_of s, channels s, client_channels s, services s, advertised_topics s,
     bridge_services s, subscriptions s, client_advertised_topics s)"

lemma links_frame: "link_frame s = link_frame t \<Longrightarrow> links s \<Longrightarrow> links t"
  by (simp add: link_frame_def links_def link_defs publications_def)

lemma bridge_frame_links: "bridge_frame s = bridge_frame t \<Longrightarrow> link_frame s = link_frame t"
  by (simp add: link_frame_def bridge_frame_def key_state_def subscription_of_def fun_eq_iff)

lemma keeps_links: "framed link_frame m \<Longrightarrow> keeps links m"
  by (erule framed_keeps) (rule links_frame)

lemma bridge_frame_link_frame: "framed bridge_frame m \<Longrightarrow> framed link_frame m"
  by (erule framed_weaken) (rule bridge_frame_links)

section \<open>Subscriptions\<close>

lemma sub_in_emplace [simp]: "sub_in (m_emplace i [] subs) h k = sub_in subs h k"
  by (simp add: sub_in_def)

lemma sub_in_assign [simp]: "sub_in (m_assign i m subs) h k = (if k = i then m_find m h else sub_in subs h k)"
  by (simp add: sub_in_def)

lemma sub_in_erase [simp]: "sub_in (m_erase i subs) h k = (if k = i then None else sub_in subs h k)"
  by (simp add: sub_in_def)

text \<open>A subscription is made, or an exception leaves the subscriptions as they were.\<close>

lemma subscribe_cases:
  obtains e x where "subscribe E i h s = (Throw e, s\<lparr>subscriptions := x\<rparr>)" "sub_in x = ros_subscription_of s"
  | x sub ch where "subscribe E i h s = (Ok (), s\<lparr>subscriptions := x\<rparr>)"
      "sub_in x = (\<lambda>h' i'. if h' = h \<and> i' = i then Some sub else ros_subscription_of s h' i')"
      "ros_subscription_of s h i = None"
      "m_find (advertised_topics s) i = Some ch" "sub_topic sub = topic ch" "sub_datatype sub = schema_name ch"
proof (cases "m_find (advertised_topics s) i")
  case None
  then have "subscribe E i h s = (Throw (ChannelError i
      (''Received subscribe request for unknown channel '' @ to_string (unat i))), s\<lparr>subscriptions := subscriptions s\<rparr>)"
    by (simp add: subscribe_def cpp_defs)
  then show thesis by (rule that(1)) simp
next
  case ch: (Some ch)
  define y where "y = m_emplace i [] (subscriptions s)"
  have view: "sub_in y = ros_subscription_of s"
    by (simp add: y_def fun_eq_iff)
  show thesis
  proof (cases "ros_subscription_of s h i")
    case (Some sub)
    then obtain subs where "m_find (subscriptions s) i = Some subs" "m_contains subs h"
      by (auto simp: sub_in_def m_contains_def split: option.splits)
    then have "\<exists>e. subscribe E i h s = (Throw e, s\<lparr>subscriptions := y\<rparr>)"
      by (simp add: subscribe_def cpp_defs ch y_def)
    then show thesis using that(1) view by blast
  next
    case None
    then have free: "\<not> (case m_find (subscriptions s) i of Some subs \<Rightarrow> m_contains subs h | None \<Rightarrow> False)"
      by (auto simp: sub_in_def m_contains_def split: option.splits)
    show thesis
    proof (cases "get_publishers_info_by_topic E (topic ch)")
      case (Inl what)
      then have "\<exists>e. subscribe E i h s = (Throw e, s\<lparr>subscriptions := y\<rparr>)"
        using free by (simp add: subscribe_def cpp_defs ch rcl_def y_def)
      then show thesis using that(1) view by blast
    next
      case (Inr info)
      define sub where "sub = \<lparr>sub_topic = topic ch, sub_datatype = schema_name ch,
        sub_qos = subscription_qos (min_qos_depth s) (max_qos_depth s) info\<rparr>"
      show thesis
      proof (cases "create_generic_subscription E sub")
        case (Inl what)
        then have "\<exists>e. subscribe E i h s = (Throw e, s\<lparr>subscriptions := y\<rparr>)"
          using free Inr by (simp add: subscribe_def catch_std_def cpp_defs ch rcl_def y_def sub_def)
        then show thesis using that(1) view by blast
      next
        case (Inr u)
        define x where "x = m_assign i (m_emplace h sub (case m_find y i of Some subs \<Rightarrow> subs | None \<Rightarrow> [])) y"
        have "subscribe E i h s = (Ok (), s\<lparr>subscriptions := x\<rparr>)"
          using free \<open>get_publishers_info_by_topic E (topic ch) = Inr info\<close> Inr
          by (simp add: subscribe_def catch_std_def cpp_defs ch rcl_def y_def sub_def x_def)
        moreover have "sub_in x = (\<lambda>h' i'. if h' = h \<and> i' = i then Some sub else ros_subscription_of s h' i')"
          using None by (auto simp: x_def y_def fun_eq_iff sub_in_def split: option.splits)
        moreover have "sub_topic sub = topic ch" "sub_datatype sub = schema_name ch"
          by (simp_all add: sub_def)
        ultimately show thesis using that(2) None ch by blast
      qed
    qed
  qed
qed

lemma unsubscribe_cases:
  obtains e where "unsubscribe i h s = (Throw e, s)" "exn_what e \<noteq> None"
      "m_find (advertised_topics s) i = None \<or> ros_subscription_of s h i = None"
  | x where "unsubscribe i h s = (Ok (), s\<lparr>subscriptions := x\<rparr>)"
      "sub_in x = (\<lambda>h' i'. if h' = h \<and> i' = i then None else ros_subscription_of s h' i')"
proof (cases "m_find (advertised_topics s) i = None \<or> ros_subscription_of s h i = None")
  case True
  then have "\<exists>e. unsubscribe i h s = (Throw e, s) \<and> exn_what e \<noteq> None"
    by (auto simp: unsubscribe_def cpp_defs m_contains_def sub_in_def split: option.splits)
  with True show thesis using that(1) by blast
next
  case False
  then obtain subs where subs: "m_find (subscriptions s) i = Some subs" "m_find subs h \<noteq> None"
    by (auto simp: sub_in_def split: option.splits)
  define x where "x = (if m_erase h subs = [] then m_erase i (subscriptions s)
    else m_assign i (m_erase h subs) (subscriptions s))"
  have "unsubscribe i h s = (Ok (), s\<lparr>subscriptions := x\<rparr>)"
    using False subs by (auto simp: unsubscribe_def cpp_defs m_contains_def x_def)
  moreover have "m_erase h subs = [] \<Longrightarrow> h' \<noteq> h \<Longrightarrow> m_find subs h' = None" for h'
    by (metis m_find_Nil m_find_erase)
  then have "sub_in x = (\<lambda>h' i'. if h' = h \<and> i' = i then None else ros_subscription_of s h' i')"
    using subs by (auto simp: x_def fun_eq_iff sub_in_def)
  ultimately show thesis by (rule that(2))
qed

section \<open>Publications\<close>

lemma pub_in_emplace [simp]: "pub_in (m_emplace h [] pubs) k i = pub_in pubs k i"
  by (simp add: pub_in_def)

lemma pub_in_assign [simp]: "pub_in (m_assign h m pubs) k i = (if k = h then m_find m i else pub_in pubs k i)"
  by (simp add: pub_in_def)

lemma pub_in_erase [simp]: "pub_in (m_erase h pubs) k i = (if k = h then None else pub_in pubs k i)"
  by (simp add: pub_in_def)

lemma find_client_publications: "m_find (client_publications h s) i = ros_publisher_of s h i"
  by (simp add: client_publications_def pub_in_def split: option.split)

lemma client_advertise_cases:
  obtains e x where "client_advertise E adv h s = (Throw e, s\<lparr>client_advertised_topics := x\<rparr>)"
      "pub_in x = ros_publisher_of s"
  | x p where "client_advertise E adv h s = (Ok (), s\<lparr>client_advertised_topics := x\<rparr>)"
      "pub_in x = (\<lambda>h' i. if h' = h \<and> i = channel_id adv then Some p else ros_publisher_of s h' i)"
      "ros_publisher_of s h (channel_id adv) = None"
      "pub_topic p = adv_topic adv" "pub_datatype p = adv_schema_name adv"
proof -
  define y where "y = m_emplace h [] (client_advertised_topics s)"
  define t where "t = s\<lparr>client_advertised_topics := y\<rparr>"
  have view: "pub_in y = ros_publisher_of s"
    by (simp add: y_def fun_eq_iff)
  have first: "client_advertise E adv h s = (Throw e, t) \<Longrightarrow> thesis" for e
    using that(1) [of e y] view by (simp add: t_def)
  show thesis
  proof (cases "ros_publisher_of s h (channel_id adv)")
    case (Some p)
    then have "m_contains (client_publications h t) (channel_id adv)"
      by (simp add: m_contains_def find_client_publications t_def view)
    then have "\<exists>e. client_advertise E adv h s = (Throw e, t)"
      by (simp add: client_advertise_def cpp_defs t_def y_def)
    then show thesis using first by blast
  next
    case None
    then have free: "\<not> m_contains (client_publications h t) (channel_id adv)"
      by (simp add: m_contains_def find_client_publications t_def view)
    show thesis
    proof (cases "get_publishers_info_by_topic E (adv_topic adv)")
      case (Inl what)
      then have "\<exists>e. client_advertise E adv h s = (Throw e, t)"
        using free by (simp add: client_advertise_def catch_std_def cpp_defs rcl_def t_def y_def)
      then show thesis using first by blast
    next
      case info: (Inr info)
      define p where "p = \<lparr>pub_topic = adv_topic adv, pub_datatype = adv_schema_name adv, pub_qos = publisher_qos E info\<rparr>"
      show thesis
      proof (cases "create_generic_publisher E p")
        case (Inl what)
        then have "\<exists>e. client_advertise E adv h s = (Throw e, t)"
          using free info by (simp add: client_advertise_def catch_std_def cpp_defs rcl_def t_def y_def p_def)
        then show thesis using first by blast
      next
        case (Inr u)
        define x where "x = m_assign h (m_emplace (channel_id adv) p (client_publications h t)) y"
        have "client_advertise E adv h s = (Ok (), s\<lparr>client_advertised_topics := x\<rparr>)"
          using free info Inr
          by (simp add: client_advertise_def catch_std_def cpp_defs rcl_def t_def y_def p_def x_def)
        moreover have "pub_in x = (\<lambda>h' i. if h' = h \<and> i = channel_id adv then Some p else ros_publisher_of s h' i)"
          using None by (auto simp: x_def fun_eq_iff find_client_publications t_def view)
        moreover have "pub_topic p = adv_topic adv" "pub_datatype p = adv_schema_name adv"
          by (simp_all add: p_def)
        ultimately show thesis using that(2) None by blast
      qed
    qed
  qed
qed

lemma client_unadvertise_cases:
  obtains e where "client_unadvertise i h s = (Throw e, s)" "exn_what e \<noteq> None" "ros_publisher_of s h i = None"
  | x where "client_unadvertise i h s = (Ok (), s\<lparr>client_advertised_topics := x\<rparr>)"
      "pub_in x = (\<lambda>h' i'. if h' = h \<and> i' = i then None else ros_publisher_of s h' i')"
proof (cases "ros_publisher_of s h i = None")
  case True
  then have "\<exists>e. client_unadvertise i h s = (Throw e, s) \<and> exn_what e \<noteq> None"
    by (auto simp: client_unadvertise_def cpp_defs m_contains_def pub_in_def split: option.splits)
  with True show thesis using that(1) by blast
next
  case False
  then obtain pubs where pubs: "m_find (client_advertised_topics s) h = Some pubs" "m_find pubs i \<noteq> None"
    by (auto simp: pub_in_def split: option.splits)
  define x where "x = (if m_erase i pubs = [] then m_erase h (client_advertised_topics s)
    else m_assign h (m_erase i pubs) (client_advertised_topics s))"
  have "client_unadvertise i h s = (Ok (), s\<lparr>client_advertised_topics := x\<rparr>)"
    using pubs by (auto simp: client_unadvertise_def cpp_defs m_contains_def x_def)
  moreover have "m_erase i pubs = [] \<Longrightarrow> i' \<noteq> i \<Longrightarrow> m_find pubs i' = None" for i'
    by (metis m_find_Nil m_find_erase)
  then have "pub_in x = (\<lambda>h' i'. if h' = h \<and> i' = i then None else ros_publisher_of s h' i')"
    using pubs by (auto simp: x_def fun_eq_iff pub_in_def)
  ultimately show thesis by (rule that(2))
qed

section \<open>Requests of the clients\<close>

text \<open>The invariants, for a client that is logged in.\<close>

definition known :: "hdl \<Rightarrow> cobridge \<Rightarrow> bool" where
  "known h s = (links s \<and> m_contains (clients s) h)"

lemma known_frame: "bridge_frame s = bridge_frame t \<Longrightarrow> known h s \<Longrightarrow> known h t"
  unfolding known_def
  by (elim conjE, intro conjI, erule (1) links_frame [OF bridge_frame_links])
    (simp add: bridge_frame_def key_state_def)

lemma framed_sends:
  "framed bridge_frame (send_status_and_log_msg h l m)"
  "framed bridge_frame (send_json h j r)"
  by (intro framedI keeps_intros)+

lemmas keeps_known_sends = framed_keeps [OF framed_sends(1), OF known_frame]

lemma triple_clients_at_links: "triple links (clients_at h) (\<lambda>_. known h) links"
  by (rule tripleI) (auto simp: clients_at_def cpp_defs known_def m_contains_def split: option.splits)

lemma keeps_known_links: "keeps (known h) m \<Longrightarrow> triple (known h) m (\<lambda>_. links) links"
  unfolding keeps_def by (erule triple_conseq) (auto simp: known_def)

lemma subscription_of_update [simp]:
  fixes s :: cobridge
  shows "subscription_of (s\<lparr>subscriptions := x\<rparr>) = subscription_of s"
    "subscription_of (s\<lparr>client_advertised_topics := y\<rparr>) = subscription_of s"
    "subscription_of (s\<lparr>advertised_topics := a\<rparr>) = subscription_of s"
    "subscription_of (s\<lparr>client_channels := cc\<rparr>) = subscription_of s"
    "subscription_of (s\<lparr>channels := chs\<rparr>) = subscription_of s"
    "subscription_of (s\<lparr>outbox := ob\<rparr>) = subscription_of s"
  by (simp_all add: subscription_of_def fun_eq_iff)

lemma publications_update [simp]:
  fixes s :: cobridge
  shows "publications h (s\<lparr>subscriptions := x\<rparr>) = publications h s"
    "publications h (s\<lparr>client_advertised_topics := y\<rparr>) = publications h s"
    "publications h (s\<lparr>advertised_topics := a\<rparr>) = publications h s"
    "publications h (s\<lparr>channels := chs\<rparr>) = publications h s"
    "publications h (s\<lparr>outbox := ob\<rparr>) = publications h s"
  by (simp_all add: publications_def)

lemma subscription_of_with_client:
  "subscription_of (with_client h f s) k i =
     (if k = h then (case m_find (clients s) h of None \<Rightarrow> None | Some c \<Rightarrow> m_find (subscriptions_by_channel (f c)) i)
      else subscription_of s k i)"
  by (simp add: subscription_of_def split: option.split)

lemma with_client_members [simp]:
  fixes s :: cobridge
  shows "channels (with_client h f s) = channels s" "services (with_client h f s) = services s"
    "client_channels (with_client h f s) = client_channels s"
    "advertised_topics (with_client h f s) = advertised_topics s"
    "bridge_services (with_client h f s) = bridge_services s"
    "subscriptions (with_client h f s) = subscriptions s"
    "client_advertised_topics (with_client h f s) = client_advertised_topics s"
    "publications k (with_client h f s) = publications k s"
  by (simp_all add: with_client_def publications_def split: option.split)

text \<open>A subscription made or given up on both sides.\<close>

lemma links_both_subs:
  assumes l: "links s" and c: "m_find (clients s) h = Some c"
    and view: "sub_in x = (\<lambda>h' i'. if h' = h \<and> i' = i then r else ros_subscription_of s h' i')"
    and f: "\<And>k. m_find (subscriptions_by_channel (f c)) k = (if k = i then r' else m_find (subscriptions_by_channel c) k)"
    and r: "r = None \<longleftrightarrow> r' = None"
    and match: "\<And>sub. r = Some sub \<Longrightarrow> \<exists>ch. m_find (advertised_topics s) i = Some ch \<and>
      sub_topic sub = topic ch \<and> sub_datatype sub = schema_name ch"
  shows "known h (with_client h f (s\<lparr>subscriptions := x\<rparr>))"
proof -
  let ?t = "with_client h f (s\<lparr>subscriptions := x\<rparr>)"
  have "subscription_of ?t k j = (if k = h \<and> j = i then r' else subscription_of s k j)" for k j
    using c by (simp add: subscription_of_with_client f) (simp add: subscription_of_def)
  then have "link_subs ?t"
    using l r by (simp add: links_def link_subs_def view)
  moreover have "link_topics ?t"
    using l match by (simp add: links_def link_topics_def view)
  moreover have "link_channels ?t" "link_services ?t" "link_pubs ?t"
    using l by (simp_all add: links_def link_channels_def link_services_def link_pubs_def)
  ultimately show ?thesis
    using c by (simp add: known_def links_def m_contains_def)
qed

lemma triple_subscribe_step:
  "triple (known h)
     (seq (subscribe E i h) (bind (clients_at h) (\<lambda>_. update_client h (\<lambda>c. c\<lparr>subscriptions_by_channel :=
        m_emplace i sub_id (subscriptions_by_channel c)\<rparr>))))
     (\<lambda>_. known h) (known h)"
proof (rule tripleI)
  fix s
  assume "known h s"
  then obtain c where l: "links s" and c: "m_find (clients s) h = Some c"
    by (auto simp: known_def m_contains_def)
  let ?f = "\<lambda>c. c\<lparr>subscriptions_by_channel := m_emplace i sub_id (subscriptions_by_channel c)\<rparr>"
  let ?m = "seq (subscribe E i h) (bind (clients_at h) (\<lambda>_. update_client h ?f))"
  show "case ?m s of (Ok a, t) \<Rightarrow> known h t | (Throw e, t) \<Rightarrow> known h t | (UB u, t) \<Rightarrow> True"
  proof (cases rule: subscribe_cases [of E i h s])
    case (1 e x)
    then have "?m s = (Throw e, s\<lparr>subscriptions := x\<rparr>)"
      by (simp add: seq_def bind_def)
    moreover have "known h (s\<lparr>subscriptions := x\<rparr>)"
      using l c 1(2) by (simp add: known_def links_def link_defs m_contains_def)
    ultimately show ?thesis by simp
  next
    case (2 x sub ch)
    let ?t = "with_client h ?f (s\<lparr>subscriptions := x\<rparr>)"
    have "?m s = (Ok (), ?t)"
      using 2(1) c by (simp add: seq_def bind_def clients_at_def gets_def update_client_modify modify_def ret_def)
    moreover have "m_find (subscriptions_by_channel c) i = None"
      using l 2(3) c by (simp add: links_def link_subs_def subscription_of_def)
    then have "known h ?t"
      using 2(4-6) by (intro links_both_subs [OF l c 2(2), where r' = "Some sub_id"]) auto
    ultimately show ?thesis by simp
  qed
qed

lemma keeps_links_handle_subscribe: "keeps links (handle_subscribe (bridge_handlers E caps) payload h)"
proof -
  note step = triple_subscribe_step [folded keeps_def]
  show ?thesis
    unfolding handle_subscribe_def call_def bridge_handlers_simps option.case Let_def keeps_def
    by (rule triple_bind [OF triple_clients_at_links], rule keeps_known_links,
        intro keeps_intros keeps_known_sends step)
qed

lemma triple_unsubscribe_step:
  "triple (known h)
     (seq (unsubscribe i h) (bind (clients_at h) (\<lambda>_. update_client h (\<lambda>c. c\<lparr>subscriptions_by_channel :=
        m_erase i (subscriptions_by_channel c)\<rparr>))))
     (\<lambda>_. known h) (known h)"
proof (rule tripleI)
  fix s
  assume k: "known h s"
  then obtain c where l: "links s" and c: "m_find (clients s) h = Some c"
    by (auto simp: known_def m_contains_def)
  let ?f = "\<lambda>c. c\<lparr>subscriptions_by_channel := m_erase i (subscriptions_by_channel c)\<rparr>"
  let ?m = "seq (unsubscribe i h) (bind (clients_at h) (\<lambda>_. update_client h ?f))"
  show "case ?m s of (Ok a, t) \<Rightarrow> known h t | (Throw e, t) \<Rightarrow> known h t | (UB u, t) \<Rightarrow> True"
  proof (cases rule: unsubscribe_cases [of i h s])
    case (1 e)
    then have "?m s = (Throw e, s)"
      by (simp add: seq_def bind_def)
    with k show ?thesis by simp
  next
    case (2 x)
    let ?t = "with_client h ?f (s\<lparr>subscriptions := x\<rparr>)"
    have "?m s = (Ok (), ?t)"
      using 2(1) c by (simp add: seq_def bind_def clients_at_def gets_def update_client_modify modify_def ret_def)
    moreover have "known h ?t"
      by (rule links_both_subs [OF l c 2(2), where r' = None]) auto
    ultimately show ?thesis by simp
  qed
qed

lemma keeps_links_handle_unsubscribe: "keeps links (handle_unsubscribe (bridge_handlers E caps) payload h)"
proof -
  note step = triple_unsubscribe_step [folded keeps_def]
  show ?thesis
    unfolding handle_unsubscribe_def call_def bridge_handlers_simps option.case Let_def keeps_def
    by (rule triple_bind [OF triple_clients_at_links], rule keeps_known_links,
        intro keeps_intros keeps_known_sends step)
qed

text \<open>
  Giving up a publication needs that a client with publications is logged in; the publications are
  those the client is recorded to advertise.
\<close>

definition served :: "cobridge \<Rightarrow> bool" where
  "served s = (links s \<and> inv_adv s)"

lemma keeps_served: "keeps links m \<Longrightarrow> keeps inv_adv m \<Longrightarrow> keeps served m"
  unfolding served_def [abs_def] by (rule keeps_conj)

lemma served_quiet: "framed bridge_frame m \<Longrightarrow> keeps served m"
  by (intro keeps_served keeps_links bridge_frame_link_frame
      on_key_state_keeps [OF on_key_state_invs(3)] bridge_frame_key_state)

lemmas keeps_served_sends = served_quiet [OF framed_sends(1)] served_quiet [OF framed_sends(2)]

lemma links_publications:
  assumes l: "links s"
    and view: "pub_in x = (\<lambda>h' i'. if h' = h \<and> i' = i then r else ros_publisher_of s h' i')"
    and pubs: "\<And>k j. m_find (publications k t) j = (if k = h \<and> j = i then r' else m_find (publications k s) j)"
    and match: "\<And>adv. r' = Some adv \<Longrightarrow> \<exists>p. r = Some p \<and> pub_match i adv p"
    and same: "subscription_of t = subscription_of s" "channels t = channels s" "services t = services s"
      "advertised_topics t = advertised_topics s" "bridge_services t = bridge_services s"
      "subscriptions t = subscriptions s" "client_advertised_topics t = x"
  shows "links t"
proof -
  have "link_pubs t"
    using l match by (simp add: links_def link_pubs_def view pubs same)
  moreover have "link_channels t" "link_services t" "link_subs t" "link_topics t"
    using l by (simp_all add: links_def link_channels_def link_services_def link_subs_def link_topics_def same)
  ultimately show ?thesis
    by (simp add: links_def)
qed

lemma keeps_advertise_step:
  fixes adv :: client_advertisement
  assumes i: "i = channel_id adv"
  shows "keeps links
     (seq (client_advertise E adv h) (bind (clients_at h) (\<lambda>_.
        seq (update_client h (\<lambda>c. c\<lparr>advertised_channels := s_insert i (advertised_channels c)\<rparr>))
          (update_publications h (m_emplace i adv)))))"
  unfolding keeps_def
proof (rule tripleI)
  fix s
  assume l: "links s"
  let ?f = "(\<lambda>c :: client_info. c\<lparr>advertised_channels := s_insert i (advertised_channels c)\<rparr>)"
  let ?k = "bind (clients_at h) (\<lambda>_. seq (update_client h ?f) (update_publications h (m_emplace i adv)))"
  show "case seq (client_advertise E adv h) ?k s of (Ok a, t) \<Rightarrow> links t | (Throw e, t) \<Rightarrow> links t | (UB u, t) \<Rightarrow> True"
  proof (cases rule: client_advertise_cases [of E adv h s])
    case (1 e x)
    then have "seq (client_advertise E adv h) ?k s = (Throw e, s\<lparr>client_advertised_topics := x\<rparr>)"
      by (simp add: seq_def bind_def)
    moreover have "links (s\<lparr>client_advertised_topics := x\<rparr>)"
      using l 1(2) by (simp add: links_def link_defs)
    ultimately show ?thesis by simp
  next
    case (2 x p)
    define u where "u = s\<lparr>client_advertised_topics := x\<rparr>"
    have free: "m_find (publications h s) i = None"
    proof (rule ccontr)
      assume "m_find (publications h s) i \<noteq> None"
      then obtain adv' where "m_find (publications h s) i = Some adv'" by blast
      with l have "ros_publisher_of s h i \<noteq> None"
        unfolding links_def link_pubs_def by blast
      with 2(3) i show False by simp
    qed
    show ?thesis
    proof (cases "m_find (clients s) h")
      case None
      then have "seq (client_advertise E adv h) ?k s = (Throw (StdException ''map::at''), u)"
        using 2(1) by (simp add: cpp_defs clients_at_def u_def)
      moreover have "links u"
        by (rule links_publications [OF l 2(2), where r' = None]) (use free in \<open>auto simp: u_def i\<close>)
      ultimately show ?thesis by simp
    next
      case (Some c)
      define w where "w = with_client h ?f u"
      define t where "t = w\<lparr>client_channels := m_assign h (m_emplace i adv (publications h w)) (client_channels w)\<rparr>"
      have run: "seq (client_advertise E adv h) ?k s = (Ok (), t)"
        using 2(1) Some
        by (simp add: cpp_defs clients_at_def u_def w_def t_def update_client_modify update_publications_def)
      have "subscription_of t = subscription_of s"
        using Some by (auto simp: t_def w_def fun_eq_iff subscription_of_with_client u_def)
          (auto simp: subscription_of_def)
      moreover have "publications k w = publications k s" for k
        by (simp add: w_def u_def)
      then have "m_find (publications k t) j = (if k = h \<and> j = i then Some adv else m_find (publications k s) j)" for k j
        using free by (auto simp: t_def publications_assign)
      ultimately have "links t"
        using 2(4,5) by (intro links_publications [OF l 2(2), where r' = "Some adv"])
          (auto simp: u_def i t_def w_def pub_match_def)
      with run show ?thesis by simp
    qed
  qed
qed

lemma keeps_links_sends: "keeps links (send_status_and_log_msg h l m)"
  by (intro keeps_links bridge_frame_link_frame framed_sends)

lemma publications_emplace_empty [simp]:
  "publications k (s\<lparr>client_channels := m_emplace h [] (client_channels s)\<rparr>) = publications k s"
  by (simp add: publications_def)

lemma keeps_served_handle_advertise: "keeps served (handle_advertise (bridge_handlers E caps) payload h)"
proof (rule keeps_served [OF _ bridge.keeps_adv_handle_advertise])
  have "links s \<Longrightarrow> links (s\<lparr>client_channels := m_emplace h [] (client_channels s)\<rparr>)" for s
    by (simp add: links_def link_defs)
  then show "keeps links (handle_advertise (bridge_handlers E caps) payload h)"
    unfolding handle_advertise_def advertise_channel_def [abs_def] call_def bridge_handlers_simps option.case Let_def
    by (intro keeps_advertise_step keeps_links_sends keeps_intros keeps_modify) simp_all
qed

lemma triple_unadvertise_step:
  "triple (\<lambda>s. served s \<and> m_contains (publications h s) i)
     (seq (client_unadvertise i h) (bind (clients_at h) (\<lambda>_.
        seq (update_publications h (m_erase i))
          (update_client h (\<lambda>c. c\<lparr>advertised_channels := s_erase i (advertised_channels c)\<rparr>)))))
     (\<lambda>_. served) served"
proof (rule tripleI)
  fix s
  assume pre: "served s \<and> m_contains (publications h s) i"
  then have l: "links s" and adv: "inv_adv s" and i: "i \<in> set (m_keys (publications h s))"
    by (simp_all add: served_def m_contains_iff)
  then have "i \<in> set (advertised_of h s)"
    by (simp add: inv_adv_def)
  then obtain c where c: "m_find (clients s) h = Some c"
    by (cases "m_find (clients s) h") (auto simp: advertised_of_def)
  let ?f = "(\<lambda>c :: client_info. c\<lparr>advertised_channels := s_erase i (advertised_channels c)\<rparr>)"
  let ?k = "bind (clients_at h) (\<lambda>_. seq (update_publications h (m_erase i)) (update_client h ?f))"
  show "case seq (client_unadvertise i h) ?k s of (Ok a, t) \<Rightarrow> served t | (Throw e, t) \<Rightarrow> served t | (UB u, t) \<Rightarrow> True"
  proof (cases rule: client_unadvertise_cases [of i h s])
    case (1 e)
    then have "seq (client_unadvertise i h) ?k s = (Throw e, s)"
      by (simp add: seq_def bind_def)
    with pre show ?thesis by simp
  next
    case (2 x)
    define u where "u = s\<lparr>client_advertised_topics := x\<rparr>"
    define w where "w = u\<lparr>client_channels := m_assign h (m_erase i (publications h u)) (client_channels u)\<rparr>"
    have run: "seq (client_unadvertise i h) ?k s = (Ok (), with_client h ?f w)"
      using 2(1) c
      by (simp add: cpp_defs clients_at_def u_def w_def update_client_modify update_publications_def)
    have cu: "m_find (clients u) h = Some c"
      using c by (simp add: u_def)
    have "inv_adv u"
      using adv by (simp add: inv_adv_def u_def advertised_of_def publications_def)
    then have "inv_adv (with_client h ?f w)"
      using unadvertise_both [of u h c i] cu by (simp add: w_def)
    moreover have pubs: "publications k u = publications k s" for k
      by (simp add: u_def)
    have subs: "subscription_of (with_client h ?f w) = subscription_of s"
      using c by (auto simp: fun_eq_iff subscription_of_with_client w_def u_def) (auto simp: subscription_of_def)
    have "m_find (publications k (with_client h ?f w)) j = (if k = h \<and> j = i then None else m_find (publications k s) j)" for k j
      by (auto simp: w_def publications_assign pubs)
    then have "links (with_client h ?f w)"
      using subs by (intro links_publications [OF l 2(2), where r' = None]) (auto simp: w_def u_def)
    ultimately show ?thesis
      using run by (simp add: served_def)
  qed
qed

lemma keeps_served_handle_unadvertise: "keeps served (handle_unadvertise (bridge_handlers E caps) payload h)"
proof -
  have item: "keeps served (bind (gets (publications h)) (\<lambda>pubs.
      if \<not> m_contains pubs i then ret ()
      else seq (client_unadvertise i h) (bind (clients_at h) (\<lambda>_.
        seq (update_publications h (m_erase i))
          (update_client h (\<lambda>c. c\<lparr>advertised_channels := s_erase i (advertised_channels c)\<rparr>))))))" for i
    unfolding keeps_def
  proof (rule triple_bind)
    show "triple served (gets (publications h)) (\<lambda>pubs s. served s \<and> publications h s = pubs) served"
      by (rule triple_gets) simp
  next
    fix pubs :: "(uint32_t \<times> client_advertisement) list"
    show "triple (\<lambda>s. served s \<and> publications h s = pubs) (if \<not> m_contains pubs i then ret ()
      else seq (client_unadvertise i h) (bind (clients_at h) (\<lambda>_.
        seq (update_publications h (m_erase i))
          (update_client h (\<lambda>c. c\<lparr>advertised_channels := s_erase i (advertised_channels c)\<rparr>))))) (\<lambda>_. served) served"
      by (rule triple_if, rule triple_ret, simp, rule triple_conseq [OF triple_unadvertise_step]) auto
  qed
  show ?thesis
    unfolding handle_unadvertise_def call_def bridge_handlers_simps option.case
    by (intro keeps_bind [OF keeps_gets] keeps_bind [OF keeps_lift] keeps_if keeps_served_sends keeps_for_each item)
qed

section \<open>A connection closed\<close>

text \<open>The client \<open>h\<close> is gone; the bridge may still hold subscriptions to \<open>S\<close> and publishers for it.\<close>

definition leaving :: "hdl \<Rightarrow> uint32_t set \<Rightarrow> cobridge \<Rightarrow> bool" where
  "leaving h S s = (link_channels s \<and> link_services s \<and> link_topics s \<and>
     (\<forall>k i. k \<noteq> h \<longrightarrow> (ros_subscription_of s k i = None \<longleftrightarrow> subscription_of s k i = None)) \<and>
     (\<forall>k i adv. k \<noteq> h \<longrightarrow> m_find (publications k s) i = Some adv \<longrightarrow>
        (\<exists>p. ros_publisher_of s k i = Some p \<and> pub_match i adv p)) \<and>
     (\<forall>i. subscription_of s h i = None) \<and> (\<forall>i. ros_subscription_of s h i \<noteq> None \<longrightarrow> i \<in> S))"

definition withdrawn :: "hdl \<Rightarrow> uint32_t set \<Rightarrow> cobridge \<Rightarrow> bool" where
  "withdrawn h S s = (leaving h S s \<and> publications h s = [])"

lemma withdrawn_links: "withdrawn h {} s \<Longrightarrow> links s"
proof -
  assume w: "withdrawn h {} s"
  then have "link_subs s"
    unfolding link_subs_def withdrawn_def leaving_def by (metis empty_iff)
  moreover have "link_pubs s"
    unfolding link_pubs_def
  proof (intro allI impI)
    fix k i adv
    assume "m_find (publications k s) i = Some adv"
    moreover from this w have "k \<noteq> h"
      by (auto simp: withdrawn_def)
    ultimately show "\<exists>p. ros_publisher_of s k i = Some p \<and> pub_match i adv p"
      using w unfolding withdrawn_def leaving_def by blast
  qed
  ultimately show ?thesis
    using w by (simp add: links_def withdrawn_def leaving_def)
qed

lemma leaving_erase:
  assumes l: "links s" and c: "m_find (clients s) h = Some c"
  shows "leaving h (set (m_keys (subscriptions_by_channel c))) (s\<lparr>clients := m_erase h (clients s)\<rparr>)"
proof -
  let ?t = "s\<lparr>clients := m_erase h (clients s)\<rparr>"
  have sub: "subscription_of ?t k i = (if k = h then None else subscription_of s k i)" for k i
    by (simp add: subscription_of_def)
  have left: "i \<in> set (m_keys (subscriptions_by_channel c))" if r: "ros_subscription_of s h i \<noteq> None" for i
  proof -
    have "subscription_of s h i \<noteq> None"
      using l r by (simp add: links_def link_subs_def)
    then show ?thesis
      using c m_find_None_iff [of "subscriptions_by_channel c" i] by (auto simp: subscription_of_def)
  qed
  have "link_channels ?t" "link_services ?t" "link_topics ?t"
    using l by (simp_all add: links_def link_channels_def link_services_def link_topics_def)
  moreover have "\<forall>k i. k \<noteq> h \<longrightarrow> (ros_subscription_of ?t k i = None \<longleftrightarrow> subscription_of ?t k i = None)"
    using l by (simp add: links_def link_subs_def sub)
  moreover have "\<forall>i. ros_subscription_of ?t h i \<noteq> None \<longrightarrow> i \<in> set (m_keys (subscriptions_by_channel c))"
    using left by simp
  moreover have "\<forall>k i adv. m_find (publications k ?t) i = Some adv \<longrightarrow>
      (\<exists>p. ros_publisher_of ?t k i = Some p \<and> pub_match i adv p)"
    using l by (simp add: links_def link_pubs_def)
  ultimately show ?thesis
    by (simp add: leaving_def sub)
qed

lemma ignoring_run:
  "m s = (Ok (), t) \<Longrightarrow> ignoring m s = (Ok (), t)"
  "m s = (Throw e, t) \<Longrightarrow> ignoring m s = (Ok (), t)"
  by (simp_all add: ignoring_def catch_all_def cpp_defs split: option.split)

lemma triple_closing_unadvertise_links:
  "triple (leaving h S) (ignoring (client_unadvertise i h)) (\<lambda>_. leaving h S) links"
proof (rule tripleI)
  fix s
  assume l: "leaving h S s"
  show "case ignoring (client_unadvertise i h) s of (Ok a, t) \<Rightarrow> leaving h S t | (Throw e, t) \<Rightarrow> links t | (UB u, t) \<Rightarrow> True"
  proof (cases rule: client_unadvertise_cases [of i h s])
    case (1 e)
    then have "ignoring (client_unadvertise i h) s = (Ok (), s)"
      by (intro ignoring_run(2))
    with l show ?thesis by simp
  next
    case (2 x)
    have "leaving h S (s\<lparr>client_advertised_topics := x\<rparr>)"
      using l by (simp add: leaving_def link_channels_def link_services_def link_topics_def 2(2))
    with ignoring_run(1) [of "client_unadvertise i h" s] 2(1) show ?thesis by simp
  qed
qed

lemma triple_closing_unsubscribe_links:
  "triple (withdrawn h (insert i S)) (ignoring (unsubscribe i h)) (\<lambda>_. withdrawn h S) links"
proof (rule tripleI)
  fix s
  assume w: "withdrawn h (insert i S) s"
  show "case ignoring (unsubscribe i h) s of (Ok a, t) \<Rightarrow> withdrawn h S t | (Throw e, t) \<Rightarrow> links t | (UB u, t) \<Rightarrow> True"
  proof (cases rule: unsubscribe_cases [of i h s])
    case (1 e)
    have "ros_subscription_of s h i = None"
    proof (rule ccontr)
      assume r: "ros_subscription_of s h i \<noteq> None"
      with w have "m_find (advertised_topics s) i \<noteq> None"
        unfolding withdrawn_def leaving_def link_topics_def by blast
      with 1(3) r show False by simp
    qed
    with w have "withdrawn h S s"
      unfolding withdrawn_def leaving_def by (metis insertE)
    with ignoring_run(2) [of "unsubscribe i h" s] 1(1) show ?thesis by simp
  next
    case (2 x)
    have "withdrawn h S (s\<lparr>subscriptions := x\<rparr>)"
      using w by (auto simp: withdrawn_def leaving_def link_channels_def link_services_def link_topics_def 2(2))
    with ignoring_run(1) [of "unsubscribe i h" s] 2(1) show ?thesis by simp
  qed
qed

lemma triple_closing_subscriptions:
  "triple (withdrawn h (set (m_keys subs))) (for_each subs (\<lambda>(i, _). ignoring (unsubscribe i h))) (\<lambda>_. links) links"
proof (induction subs)
  case Nil
  then show ?case by (auto simp: m_keys_def intro!: triple_ret withdrawn_links)
next
  case (Cons x subs)
  obtain i j where x: "x = (i, j)" by (rule prod.exhaust)
  have "set (m_keys (x # subs)) = insert i (set (m_keys subs))"
    by (simp add: m_keys_def x)
  then show ?case
    using triple_seq [OF triple_closing_unsubscribe_links Cons] by (simp add: x)
qed

lemma keeps_served_handle_connection_closed:
  "keeps served (handle_connection_closed (bridge_handlers E caps) h)"
proof (rule keeps_served [OF _ bridge.keeps_adv_handle_connection_closed])
  have erase: "triple (\<lambda>s. links s \<and> m_find (clients s) h = Some c)
      (modify (\<lambda>s. s\<lparr>clients := m_erase h (clients s)\<rparr>))
      (\<lambda>_. leaving h (set (m_keys (subscriptions_by_channel c)))) links" for c
    by (rule triple_modify, elim conjE, rule leaving_erase)
  have withdraw: "triple (leaving h S) (modify (\<lambda>s. s\<lparr>client_channels := m_erase h (client_channels s)\<rparr>))
      (\<lambda>_. withdrawn h S) links" for S
  proof (rule triple_modify)
    fix s
    assume l: "leaving h S s"
    let ?t = "s\<lparr>client_channels := m_erase h (client_channels s)\<rparr>"
    have "publications k ?t = (if k = h then [] else publications k s)" for k
      by (simp add: publications_def)
    with l show "withdrawn h S ?t"
      by (simp add: withdrawn_def leaving_def link_channels_def link_services_def link_topics_def)
  qed
  have graph: "keeps links (add_graph_count d)" for d
    unfolding add_graph_count_def
    by (intro keeps_modify, erule links_frame [rotated]) (simp add: link_frame_def subscription_of_def fun_eq_iff)
  have params: "keeps links (modify (\<lambda>s. s\<lparr>client_param_subscriptions := m_erase h (client_param_subscriptions s)\<rparr>))"
    by (intro keeps_links bridge_frame_link_frame framed_modify) simp
  have graph_handler: "keeps links (subscribe_connection_graph E b)" for b
    by (intro keeps_links bridge_frame_link_frame framed_bridge)
  have unsubscribe_params: "keeps links (unsubscribe_params_without_subscriptions (bridge_handlers E caps) h ns)" for ns
    by (intro keeps_links bridge_frame_link_frame tables.framed_unsubscribe_params)
  have gets: "triple links (gets clients) (\<lambda>cs s. links s \<and> clients s = cs) links"
    by (rule triple_gets) simp
  show "keeps links (handle_connection_closed (bridge_handlers E caps) h)"
    unfolding handle_connection_closed_def bridge_handlers_simps option.case keeps_def
  proof (rule triple_bind [OF gets], rule triple_option)
    fix cs :: "(hdl \<times> client_info) list" and c
    assume "m_find cs h = Some c"
    then have start: "triple (\<lambda>s. links s \<and> clients s = cs) (modify (\<lambda>s. s\<lparr>clients := m_erase h (clients s)\<rparr>))
        (\<lambda>_. leaving h (set (m_keys (subscriptions_by_channel c)))) links"
      by (intro triple_conseq [OF erase]) auto
    show "triple (\<lambda>s. links s \<and> clients s = cs)
      (seq (modify (\<lambda>s. s\<lparr>clients := m_erase h (clients s)\<rparr>)) (
       seq (for_each (advertised_channels c) (\<lambda>i. ignoring (client_unadvertise i h))) (
       seq (modify (\<lambda>s. s\<lparr>client_channels := m_erase h (client_channels s)\<rparr>)) (
       seq (for_each (subscriptions_by_channel c) (\<lambda>(i, _). ignoring (unsubscribe i h))) (
       bind (gets (param_names_of h)) (\<lambda>ns.
       seq (modify (\<lambda>s. s\<lparr>client_param_subscriptions := m_erase h (client_param_subscriptions s)\<rparr>)) (
       seq (unsubscribe_params_without_subscriptions (bridge_handlers E caps) h ns) (
       whenever (subscribed_to_connection_graph c) (
         seq (add_graph_count (- 1)) (
         bind (gets (\<lambda>s. subscription_count (conn_graph s) = 0)) (\<lambda>last.
         whenever last (ignoring (subscribe_connection_graph E False))))))))))))) (\<lambda>_. links) links"
      by (rule triple_seq [OF start],
          rule triple_seq [OF triple_for_each [OF triple_closing_unadvertise_links]],
          rule triple_seq [OF withdraw], rule triple_seq [OF triple_closing_subscriptions], fold keeps_def,
          intro keeps_intros params unsubscribe_params graph graph_handler)
  qed (auto intro: triple_ret)
qed

section \<open>The other requests\<close>

lemma link_frame_with_client:
  assumes "\<And>c. subscriptions_by_channel (f c) = subscriptions_by_channel c"
  shows "link_frame (with_client h f s) = link_frame s"
proof -
  have "subscription_of (with_client h f s) = subscription_of s"
    by (simp add: fun_eq_iff subscription_of_with_client assms)
      (simp add: subscription_of_def assms split: option.split)
  then show ?thesis by (simp add: link_frame_def)
qed

lemma link_frame_emplace_client:
  "link_frame (s\<lparr>clients := m_emplace h (ClientInfo e n u h) (clients s)\<rparr>) = link_frame s"
  by (auto simp: link_frame_def subscription_of_def fun_eq_iff ClientInfo_def split: option.split)

lemma link_frame_graph [simp]: "link_frame (s\<lparr>conn_graph := g\<rparr>) = link_frame s"
  by (simp add: link_frame_def subscription_of_def fun_eq_iff)

lemma keeps_link_frame_sends [keeps_intros]:
  "keeps (\<lambda>s. link_frame s = v) (send_json h j r)"
  "keeps (\<lambda>s. link_frame s = v) (send_raw_json h j r)"
  "keeps (\<lambda>s. link_frame s = v) (send_status_and_log_msg h l m)"
  "keeps (\<lambda>s. link_frame s = v) (con_send h con f r)"
  by (rule framed_keepsD, rule bridge_frame_link_frame, rule framedI, rule keeps_intros)+

lemma keeps_link_frame_graph_count [keeps_intros]: "keeps (\<lambda>s. link_frame s = v) (add_graph_count d)"
  unfolding add_graph_count_def
  by (intro keeps_modify) simp

lemma framed_link_requests:
  "framed link_frame (handle_login payload h)"
  "framed link_frame (handle_subscribe_connection_graph (bridge_handlers E caps) h)"
  "framed link_frame (handle_unsubscribe_connection_graph (bridge_handlers E caps) h)"
proof -
  note [keeps_intros] = bridge_frame_link_frame [OF framed_subscribe_connection_graph, THEN framed_keepsD]
  show "framed link_frame (handle_login payload h)"
    unfolding handle_login_def update_client_modify
    by (intro framedI keeps_intros keeps_modify) (simp_all add: link_frame_with_client link_frame_emplace_client)
  show "framed link_frame (handle_subscribe_connection_graph (bridge_handlers E caps) h)"
    "framed link_frame (handle_unsubscribe_connection_graph (bridge_handlers E caps) h)"
    unfolding handle_subscribe_connection_graph_def handle_unsubscribe_connection_graph_def update_client_modify
      call_def bridge_handlers_simps option.case
    by (intro framedI keeps_intros keeps_modify; simp add: link_frame_with_client)+
qed

lemma keeps_served_requests:
  "keeps served (handle_login payload h)"
  "keeps served (handle_subscribe (bridge_handlers E caps) payload h)"
  "keeps served (handle_unsubscribe (bridge_handlers E caps) payload h)"
  "keeps served (handle_subscribe_connection_graph (bridge_handlers E caps) h)"
  "keeps served (handle_unsubscribe_connection_graph (bridge_handlers E caps) h)"
  by (intro keeps_served keeps_links framed_link_requests keeps_links_handle_subscribe
      keeps_links_handle_unsubscribe keeps_handle_login bridge.keeps_handle_subscribe
      bridge.keeps_handle_unsubscribe bridge.keeps_handle_subscribe_graph bridge.keeps_handle_unsubscribe_graph)+

lemma keeps_served_dispatch: "keeps served (dispatch_op (bridge_handlers E caps) op payload h)"
  unfolding dispatch_op_def Let_def
  by (intro keeps_if keeps_served_requests keeps_served_handle_advertise keeps_served_handle_unadvertise
      tables.framed_parameter_requests [THEN served_quiet] keeps_served_sends)

lemma keeps_served_text: "keeps served (handle_text_message parse (bridge_handlers E caps) h text)"
proof -
  have "keeps served (report_exception h op e)" for op e
    unfolding report_exception_def
    by (cases "exn_id e"; cases "exn_what e"; simp only: prod.case option.case; rule keeps_served_sends)
  then show ?thesis
    unfolding handle_text_message_def by (intro keeps_intros keeps_served_dispatch keeps_served_sends)
qed

lemma keeps_served_message: "keeps served (handle_message parse now (bridge_handlers E caps) h msg)"
  unfolding handle_message_def
  by (cases msg; simp only: ws_message.case; rule keeps_catch_all;
      rule keeps_served_sends keeps_served_text tables.framed_binary_message [THEN served_quiet] keeps_ret)

lemma framed_connections:
  "framed bridge_frame (discard (validate_connection h))"
  "framed bridge_frame (handle_connection_opened h)"
  unfolding validate_connection_def select_subprotocol_def handle_connection_opened_def
  by (intro framedI keeps_intros keeps_modify; simp add: bridge_frame_def key_state_def split: option.split)+

lemma keeps_served_transport: "keeps served (transport_run parse (bridge_handlers E caps) e)"
  by (cases e; simp only: transport_run.simps;
      rule keeps_served_message keeps_served_handle_connection_closed framed_connections [THEN served_quiet]
        served_quiet [OF framed_modify]; simp)

end
