(* ===== verification/Bridge_Runs.thy ===== *)
theory Bridge_Runs
  imports Bridge_Links
begin

text \<open>
  Runs of the whole program: the requests of the clients, the polling of the ROS graph, the messages,
  events and responses of ROS in any order.  The invariants of the server and of the links between
  the server and the ROS 2 bridge hold in every state that can be reached.
\<close>

section \<open>The polling of the ROS graph\<close>

text \<open>Registration without the assumption that the identifiers do not wrap around.\<close>

context id_registry
begin

lemma fold_any:
  "for_fold xs step (ids, outs) s =
     (Ok (ids @ new_ids (last_id s) xs, outs @ outs_of (last_id s) xs),
      upd (last_id s + word_of_nat (length xs))
        (fold (\<lambda>(i, x). m_emplace i (mk i x)) (zip (new_ids (last_id s) xs) xs) (reg s)) s)"
proof (induction xs arbitrary: ids outs s)
  case Nil
  then show ?case by (simp add: ret_def outs_of_def upd_same)
next
  case (Cons x xs)
  then show ?case
    by (simp add: bind_def step_run outs_of_def last_upd reg_upd upd_upd add.assoc)
qed

end

lemma add_channels_any:
  "\<exists>ob. add_channels chs s = (Ok (new_ids (next_channel_id s) chs),
     s\<lparr>next_channel_id := next_channel_id s + word_of_nat (length chs), channels :=
       fold (\<lambda>(i, ch). m_emplace i (Channel i ch)) (zip (new_ids (next_channel_id s) chs) chs) (channels s),
       outbox := ob\<rparr>)"
proof (cases "chs = []")
  case True
  then have "add_channels chs s = (Ok (new_ids (next_channel_id s) chs),
      s\<lparr>next_channel_id := next_channel_id s + word_of_nat (length chs), channels :=
        fold (\<lambda>(i, ch). m_emplace i (Channel i ch)) (zip (new_ids (next_channel_id s) chs) chs) (channels s),
        outbox := outbox s\<rparr>)"
    by (simp add: add_channels_def ret_def)
  then show ?thesis by blast
next
  case False
  then show ?thesis
    by (simp add: add_channels_def chan.fold_any seq_def bind_def ret_def broadcast_to_clients) blast
qed

lemma add_services_any:
  "\<exists>n ob. add_services svs s = (Ok (new_ids (nextService_id s) svs),
     s\<lparr>nextService_id := n, services :=
       fold (\<lambda>(i, sv). m_emplace i sv) (zip (new_ids (nextService_id s) svs) svs) (services s),
       outbox := ob\<rparr>)"
proof (cases "svs = []")
  case True
  then have "add_services svs s = (Ok (new_ids (nextService_id s) svs),
      s\<lparr>nextService_id := nextService_id s, services :=
        fold (\<lambda>(i, sv). m_emplace i sv) (zip (new_ids (nextService_id s) svs) svs) (services s),
        outbox := outbox s\<rparr>)"
    by (simp add: add_services_def ret_def)
  then show ?thesis by blast
next
  case False
  then show ?thesis
    by (simp add: add_services_def serv.fold_any seq_def bind_def ret_def broadcast_to_clients) blast
qed

subsection \<open>Channels\<close>

lemma sub_in_fold_erase: "sub_in (fold m_erase ids subs) h i = (if i \<in> set ids then None else sub_in subs h i)"
  by (simp add: sub_in_def find_fold_erase)

lemma keeps_links_remove_channels:
  "keeps links (seq (modify (\<lambda>s. s\<lparr>subscriptions := fold m_erase ids (subscriptions s),
      advertised_topics := fold m_erase ids (advertised_topics s)\<rparr>)) (remove_channels ids))"
proof (cases "ids = []")
  case True
  then show ?thesis
    unfolding True remove_channels_def by (intro keeps_intros keeps_modify) simp_all
next
  case False
  show ?thesis
  proof (rule keepsI)
    fix s :: cobridge
    assume l: "links s"
    define u where "u = s\<lparr>subscriptions := fold m_erase ids (subscriptions s),
      advertised_topics := fold m_erase ids (advertised_topics s)\<rparr>"
    obtain cl where run: "remove_channels ids u = (Ok (), u\<lparr>channels := fold m_erase ids (channels u), clients := cl,
         outbox := outbox u @ to_clients u (TextFrame (jobject [(''op'', JStr ''unadvertise''),
            (''channelIds'', JArr (map json_u32 ids))]))\<rparr>)"
      and cl: "\<And>h. m_find cl h = map_option (drop_subscriptions ids) (m_find (clients u) h)"
      using remove_channels_run [OF False, of u] by blast
    define t where "t = snd (remove_channels ids u)"
    have t: "channels t = fold m_erase ids (channels s)" "clients t = cl" "services t = services s"
      "client_channels t = client_channels s" "bridge_services t = bridge_services s"
      "advertised_topics t = fold m_erase ids (advertised_topics s)"
      "subscriptions t = fold m_erase ids (subscriptions s)"
      "client_advertised_topics t = client_advertised_topics s"
      unfolding t_def run by (simp_all add: u_def)
    have sub: "subscription_of t h i = (if i \<in> set ids then None else subscription_of s h i)" for h i
      using cl [of h] by (cases "m_find (clients s) h") (auto simp: subscription_of_def t u_def find_drop_subscriptions)
    have "link_channels t" "link_services t" "link_pubs t"
      using l by (simp_all add: links_def link_channels_def link_services_def link_pubs_def publications_def t find_fold_erase)
    moreover have "link_subs t"
      using l by (simp add: links_def link_subs_def t sub_in_fold_erase sub)
    moreover have "link_topics t"
      using l by (simp add: links_def link_topics_def t sub_in_fold_erase find_fold_erase)
    moreover have "snd (seq (modify (\<lambda>s. s\<lparr>subscriptions := fold m_erase ids (subscriptions s),
        advertised_topics := fold m_erase ids (advertised_topics s)\<rparr>)) (remove_channels ids) s) = t"
      by (simp add: seq_def bind_def modify_def t_def u_def)
    ultimately show "links (snd (seq (modify (\<lambda>s. s\<lparr>subscriptions := fold m_erase ids (subscriptions s),
        advertised_topics := fold m_erase ids (advertised_topics s)\<rparr>)) (remove_channels ids) s))"
      by (simp add: links_def)
  qed
qed

lemma map_of_zip_Channel:
  "map_of (map (\<lambda>(i, ch). (i, Channel i ch)) xs) i = map_option (Channel i) (map_of xs i)"
  by (induction xs) auto

lemma find_fold_emplace_Channel:
  "m_find (fold (\<lambda>(i, ch). m_emplace i (Channel i ch)) xs m) i =
     (case m_find m i of Some c \<Rightarrow> Some c | None \<Rightarrow> map_option (Channel i) (map_of xs i))"
proof -
  have "fold (\<lambda>(i, ch). m_emplace i (Channel i ch)) xs m =
      fold (\<lambda>(k, v). m_emplace k v) (map (\<lambda>(i, ch). (i, Channel i ch)) xs) m"
    by (simp add: fold_map o_def case_prod_unfold)
  then show ?thesis by (simp add: m_find_fold_emplace map_of_zip_Channel split: option.split)
qed

lemma keeps_links_add_channels:
  "keeps links (bind (add_channels chs) (\<lambda>channel_ids. modify (\<lambda>s. s\<lparr>advertised_topics :=
     fold (\<lambda>(i, ch). m_emplace i ch) (zip channel_ids chs) (advertised_topics s)\<rparr>)))"
proof (rule keepsI)
  fix s :: cobridge
  assume l: "links s"
  let ?k = "\<lambda>channel_ids. modify (\<lambda>s. s\<lparr>advertised_topics :=
     fold (\<lambda>(i, ch). m_emplace i ch) (zip channel_ids chs) (advertised_topics s)\<rparr>)"
  define z where "z = zip (new_ids (next_channel_id s) chs) chs"
  obtain n ob where run: "add_channels chs s = (Ok (new_ids (next_channel_id s) chs),
     s\<lparr>next_channel_id := n, channels := fold (\<lambda>(i, ch). m_emplace i (Channel i ch)) z (channels s), outbox := ob\<rparr>)"
    using add_channels_any [of chs s] unfolding z_def by blast
  define t where "t = snd (bind (add_channels chs) ?k s)"
  have t: "channels t = fold (\<lambda>(i, ch). m_emplace i (Channel i ch)) z (channels s)" "clients t = clients s"
    "services t = services s" "client_channels t = client_channels s" "bridge_services t = bridge_services s"
    "advertised_topics t = fold (\<lambda>(i, ch). m_emplace i ch) z (advertised_topics s)"
    "subscriptions t = subscriptions s" "client_advertised_topics t = client_advertised_topics s"
    by (simp_all add: t_def bind_def run modify_def z_def)
  have "m_find (channels t) i = map_option (Channel i) (m_find (advertised_topics t) i)" for i
    using l by (simp add: links_def link_channels_def t find_fold_emplace_Channel m_find_fold_emplace split: option.split)
  then have "link_channels t" by (simp add: link_channels_def)
  moreover have "link_services t" "link_pubs t" "link_subs t"
    using l by (simp_all add: links_def link_services_def link_pubs_def link_subs_def publications_def subscription_of_def t)
  moreover have "link_topics t"
    unfolding link_topics_def
  proof (intro allI impI)
    fix h i sub
    assume "ros_subscription_of t h i = Some sub"
    then obtain ch where "m_find (advertised_topics s) i = Some ch" "sub_topic sub = topic ch" "sub_datatype sub = schema_name ch"
      using l unfolding links_def link_topics_def t by blast
    then show "\<exists>ch. m_find (advertised_topics t) i = Some ch \<and> sub_topic sub = topic ch \<and> sub_datatype sub = schema_name ch"
      by (simp add: t m_find_fold_emplace)
  qed
  ultimately show "links (snd (bind (add_channels chs) ?k s))"
    by (simp add: links_def t_def [symmetric])
qed

lemma keeps_inv_adv_channels:
  "keeps inv_adv (add_channels chs)" "keeps inv_adv (remove_channels ids)"
  by (intro keeps_add_channels keeps_remove_channels)+

lemma keeps_latest_topic: "keeps P (latest_topic x acc)"
  unfolding latest_topic_def by (intro keeps_intros)

lemma framed_new_channel: "framed bridge_frame (new_channel E x acc)"
  unfolding new_channel_def
  by (intro framedI keeps_intros keeps_on_definitions) (auto split: exn.split intro: keeps_intros)

lemma framed_new_service: "framed bridge_frame (new_service E x acc)"
  unfolding new_service_def ub_def
  by (intro framedI keeps_intros keeps_on_definitions)
    (auto split: exn.split list.split intro!: keeps_intros keeps_on_definitions)

lemma keeps_served_topics: "keeps served (update_advertised_topics E ts)"
proof (rule keeps_served)
  have new: "keeps links (new_channel E x acc)" "keeps inv_adv (new_channel E x acc)" for x acc
    using served_quiet [OF framed_new_channel]
    by (intro keeps_links bridge_frame_link_frame framed_new_channel
        on_key_state_keeps [OF on_key_state_invs(3)] bridge_frame_key_state)+
  have flat: "seq (modify f) (seq m k) = seq (seq (modify f) m) k" for f m and k :: "(cobridge, unit) cpp"
    by (simp add: seq_def bind_assoc)
  show "keeps links (update_advertised_topics E ts)"
    unfolding update_advertised_topics_def flat
    by (intro keeps_links_add_channels keeps_links_remove_channels keeps_latest_topic new keeps_if keeps_bind
        keeps_for_fold keeps_ret keeps_gets keeps_seq [where m = "seq m k" for m k])
  show "keeps inv_adv (update_advertised_topics E ts)"
    unfolding update_advertised_topics_def
    by (intro keeps_inv_adv_channels keeps_latest_topic new keeps_intros
        on_key_state_keeps [OF on_key_state_invs(3)] framed_modify) simp_all
qed

subsection \<open>Services\<close>

lemma remove_service_fold:
  "\<exists>removed'. for_fold ids remove_service removed s = (Ok removed', s\<lparr>services := fold m_erase ids (services s)\<rparr>)"
proof (induction ids arbitrary: removed s)
  case Nil
  then show ?case by (simp add: ret_def)
next
  case (Cons i ids)
  have same: "\<not> m_contains (services s) i \<Longrightarrow> m_erase i (services s) = services s"
    by (simp add: m_contains_iff m_keys_def m_erase_def delete_id)
  show ?case
  proof (cases "m_contains (services s) i")
    case True
    with Cons [of "removed @ [i]" "s\<lparr>services := m_erase i (services s)\<rparr>"] show ?thesis
      by (simp add: remove_service_def bind_def seq_def gets_def modify_def ret_def)
  next
    case False
    with Cons [of removed s] same show ?thesis
      by (simp add: remove_service_def bind_def gets_def ret_def)
  qed
qed

lemma remove_services_any:
  "\<exists>ob. remove_services ids s = (Ok (), s\<lparr>services := fold m_erase ids (services s), outbox := ob\<rparr>)"
proof -
  obtain removed where "for_fold ids remove_service [] s = (Ok removed, s\<lparr>services := fold m_erase ids (services s)\<rparr>)"
    using remove_service_fold by blast
  moreover have "\<exists>ob. s\<lparr>services := x\<rparr> = s\<lparr>services := x, outbox := ob\<rparr>" for x
    by (rule exI [of _ "outbox s"]) simp
  ultimately show ?thesis
    by (cases "removed = []") (auto simp: remove_services_def bind_def ret_def broadcast_to_clients)
qed

lemma link_services_only:
  assumes "links s" "link_services t" "key_state t = key_state s" "advertised_topics t = advertised_topics s"
    "subscriptions t = subscriptions s" "client_advertised_topics t = client_advertised_topics s"
  shows "links t"
proof -
  have "link_frame (t\<lparr>services := services s, bridge_services := bridge_services s\<rparr>) = link_frame s"
    using assms(3-6) by (simp add: link_frame_def key_state_def subscription_of_def fun_eq_iff)
  then have "links (t\<lparr>services := services s, bridge_services := bridge_services s\<rparr>)"
    using assms(1) by (metis links_frame)
  then have "link_channels t" "link_subs t" "link_topics t" "link_pubs t"
    by (simp_all add: links_def link_channels_def link_subs_def link_topics_def link_pubs_def
        subscription_of_def publications_def)
  with assms(2) show ?thesis by (simp add: links_def)
qed

lemma keeps_links_remove_services:
  "keeps links (seq (modify (\<lambda>s. s\<lparr>bridge_services := fold m_erase ids (bridge_services s)\<rparr>)) (remove_services ids))"
proof (rule keepsI)
  fix s :: cobridge
  assume l: "links s"
  define u where "u = s\<lparr>bridge_services := fold m_erase ids (bridge_services s)\<rparr>"
  obtain ob where run: "remove_services ids u = (Ok (), u\<lparr>services := fold m_erase ids (services u), outbox := ob\<rparr>)"
    using remove_services_any by blast
  have "links (u\<lparr>services := fold m_erase ids (services u), outbox := ob\<rparr>)"
    using l by (intro link_services_only [OF l]) (simp_all add: links_def link_services_def u_def find_fold_erase)
  then show "links (snd (seq (modify (\<lambda>s. s\<lparr>bridge_services := fold m_erase ids (bridge_services s)\<rparr>)) (remove_services ids) s))"
    using run by (simp add: seq_def bind_def modify_def u_def)
qed

lemma keeps_links_add_services:
  "keeps links (bind (add_services svs) (\<lambda>service_ids. modify (\<lambda>s. s\<lparr>bridge_services :=
     fold (\<lambda>(i, sv). m_emplace i sv) (zip service_ids svs) (bridge_services s)\<rparr>)))"
proof (rule keepsI)
  fix s :: cobridge
  assume l: "links s"
  let ?k = "\<lambda>service_ids. modify (\<lambda>s. s\<lparr>bridge_services :=
     fold (\<lambda>(i, sv). m_emplace i sv) (zip service_ids svs) (bridge_services s)\<rparr>)"
  define z where "z = zip (new_ids (nextService_id s) svs) svs"
  obtain n ob where run: "add_services svs s = (Ok (new_ids (nextService_id s) svs),
     s\<lparr>nextService_id := n, services := fold (\<lambda>(i, sv). m_emplace i sv) z (services s), outbox := ob\<rparr>)"
    using add_services_any [of svs s] unfolding z_def by blast
  have "links (s\<lparr>nextService_id := n, services := fold (\<lambda>(i, sv). m_emplace i sv) z (services s), outbox := ob,
      bridge_services := fold (\<lambda>(i, sv). m_emplace i sv) z (bridge_services s)\<rparr>)"
    using l by (intro link_services_only [OF l]) (simp_all add: links_def link_services_def m_find_fold_emplace)
  then show "links (snd (bind (add_services svs) ?k s))"
    using run by (simp add: bind_def modify_def z_def)
qed

lemma keeps_served_services: "keeps served (update_advertised_services E)"
proof (rule keeps_served)
  have new: "keeps links (new_service E x acc)" "keeps inv_adv (new_service E x acc)" for x acc
    by (intro keeps_links bridge_frame_link_frame framed_new_service
        on_key_state_keeps [OF on_key_state_invs(3)] bridge_frame_key_state)+
  have flat: "seq (modify f) (seq m k) = seq (seq (modify f) m) k" for f m and k :: "(cobridge, unit) cpp"
    by (simp add: seq_def bind_assoc)
  show "keeps links (update_advertised_services E)"
    unfolding update_advertised_services_def flat
    by (intro keeps_links_add_services keeps_links_remove_services new keeps_if keeps_bind
        keeps_for_fold keeps_ret keeps_gets keeps_seq [where m = "seq m k" for m k])
  show "keeps inv_adv (update_advertised_services E)"
    unfolding update_advertised_services_def
    by (intro new keeps_intros on_key_state_keeps [OF on_key_state_invs(3)]
        framed_quiet(1,2) framed_modify) simp_all
qed

lemma keeps_served_poll:
  "keeps served (rosgraph_poll E)" "keeps served (rosgraph_first_poll E)"
  unfolding rosgraph_poll_def rosgraph_first_poll_def
  by (intro keeps_intros keeps_served_topics keeps_served_services served_quiet framed_update_ros_graph)+

lemma keeps_inv_poll:
  "keeps server_inv (rosgraph_poll E)" "keeps server_inv (rosgraph_first_poll E)"
proof -
  note quiet = framed_new_channel framed_new_service framed_update_ros_graph
  have frame: "framed bridge_frame m \<Longrightarrow> keeps server_inv m" for m :: "(cobridge, 'b) cpp"
    by (intro keeps_inv_quiet bridge_frame_key_state)
  have topics: "keeps server_inv (update_advertised_topics E ts)" for ts
    unfolding update_advertised_topics_def
    by (intro keeps_inv_channels keeps_latest_topic frame [OF framed_new_channel] keeps_intros
        keeps_inv_quiet [OF framed_modify]) simp_all
  have services: "keeps server_inv (update_advertised_services E)"
    unfolding update_advertised_services_def
    by (intro frame [OF framed_new_service] keeps_intros keeps_inv_quiet [OF framed_quiet(1)]
        keeps_inv_quiet [OF framed_quiet(2)] keeps_inv_quiet [OF framed_modify]) simp_all
  show "keeps server_inv (rosgraph_poll E)" "keeps server_inv (rosgraph_first_poll E)"
    unfolding rosgraph_poll_def rosgraph_first_poll_def
    by (intro keeps_intros topics services frame [OF framed_update_ros_graph])+
qed

section \<open>Runs\<close>

text \<open>
  What happens to the program: an event of the transport, with the ROS environment at that moment;
  a round of the polling of the ROS graph; a message on a ROS subscription; an event of the
  parameters of a node; the response of a service; a round of the asset worker; a clock message.
\<close>

datatype bridge_event =
    Transport ros transport_event
  | FirstPoll ros
  | Poll ros
  | RosMessage ros uint32_t hdl bytes uint64_t
  | NodeParameters string "ros_parameter list"
  | ServiceResponded service_request hdl bytes
  | AssetWork ros
  | Clock int64_t

fun bridge_run :: "(string \<Rightarrow> json outcome) \<Rightarrow> bridge_event \<Rightarrow> (cobridge, unit) cpp" where
  "bridge_run parse (Transport E e) =
     bind (gets bridge_capabilities) (\<lambda>caps. transport_run parse (bridge_handlers E caps) e)"
| "bridge_run parse (FirstPoll E) = rosgraph_first_poll E"
| "bridge_run parse (Poll E) = rosgraph_poll E"
| "bridge_run parse (RosMessage E i h msg t) = ros_message_handler E i h msg t"
| "bridge_run parse (NodeParameters node changed) = node_parameter_event node changed"
| "bridge_run parse (ServiceResponded req h payload) = response_received req h payload"
| "bridge_run parse (AssetWork E) = fetch_asset_work E"
| "bridge_run parse (Clock t) = clock_message t"

text \<open>A step is an event whose behaviour is defined; it may end with an exception.\<close>

inductive bridge_step :: "(string \<Rightarrow> json outcome) \<Rightarrow> cobridge \<Rightarrow> bridge_event \<Rightarrow> cobridge \<Rightarrow> bool"
  for parse :: "string \<Rightarrow> json outcome" where
  returns: "bridge_run parse e s = (Ok (), t) \<Longrightarrow> bridge_step parse s e t"
| throws: "bridge_run parse e s = (Throw x, t) \<Longrightarrow> bridge_step parse s e t"

inductive bridge_reachable :: "(string \<Rightarrow> json outcome) \<Rightarrow> (string \<Rightarrow> regex option) \<Rightarrow> bridge_config \<Rightarrow> cobridge \<Rightarrow> bool"
  for parse :: "string \<Rightarrow> json outcome" and regex :: "string \<Rightarrow> regex option" and cfg :: bridge_config where
  start: "bridge_reachable parse regex cfg (CoBridge regex cfg)"
| step: "bridge_reachable parse regex cfg s \<Longrightarrow> bridge_step parse s e t \<Longrightarrow> bridge_reachable parse regex cfg t"

lemma framed_clock: "framed bridge_frame (clock_message t)"
proof -
  have "keeps (\<lambda>s. bridge_frame s = v) (broadcast_time ts)" for v ts
    by (rule framed_keepsD, rule framed_responses)
  then show ?thesis
    unfolding clock_message_def ub_def by (intro framedI keeps_intros)
qed

lemma keeps_bridge_run: "keeps server_inv (bridge_run parse e)" "keeps served (bridge_run parse e)"
proof -
  note quiet = framed_bridge framed_clock
  show "keeps server_inv (bridge_run parse e)"
    by (cases e; simp only: bridge_run.simps)
      (intro keeps_bind [OF keeps_gets] bridge.keeps_inv_transport keeps_inv_poll
        keeps_inv_quiet bridge_frame_key_state quiet)+
  show "keeps served (bridge_run parse e)"
    by (cases e; simp only: bridge_run.simps)
      (intro keeps_bind [OF keeps_gets] keeps_served_transport keeps_served_poll served_quiet quiet)+
qed

lemma step_keeps: "keeps P (bridge_run parse e) \<Longrightarrow> bridge_step parse s e t \<Longrightarrow> P s \<Longrightarrow> P t"
  by (erule bridge_step.cases) (auto dest: keeps_Ok keeps_Throw)

lemma start_invariants:
  "server_inv (CoBridge regex cfg)" "served (CoBridge regex cfg)"
proof -
  show "server_inv (CoBridge regex cfg)"
    by (rule server_inv_start [of _ "''cobridge''" "bridge_server_options regex cfg"])
      (simp add: CoBridge_def server.defs Server_def)
  show "served (CoBridge regex cfg)"
    by (simp add: served_def links_def link_defs CoBridge_def server.defs Server_def sub_in_def
        subscription_of_def publications_def inv_adv_def advertised_of_def m_keys_def)
qed

lemma reachable_invariants:
  assumes "bridge_reachable parse regex cfg s"
  shows "server_inv s \<and> served s"
  using assms
proof induction
  case start
  show ?case by (intro conjI start_invariants)
next
  case (step s e t)
  then show ?case using keeps_bridge_run step_keeps by blast
qed

section \<open>Runs of events\<close>

fun bridge_runs :: "(string \<Rightarrow> json outcome) \<Rightarrow> bridge_event list \<Rightarrow> cobridge \<Rightarrow> cobridge option" where
  "bridge_runs parse [] s = Some s"
| "bridge_runs parse (e # es) s =
     (case bridge_run parse e s of
        (UB _, _) \<Rightarrow> None
      | (_, t) \<Rightarrow> bridge_runs parse es t)"

lemma bridge_runs_reachable:
  "bridge_reachable parse regex cfg s \<Longrightarrow> bridge_runs parse es s = Some t \<Longrightarrow> bridge_reachable parse regex cfg t"
proof (induction es arbitrary: s)
  case (Cons e es)
  then show ?case
    by (auto split: prod.splits outcome.splits intro: bridge_reachable.step bridge_step.intros)
qed simp

text \<open>A client logs in, a topic appears, the client subscribes to it and advertises a topic of its own.\<close>

definition demo_ros :: ros where
  "demo_ros =
     \<lparr>get_fully_qualified_name = ''/cobridge'', get_node_names = [],
      get_service_names_and_types_by_node = (\<lambda>_ _. Inr []), service_is_ready = (\<lambda>_. True),
      list_parameters = (\<lambda>_. Some []), request_parameters = (\<lambda>_ _. Some []),
      set_parameters_answered = (\<lambda>_ _. True), ros_ok = True,
      topic_names_and_types = [(''/t'', [''p/msg/T''])], service_names_and_types = [],
      get_publishers_info_by_topic = (\<lambda>_. Inr []), get_subscriptions_info_by_topic = (\<lambda>_. Inr []),
      get_name = ''cobridge'', get_namespace = ''/'',
      system_defaults_qos = \<lparr>qos_history = HistorySystemDefault, qos_depth = 0, qos_reliable = True, qos_transient_local = False\<rparr>,
      create_generic_subscription = (\<lambda>_. Inr ()), create_generic_publisher = (\<lambda>_. Inr ()),
      publish = (\<lambda>_ _. Inr ()), create_service_client = (\<lambda>_ _. Inr ()), wait_for_service = (\<lambda>_. True),
      retrieve_resource = (\<lambda>_. Inl ''not found''), ros_now = 0,
      ament_index = \<lparr>get_package_share_directory = (\<lambda>_. Inr ''/share''), rosidl_interfaces = (\<lambda>_. None),
        file_contents = (\<lambda>_. None)\<rparr>, stack_depth = 8\<rparr>"

definition demo_config :: bridge_config where
  "demo_config =
     \<lparr>cfg_send_buffer_limit = 10, cfg_tls = False, cfg_certfile = [], cfg_keyfile = [],
      cfg_min_qos_depth = 1, cfg_max_qos_depth = 25, cfg_topic_whitelist = [''.*''], cfg_service_whitelist = [],
      cfg_param_whitelist = [], cfg_client_topic_whitelist = [''.*''], cfg_asset_uri_allowlist = [],
      cfg_use_compression = False, cfg_use_sim_time = False, cfg_capabilities = [''clientPublish''],
      cfg_include_hidden = False, env_ros_distro = ''humble'', env_colink_ip = [],
      env_mac_addresses = [], env_ip_addresses = [], env_time = ''0''\<rparr>"

definition demo_regex :: "string \<Rightarrow> regex option" where
  "demo_regex = (\<lambda>_. Some (\<lambda>_. True))"

definition demo_parse :: "string \<Rightarrow> json outcome" where
  "demo_parse text =
     (if text = ''login'' then Ok (jobject [(''op'', JStr ''login''), (''username'', JStr ''u''), (''userId'', JStr ''1'')])
      else if text = ''subscribe'' then Ok (jobject [(''op'', JStr ''subscribe''),
        (''subscriptions'', JArr [jobject [(''id'', json_u32 7), (''channelId'', json_u32 1)]])])
      else Ok (jobject [(''op'', JStr ''advertise''),
        (''channels'', JArr [jobject [(''id'', json_u32 5), (''topic'', JStr ''/x''), (''encoding'', JStr ''cdr''),
          (''schemaName'', JStr ''p/msg/T'')]])]))"

definition demo_events :: "bridge_event list" where
  "demo_events =
     [Transport demo_ros (Accepted 0 \<lparr>con_open = True, remote_endpoint = ''10.0.0.2:5'', requested_subprotocols = [],
        selected_subprotocol = None\<rparr>),
      Transport demo_ros (Received 0 0 (TextMessage ''login'')), Poll demo_ros,
      Transport demo_ros (Received 0 0 (TextMessage ''subscribe'')),
      Transport demo_ros (Received 0 0 (TextMessage ''advertise''))]"

lemma demo_state:
  obtains s where "bridge_reachable demo_parse demo_regex demo_config s" "subscription_of s 0 1 = Some 7"
    "m_keys (publications 0 s) = [5]" "\<not> m_contains (clients s) 3" "has_capability ''clientPublish'' s"
proof -
  have "case bridge_runs demo_parse demo_events (CoBridge demo_regex demo_config) of
     Some s \<Rightarrow> subscription_of s 0 1 = Some 7 \<and> m_keys (publications 0 s) = [5] \<and> \<not> m_contains (clients s) 3 \<and>
       has_capability ''clientPublish'' s
   | None \<Rightarrow> False"
    by code_simp
  then obtain s where run: "bridge_runs demo_parse demo_events (CoBridge demo_regex demo_config) = Some s"
    and s: "subscription_of s 0 1 = Some 7" "m_keys (publications 0 s) = [5]" "\<not> m_contains (clients s) 3"
      "has_capability ''clientPublish'' s"
    by (auto split: option.splits)
  show thesis
    by (rule that [OF bridge_runs_reachable [OF bridge_reachable.start run] s])
qed

section \<open>What holds in every state\<close>



text \<open>C4: In every reachable state the tables of the server and of the bridge agree: a channel the server
  offers is a topic the bridge advertises, with the same description, and a service it offers is one the bridge
  can call.\<close>

theorem reachable_tables_agree:
  assumes "bridge_reachable parse regex cfg s"
  shows "m_find (channels s) i = map_option (Channel i) (m_find (advertised_topics s) i) \<and>
     m_find (services s) j = m_find (bridge_services s) j"
  using reachable_invariants [OF assms]
  by (simp add: served_def links_def link_channels_def link_services_def)

theorem reachable_tables_agree_witness:
  "\<exists>s. bridge_reachable demo_parse demo_regex demo_config s \<and> subscription_of s 0 1 = Some 7 \<and>
     m_find (channels s) 1 = map_option (Channel 1) (m_find (advertised_topics s) 1)"
proof -
  obtain s where s: "bridge_reachable demo_parse demo_regex demo_config s" "subscription_of s 0 1 = Some 7"
    by (rule demo_state)
  have "m_find (channels s) 1 = map_option (Channel 1) (m_find (advertised_topics s) 1)"
    by (rule conjunct1 [OF reachable_tables_agree [OF s(1)]])
  with s show ?thesis by (intro exI conjI)
qed

text \<open>C2: In every reachable state the bridge holds a ROS subscription for a client and a channel exactly when
  the client is subscribed to that channel, on the topic and with the type of the channel; so no ROS
  subscription is left over for a client that is gone.\<close>

theorem ros_subscriptions_exact:
  assumes "bridge_reachable parse regex cfg s"
  shows "(ros_subscription_of s h i = None \<longleftrightarrow> subscription_of s h i = None) \<and>
     (\<forall>sub. ros_subscription_of s h i = Some sub \<longrightarrow>
       (\<exists>ch. m_find (advertised_topics s) i = Some ch \<and> sub_topic sub = topic ch \<and> sub_datatype sub = schema_name ch)) \<and>
     (m_find (clients s) h = None \<longrightarrow> ros_subscription_of s h i = None)"
proof -
  have l: "link_subs s" "link_topics s"
    using reachable_invariants [OF assms] by (simp_all add: served_def links_def)
  then have iff: "ros_subscription_of s h i = None \<longleftrightarrow> subscription_of s h i = None"
    by (simp add: link_subs_def)
  have topics: "\<forall>sub. ros_subscription_of s h i = Some sub \<longrightarrow>
      (\<exists>ch. m_find (advertised_topics s) i = Some ch \<and> sub_topic sub = topic ch \<and> sub_datatype sub = schema_name ch)"
    by (rule l(2) [unfolded link_topics_def, THEN spec, THEN spec])
  show ?thesis
    by (intro conjI iff topics) (simp add: iff subscription_of_def)
qed

theorem ros_subscriptions_exact_witness:
  "\<exists>s sub. bridge_reachable demo_parse demo_regex demo_config s \<and> ros_subscription_of s 0 1 = Some sub \<and>
     ros_subscription_of s 3 1 = None"
proof -
  obtain s where s: "bridge_reachable demo_parse demo_regex demo_config s" "subscription_of s 0 1 = Some 7"
    "\<not> m_contains (clients s) 3"
    by (rule demo_state)
  have "ros_subscription_of s 0 1 \<noteq> None" "ros_subscription_of s 3 1 = None"
    using ros_subscriptions_exact [OF s(1), of 0 1] ros_subscriptions_exact [OF s(1), of 3 1] s(2,3)
    by (simp_all add: m_contains_def)
  with s(1) show ?thesis by (elim not_None_eq [THEN iffD1, THEN exE]) (intro exI conjI)
qed

end
