(* ===== verification/Bridge_Behaviour.thy ===== *)
theory Bridge_Behaviour
  imports Bridge_Runs
begin

text \<open>
  What the ROS 2 bridge does for its clients: messages they publish, the quality of service of the
  subscriptions made for them, the assets they fetch, and the topics of the ROS graph they are offered.
\<close>

section \<open>Client messages\<close>

lemma client_message_data_run:
  assumes "has_capability ''clientPublish'' s" "m_find (client_channels s) h = Some pubs"
    and "m_find pubs i = Some adv" "client_message_handler H = Some f"
    and "f \<lparr>log_time = now, publish_time = now, sequence = 0, advertisement = adv,
      data_length = length (1 # uint32_LE i @ p), cm_data = 1 # uint32_LE i @ p\<rparr> h s = (Ok (), t)"
  shows "handle_message parse now H h (BinaryMessage (1 # uint32_LE i @ p)) s = (Ok (), t)"
proof -
  have "read_uint32_LE 1 (1 # uint32_LE i @ p) = Ok i"
    by (simp add: read_uint32_LE_def peek_def)
  then have "handle_client_message_data H now h (1 # uint32_LE i @ p) s = (Ok (), t)"
    using assms(2-5) by (simp add: handle_client_message_data_def bind_def gets_def ret_def try_catch_def)
  then show ?thesis
    using assms(1)
    by (simp add: handle_message_def handle_binary_message_def CAPABILITY_BY_CLIENT_BINARY_OPERATION_def
        MESSAGE_DATA_op_def catch_all_def try_catch_def bind_def gets_def)
qed

text \<open>C5: In every reachable state, a message that a client sends on a channel it advertised is published on
  the ROS topic and with the type of that advertisement, its payload unchanged; nothing else happens.\<close>

theorem client_message_published:
  assumes "bridge_reachable parse regex cfg s" "has_capability ''clientPublish'' s"
    and adv: "m_find (publications h s) i = Some adv" and ok: "\<forall>p b. publish E p b = Inr ()"
  shows "\<exists>p. pub_topic p = adv_topic adv \<and> pub_datatype p = adv_schema_name adv \<and>
     bridge_run parse (Transport E (Received h now (BinaryMessage (1 # uint32_LE i @ payload)))) s =
       (Ok (), s\<lparr>published := published s @ [(p, payload)]\<rparr>)"
proof -
  have "link_pubs s"
    using reachable_invariants [OF assms(1)] by (simp add: served_def links_def)
  then obtain p where p: "ros_publisher_of s h i = Some p" "pub_match i adv p"
    using adv unfolding link_pubs_def by blast
  obtain pubs where pubs: "m_find (client_channels s) h = Some pubs" "m_find pubs i = Some adv"
    using adv by (auto simp: publications_def split: option.splits)
  obtain ps where ps: "m_find (client_advertised_topics s) h = Some ps" "m_find ps i = Some p"
    using p(1) by (auto simp: pub_in_def split: option.splits)
  define m where "m = \<lparr>log_time = now, publish_time = now, sequence = 0, advertisement = adv,
    data_length = length (1 # uint32_LE i @ payload), cm_data = 1 # uint32_LE i @ payload\<rparr>"
  have "channel_id (advertisement m) = i" "take (getLength m) (getData m) = payload"
    using p(2) by (simp_all add: m_def pub_match_def getLength_def getData_def MSG_PAYLOAD_OFFSET_def)
  then have "CoBridge_client_message E m h s = (Ok (), s\<lparr>published := published s @ [(p, payload)]\<rparr>)"
    using ps ok by (simp add: CoBridge_client_message_def Let_def cpp_defs rcl_def)
  then have "handle_message parse now (bridge_handlers E (bridge_capabilities s)) h (BinaryMessage (1 # uint32_LE i @ payload)) s =
      (Ok (), s\<lparr>published := published s @ [(p, payload)]\<rparr>)"
    using assms(2) pubs
    by (intro client_message_data_run [where f = "CoBridge_client_message E"]) (simp_all add: m_def)
  then have "bridge_run parse (Transport E (Received h now (BinaryMessage (1 # uint32_LE i @ payload)))) s =
      (Ok (), s\<lparr>published := published s @ [(p, payload)]\<rparr>)"
    by (simp add: bind_def gets_def)
  moreover have "pub_topic p = adv_topic adv" "pub_datatype p = adv_schema_name adv"
    using p(2) by (simp_all add: pub_match_def)
  ultimately show ?thesis by (intro exI conjI)
qed

theorem client_message_published_witness:
  "\<exists>s p. bridge_reachable demo_parse demo_regex demo_config s \<and>
     bridge_run demo_parse (Transport demo_ros (Received 0 9 (BinaryMessage (1 # uint32_LE 5 @ [42])))) s =
       (Ok (), s\<lparr>published := published s @ [(p, [42])]\<rparr>)"
proof -
  obtain s where s: "bridge_reachable demo_parse demo_regex demo_config s" "m_keys (publications 0 s) = [5]"
    "has_capability ''clientPublish'' s"
    by (rule demo_state)
  then obtain adv where adv: "m_find (publications 0 s) 5 = Some adv"
    using m_find_None_iff [of "publications 0 s" 5] by fastforce
  have "\<forall>p b. publish demo_ros p b = Inr ()" by (simp add: demo_ros_def)
  from client_message_published [OF s(1,3) adv this, of 9 "[42]"] s(1) show ?thesis by (elim exE conjE) (intro exI conjI)
qed

section \<open>Assets\<close>



section \<open>Quality of service\<close>

text \<open>The sum of the history depths, at least one for each publisher, as a number.\<close>

definition history_depth :: "endpoint_info list \<Rightarrow> nat" where
  "history_depth publishers = (\<Sum>p\<leftarrow>publishers. max 1 (unat (qos_depth (ep_qos p))))"

lemma unat_max: "unat (max a b :: 'a :: len word) = max (unat a) (unat b)"
  by (simp add: max_def word_le_nat_alt)

lemma total_depth_fold:
  "unat acc + history_depth ps < 2 ^ 64 \<Longrightarrow>
     unat (fold (\<lambda>p depth. depth + max 1 (qos_depth (ep_qos p))) ps acc) = unat acc + history_depth ps"
proof (induction ps arbitrary: acc)
  case Nil
  then show ?case by (simp add: history_depth_def)
next
  case (Cons p ps)
  have "unat (acc + max 1 (qos_depth (ep_qos p))) = unat acc + max 1 (unat (qos_depth (ep_qos p)))"
    using Cons.prems by (simp add: unat_word_ariths unat_max history_depth_def)
  with Cons show ?case by (simp add: history_depth_def)
qed

text \<open>C15: The depth of the queue of a subscription is the sum of the depths of the publishers, brought
  between the configured bounds; reliable or transient local delivery is asked for exactly when every
  publisher offers it, so that the subscription is compatible with all of them.  The sum is exact as long as it
  fits in 64 bits; the upper bound holds even when it wraps around.\<close>

theorem subscription_qos_bounds:
  "qos_depth (subscription_qos lo hi ps) \<le> hi \<and>
   (history_depth ps < 2 ^ 64 \<longrightarrow>
     unat (qos_depth (subscription_qos lo hi ps)) = min (max (history_depth ps) (unat lo)) (unat hi)) \<and>
   (qos_reliable (subscription_qos lo hi ps) \<longleftrightarrow> (\<forall>p \<in> set ps. qos_reliable (ep_qos p))) \<and>
   (qos_transient_local (subscription_qos lo hi ps) \<longleftrightarrow> (\<forall>p \<in> set ps. qos_transient_local (ep_qos p)))"
proof -
  have all: "length (filter P xs) = length xs \<longleftrightarrow> (\<forall>x \<in> set xs. P x)" for P and xs :: "endpoint_info list"
    by (metis filter_id_conv length_filter_less less_irrefl)
  have "history_depth ps < 2 ^ 64 \<Longrightarrow> unat (total_depth ps) = history_depth ps"
    using total_depth_fold [of 0 ps] by (simp add: total_depth_def)
  then have "history_depth ps < 2 ^ 64 \<longrightarrow>
      unat (qos_depth (subscription_qos lo hi ps)) = min (max (history_depth ps) (unat lo)) (unat hi)"
    by (auto simp: subscription_qos_def Let_def unat_max [symmetric] word_less_nat_alt unat_max)
  moreover have "qos_depth (subscription_qos lo hi ps) \<le> hi"
    by (simp add: subscription_qos_def Let_def not_less)
  ultimately show ?thesis
    by (simp add: subscription_qos_def Let_def all)
qed

definition camera :: "uint64_t \<Rightarrow> bool \<Rightarrow> endpoint_info" where
  "camera depth reliable = \<lparr>ep_node_name = ''camera'', ep_node_namespace = ''/'',
     ep_qos = \<lparr>qos_history = HistoryKeepLast, qos_depth = depth, qos_reliable = reliable, qos_transient_local = True\<rparr>\<rparr>"

theorem subscription_qos_bounds_witness:
  "unat (qos_depth (subscription_qos 1 25 [camera 10 True, camera 0 False])) = 11 \<and>
   unat (qos_depth (subscription_qos 1 25 [camera 20 True, camera 20 True])) = 25 \<and>
   \<not> qos_reliable (subscription_qos 1 25 [camera 10 True, camera 0 False])"
proof -
  have depth: "history_depth [camera 10 True, camera 0 False] = 11" "history_depth [camera 20 True, camera 20 True] = 40"
    by (simp_all add: history_depth_def camera_def)
  have "\<not> (\<forall>p \<in> set [camera 10 True, camera 0 False]. qos_reliable (ep_qos p))"
    by (simp add: camera_def)
  with depth show ?thesis
    using subscription_qos_bounds [of 1 25 "[camera 10 True, camera 0 False]"]
      subscription_qos_bounds [of 1 25 "[camera 20 True, camera 20 True]"]
    by simp
qed

section \<open>The topics that are offered\<close>

text \<open>The topics of the ROS graph that may be offered, with each of their types.\<close>

definition visible :: "cobridge \<Rightarrow> (string \<times> string list) list \<Rightarrow> (string \<times> string) set" where
  "visible s ts = {(n, d). \<exists>ds. (n, ds) \<in> set ts \<and> d \<in> set ds \<and>
     is_whitelisted n (topic_whitelist_patterns s) \<and>
     (include_hidden s \<or> is_hidden_topic_or_service n = Ok False)}"

text \<open>The channel for a topic, \<open>None\<close> when reading its definition fails for another reason than a missing file.\<close>

definition channel_for :: "ros \<Rightarrow> string \<times> string \<Rightarrow> channel_without_id option" where
  "channel_for E = (\<lambda>(n, d).
     case full_msg_spec (ament_index E) (stack_depth E) d of
       Ok (format, text) \<Rightarrow> Some \<lparr>topic = n, ch_encoding = ''cdr'', schema_name = d, schema = text,
         schema_encoding = Some (case format of IDL \<Rightarrow> ''ros2idl'' | _ \<Rightarrow> ''ros2msg'')\<rparr>
     | Throw (DefinitionNotFoundError _) \<Rightarrow>
         Some \<lparr>topic = n, ch_encoding = [], schema_name = d, schema = [], schema_encoding = None\<rparr>
     | _ \<Rightarrow> None)"

definition topic_key :: "channel_without_id \<Rightarrow> string \<times> string" where
  "topic_key ch = (topic ch, schema_name ch)"

definition offered :: "cobridge \<Rightarrow> (string \<times> string) set" where
  "offered s = {topic_key ch | i ch. m_find (advertised_topics s) i = Some ch}"

lemma channel_for_key: "channel_for E k = Some ch \<Longrightarrow> topic_key ch = k"
  by (auto simp: channel_for_def topic_key_def split: prod.splits outcome.splits exn.splits)

lemma set_insert_types:
  "set (fold (\<lambda>d. s_insert (n, d)) ds acc) = set acc \<union> {n} \<times> set ds"
  "distinct acc \<Longrightarrow> distinct (fold (\<lambda>d. s_insert (n, d)) ds acc)"
  by (induction ds arbitrary: acc) auto

lemma latest_topics_run:
  assumes "\<forall>(n, ds) \<in> set ts. n \<noteq> []"
  shows "\<exists>L. for_fold ts latest_topic acc s = (Ok L, s) \<and> set L = set acc \<union> visible s ts \<and> (distinct acc \<longrightarrow> distinct L)"
  using assms
proof (induction ts arbitrary: acc)
  case Nil
  then show ?case by (simp add: ret_def visible_def)
next
  case (Cons x ts)
  obtain n ds where x: "x = (n, ds)" by (rule prod.exhaust)
  obtain b where b: "hidden_here n s = Ok b"
    using Cons.prems by (cases n; cases "include_hidden s") (auto simp: x hidden_here_def is_hidden_topic_or_service_def)
  have hidden: "b \<longleftrightarrow> \<not> (include_hidden s \<or> is_hidden_topic_or_service n = Ok False)"
    using b by (auto simp: hidden_here_def split: if_splits)
  define acc' where "acc' = (if b \<or> \<not> is_whitelisted n (topic_whitelist_patterns s) then acc
    else fold (\<lambda>d. s_insert (n, d)) ds acc)"
  have "latest_topic x acc s = (Ok acc', s)"
    using b by (simp add: latest_topic_def x acc'_def cpp_defs)
  moreover obtain L where L: "for_fold ts latest_topic acc' s = (Ok L, s)" "set L = set acc' \<union> visible s ts"
    "distinct acc' \<longrightarrow> distinct L"
    using Cons.IH [of acc'] Cons.prems by auto
  moreover have "set acc' \<union> visible s ts = set acc \<union> visible s (x # ts)"
    using hidden by (auto simp: acc'_def visible_def x set_insert_types)
  moreover have "distinct acc \<Longrightarrow> distinct acc'"
    by (simp add: acc'_def set_insert_types)
  ultimately show ?case by (simp add: bind_def)
qed

text \<open>A definition that can be read or is missing; the recursion over its dependencies ends.\<close>

definition readable :: "ros \<Rightarrow> string \<Rightarrow> bool" where
  "readable E d = (case full_msg_spec (ament_index E) (stack_depth E) d of
     Ok _ \<Rightarrow> True
   | Throw e \<Rightarrow> exn_what e \<noteq> None
   | UB _ \<Rightarrow> False)"

lemma offered_known:
  assumes "m_invar (advertised_topics u)"
  shows "(\<exists>(_, ch) \<in> set (advertised_topics u). topic ch = n \<and> schema_name ch = d) \<longleftrightarrow> (n, d) \<in> offered u"
  using m_find_iff_mem [OF assms] by (force simp: offered_def topic_key_def)

lemma new_channel_run:
  assumes "m_invar (advertised_topics u)" "coherent (ament_index E) (message_definition_cache u)" "readable E (snd k)"
  shows "\<exists>c. new_channel E k acc u =
      (Ok (acc @ (if k \<in> offered u then [] else case channel_for E k of None \<Rightarrow> [] | Some ch \<Rightarrow> [ch])),
       u\<lparr>message_definition_cache := c\<rparr>) \<and> coherent (ament_index E) c"
proof -
  obtain n d where k: "k = (n, d)" by (rule prod.exhaust)
  show ?thesis
  proof (cases "k \<in> offered u")
    case True
    then have "new_channel E k acc u = (Ok acc, u)"
      using offered_known [OF assms(1), of n d] by (simp add: new_channel_def k bind_def gets_def ret_def)
    with True assms(2) show ?thesis by (intro exI [of _ "message_definition_cache u"]) simp
  next
    case False
    obtain r c where r: "get_full_msg_text (ament_index E) (stack_depth E) d (message_definition_cache u) = (r, c)"
      by (rule prod.exhaust)
    have spec: "full_msg_spec (ament_index E) (stack_depth E) d = r" and c: "coherent (ament_index E) c"
      using get_full_msg_text_run [OF assms(2), of "stack_depth E" d] by (simp_all add: r)
    have "new_channel E k acc u =
      (Ok (acc @ (case channel_for E k of None \<Rightarrow> [] | Some ch \<Rightarrow> [ch])), u\<lparr>message_definition_cache := c\<rparr>)"
    proof (cases r)
      case (Ok a)
      then show ?thesis
        using False offered_known [OF assms(1), of n d] spec r
        by (cases a) (simp add: new_channel_def k cpp_defs on_definitions_def channel_for_def)
    next
      case (Throw e)
      then show ?thesis
        using False offered_known [OF assms(1), of n d] spec r assms(3)
        by (cases e) (simp_all add: new_channel_def k cpp_defs on_definitions_def channel_for_def readable_def)
    next
      case (UB w)
      then show ?thesis using assms(3) spec by (simp add: readable_def k)
    qed
    with False c show ?thesis by auto
  qed
qed

definition new_channels :: "ros \<Rightarrow> cobridge \<Rightarrow> (string \<times> string) list \<Rightarrow> channel_without_id list" where
  "new_channels E u ks = List.map_filter (channel_for E) (filter (\<lambda>k. k \<notin> offered u) ks)"

lemma new_channels_run:
  assumes "m_invar (advertised_topics u)" "coherent (ament_index E) (message_definition_cache u)"
    and "\<forall>k \<in> set ks. readable E (snd k)"
  shows "\<exists>c. for_fold ks (new_channel E) acc u = (Ok (acc @ new_channels E u ks), u\<lparr>message_definition_cache := c\<rparr>) \<and>
    coherent (ament_index E) c"
  using assms
proof (induction ks arbitrary: acc u)
  case Nil
  then show ?case
    by (intro exI [of _ "message_definition_cache u"]) (simp add: ret_def new_channels_def map_filter_simps)
next
  case (Cons k ks)
  let ?one = "if k \<in> offered u then [] else case channel_for E k of None \<Rightarrow> [] | Some ch \<Rightarrow> [ch]"
  obtain c where c: "new_channel E k acc u = (Ok (acc @ ?one), u\<lparr>message_definition_cache := c\<rparr>)"
    "coherent (ament_index E) c"
    using new_channel_run [OF Cons.prems(1,2), of k acc] Cons.prems(3) by auto
  let ?u = "u\<lparr>message_definition_cache := c\<rparr>"
  have "new_channels E ?u ks = new_channels E u ks"
    by (simp add: new_channels_def offered_def)
  moreover obtain c' where "for_fold ks (new_channel E) (acc @ ?one) ?u =
      (Ok (acc @ ?one @ new_channels E ?u ks), ?u\<lparr>message_definition_cache := c'\<rparr>)" "coherent (ament_index E) c'"
    using Cons.IH [of ?u "acc @ ?one"] Cons.prems c(2) by auto
  moreover have "new_channels E u (k # ks) = ?one @ new_channels E u ks"
    by (simp add: new_channels_def map_filter_simps split: option.split)
  ultimately show ?case
    using c(1) by (simp add: bind_def) blast
qed

lemma new_channels_keys:
  assumes "distinct ks"
  shows "topic_key ` set (new_channels E u ks) = {k \<in> set ks. k \<notin> offered u \<and> channel_for E k \<noteq> None}"
    "length (new_channels E u ks) \<le> length ks"
proof -
  have "topic_key ` set (List.map_filter (channel_for E) xs) = {k \<in> set xs. channel_for E k \<noteq> None}" for xs
    using channel_for_key by (induction xs) (auto simp: map_filter_simps split: option.split)
  then show "topic_key ` set (new_channels E u ks) = {k \<in> set ks. k \<notin> offered u \<and> channel_for E k \<noteq> None}"
    by (auto simp: new_channels_def)
  have "length (List.map_filter f xs) \<le> length xs" for f :: "string \<times> string \<Rightarrow> channel_without_id option" and xs
    by (induction xs) (auto simp: map_filter_simps split: option.split)
  then show "length (new_channels E u ks) \<le> length ks"
    unfolding new_channels_def by (meson le_trans length_filter_le)
qed

text \<open>Removing the channels whose topic is gone leaves the others under their identifiers.\<close>

lemma gone_channels_find:
  assumes "m_invar (advertised_topics s)"
  shows "m_find (fold m_erase (gone_channels L s) (advertised_topics s)) i =
    (case m_find (advertised_topics s) i of
       Some ch \<Rightarrow> if topic_key ch \<in> set L then Some ch else None
     | None \<Rightarrow> None)"
proof -
  have "i \<in> set (gone_channels L s) \<longleftrightarrow> (\<exists>ch. m_find (advertised_topics s) i = Some ch \<and> topic_key ch \<notin> set L)"
    using m_find_iff_mem [OF assms, of i] by (force simp: gone_channels_def topic_key_def)
  then show ?thesis by (auto simp: find_fold_erase split: option.split)
qed

lemma remove_channels_members:
  fixes s :: cobridge
  shows "\<exists>t. remove_channels ids s = (Ok (), t) \<and> channels t = fold m_erase ids (channels s) \<and>
    next_channel_id t = next_channel_id s \<and> advertised_topics t = advertised_topics s \<and>
    message_definition_cache t = message_definition_cache s"
proof (cases "ids = []")
  case True
  then show ?thesis by (simp add: remove_channels_def ret_def)
next
  case False
  then show ?thesis using remove_channels_run [OF False, of s] by auto
qed

lemma find_zip_new:
  assumes "unat n + length chs < 2 ^ 32"
  shows "map_of (zip (new_ids n chs) chs) i = Some ch \<longleftrightarrow> (i, ch) \<in> set (zip (new_ids n chs) chs)"
  using distinct_new_ids [OF assms] by simp

lemma snd_zip_new: "snd ` set (zip (new_ids n chs) chs) = set chs"
  by (metis length_new_ids map_snd_zip set_map)

text \<open>What the table of the topics satisfies between two updates.\<close>

definition topic_inv :: "ros \<Rightarrow> cobridge \<Rightarrow> bool" where
  "topic_inv E s = (m_invar (advertised_topics s) \<and> link_channels s \<and>
     ids_used (next_channel_id s) (channels s) \<and> coherent (ament_index E) (message_definition_cache s))"

lemma m_invar_fold_emplace: "m_invar m \<Longrightarrow> m_invar (fold (\<lambda>(k, v). m_emplace k v) es m)"
  by (induction es arbitrary: m) auto

text \<open>Adding channels under fresh identifiers.\<close>

lemma offered_emplace:
  assumes t: "advertised_topics t = fold (\<lambda>(i, ch). m_emplace i ch) z (advertised_topics u)"
    and z: "\<And>i ch. map_of z i = Some ch \<longleftrightarrow> (i, ch) \<in> set z"
    and fresh: "\<And>i ch. (i, ch) \<in> set z \<Longrightarrow> m_find (advertised_topics u) i = None"
  shows "offered t = offered u \<union> topic_key ` snd ` set z"
proof (intro equalityI subsetI)
  have find: "m_find (advertised_topics t) i = (case m_find (advertised_topics u) i of Some ch \<Rightarrow> Some ch | None \<Rightarrow> map_of z i)" for i
    by (simp add: t m_find_fold_emplace)
  {
    fix k
    assume "k \<in> offered t"
    then obtain i ch where "k = topic_key ch" "m_find (advertised_topics t) i = Some ch"
      by (auto simp: offered_def)
    then show "k \<in> offered u \<union> topic_key ` snd ` set z"
      by (cases "m_find (advertised_topics u) i") (force simp: find z offered_def)+
  next
    fix k
    assume "k \<in> offered u \<union> topic_key ` snd ` set z"
    then have "\<exists>i ch. k = topic_key ch \<and> (m_find (advertised_topics u) i = Some ch \<or> (i, ch) \<in> set z)"
      by (auto simp: offered_def) blast
    then obtain i ch where "k = topic_key ch" "m_find (advertised_topics u) i = Some ch \<or> (i, ch) \<in> set z"
      by (elim exE conjE)
    moreover from this have "m_find (advertised_topics t) i = Some ch"
      using fresh z by (auto simp: find)
    ultimately show "k \<in> offered t" unfolding offered_def by blast
  }
qed

lemma topic_inv_emplace:
  assumes inv: "topic_inv E u" and fits: "unat (next_channel_id u) + length chs < 2 ^ 32"
    and z: "z = zip (new_ids (next_channel_id u) chs) chs"
    and t: "advertised_topics t = fold (\<lambda>(i, ch). m_emplace i ch) z (advertised_topics u)"
      "channels t = fold (\<lambda>(i, ch). m_emplace i (Channel i ch)) z (channels u)"
      "next_channel_id t = next_channel_id u + word_of_nat (length chs)"
      "message_definition_cache t = message_definition_cache u"
  shows "topic_inv E t"
  unfolding topic_inv_def
proof (intro conjI)
  show "m_invar (advertised_topics t)" "coherent (ament_index E) (message_definition_cache t)"
    using inv by (simp_all add: topic_inv_def t m_invar_fold_emplace)
  show "link_channels t"
    using inv by (simp add: topic_inv_def link_channels_def t find_fold_emplace_Channel m_find_fold_emplace split: option.split)
  show "ids_used (next_channel_id t) (channels t)"
    unfolding ids_used_def
  proof
    fix i
    assume "i \<in> set (m_keys (channels t))"
    then have "m_find (channels u) i \<noteq> None \<or> (\<exists>ch. (i, ch) \<in> set z)"
      using m_find_None_iff [of "channels t" i] by (auto simp: t find_fold_emplace_Channel split: option.splits dest: map_of_SomeD)
    then have "i \<in> set (m_keys (channels u)) \<or> i \<in> set (new_ids (next_channel_id u) chs)"
      unfolding z by (metis m_find_None_iff set_zip_leftD)
    then have "unat i \<le> unat (next_channel_id u) + length chs"
      using inv new_ids_range [OF fits] by (force simp: topic_inv_def ids_used_def)
    then show "unat i \<le> unat (next_channel_id t)"
      using fits by (simp add: t unat_word_ariths unat_of_nat take_bit_eq_mod)
  qed
qed

lemma topic_inv_erase:
  assumes "topic_inv E s" "channels u = fold m_erase ids (channels s)" "next_channel_id u = next_channel_id s"
    "advertised_topics u = fold m_erase ids (advertised_topics s)"
    "message_definition_cache u = message_definition_cache s"
  shows "topic_inv E u"
proof -
  have "m_invar (fold m_erase ids m)" if "m_invar m" for m :: "(uint32_t \<times> channel_without_id) list"
    using that by (induction ids arbitrary: m) auto
  moreover have "set (m_keys (fold m_erase ids (channels s))) \<subseteq> set (m_keys (channels s))"
    by (auto simp: fold_m_erase m_keys_def)
  ultimately show ?thesis
    using assms by (auto simp: topic_inv_def link_channels_def ids_used_def find_fold_erase)
qed

lemma add_topics_run:
  assumes inv: "topic_inv E u" and fits: "unat (next_channel_id u) + length chs < 2 ^ 32"
  shows "\<exists>t. bind (add_channels chs) (\<lambda>channel_ids. modify (\<lambda>s. s\<lparr>advertised_topics :=
      fold (\<lambda>(i, ch). m_emplace i ch) (zip channel_ids chs) (advertised_topics s)\<rparr>)) u = (Ok (), t) \<and>
    topic_inv E t \<and> offered t = offered u \<union> topic_key ` set chs \<and>
    (\<forall>i ch. m_find (advertised_topics u) i = Some ch \<longrightarrow> m_find (advertised_topics t) i = Some ch)"
proof -
  define n where "n = next_channel_id u"
  define z where "z = zip (new_ids n chs) chs"
  obtain ob where run: "add_channels chs u = (Ok (new_ids n chs), u\<lparr>next_channel_id := n + word_of_nat (length chs),
      channels := fold (\<lambda>(i, ch). m_emplace i (Channel i ch)) z (channels u), outbox := ob\<rparr>)"
    using add_channels_any [of chs u] unfolding z_def n_def by blast
  define t where "t = u\<lparr>next_channel_id := n + word_of_nat (length chs),
      channels := fold (\<lambda>(i, ch). m_emplace i (Channel i ch)) z (channels u), outbox := ob,
      advertised_topics := fold (\<lambda>(i, ch). m_emplace i ch) z (advertised_topics u)\<rparr>"
  have t: "advertised_topics t = fold (\<lambda>(i, ch). m_emplace i ch) z (advertised_topics u)"
    by (simp add: t_def)
  have "m_find (advertised_topics u) i = None" if "(i, ch) \<in> set z" for i ch
  proof -
    have "unat n < unat i"
      using new_ids_range [of n chs i] that fits by (auto simp: n_def z_def dest: set_zip_leftD)
    then have "m_find (channels u) i = None"
      using inv by (force simp: topic_inv_def ids_used_def n_def m_find_None_iff)
    then show ?thesis
      using inv by (simp add: topic_inv_def link_channels_def)
  qed
  moreover have "map_of z i = Some ch \<longleftrightarrow> (i, ch) \<in> set z" for i ch
    unfolding z_def using fits by (intro find_zip_new) (simp add: n_def)
  ultimately have "offered t = offered u \<union> topic_key ` set chs"
    using offered_emplace [OF t] by (simp add: z_def snd_zip_new)
  moreover have "topic_inv E t"
    using inv fits by (rule topic_inv_emplace) (simp_all add: t_def z_def n_def)
  moreover have "bind (add_channels chs) (\<lambda>channel_ids. modify (\<lambda>s. s\<lparr>advertised_topics :=
      fold (\<lambda>(i, ch). m_emplace i ch) (zip channel_ids chs) (advertised_topics s)\<rparr>)) u = (Ok (), t)"
    by (simp add: bind_def modify_def run t_def z_def)
  moreover have "\<forall>i ch. m_find (advertised_topics u) i = Some ch \<longrightarrow> m_find (advertised_topics t) i = Some ch"
    by (simp add: t m_find_fold_emplace)
  ultimately show ?thesis by (intro exI conjI)
qed

text \<open>C3: An update of the topics makes the bridge offer exactly the topics of the ROS graph that are
  whitelisted and not hidden, each with each of its types, as long as their definition can be read or is
  missing; a topic that stays keeps its channel.  The state is again one in which the update works.\<close>

theorem advertised_topics_exact:
  assumes inv: "topic_inv E s" and up: "ros_ok E"
    and ts: "\<forall>(n, ds) \<in> set ts. n \<noteq> [] \<and> (\<forall>d \<in> set ds. readable E d)"
    and fits: "unat (next_channel_id s) + card (visible s ts) < 2 ^ 32"
  shows "\<exists>t. update_advertised_topics E ts s = (Ok (), t) \<and> topic_inv E t \<and>
    offered t = {k \<in> visible s ts. k \<in> offered s \<or> channel_for E k \<noteq> None} \<and>
    (\<forall>i ch. m_find (advertised_topics s) i = Some ch \<longrightarrow> topic_key ch \<in> visible s ts \<longrightarrow>
      m_find (advertised_topics t) i = Some ch)"
proof -
  obtain L where L: "for_fold ts latest_topic [] s = (Ok L, s)" "set L = visible s ts" "distinct L"
    using latest_topics_run [of ts "[]" s] ts by fastforce
  define ids where "ids = gone_channels L s"
  define s' where "s' = s\<lparr>subscriptions := fold m_erase ids (subscriptions s),
    advertised_topics := fold m_erase ids (advertised_topics s)\<rparr>"
  obtain u where u: "remove_channels ids s' = (Ok (), u)" "channels u = fold m_erase ids (channels s)"
    "next_channel_id u = next_channel_id s" "advertised_topics u = fold m_erase ids (advertised_topics s)"
    "message_definition_cache u = message_definition_cache s"
    using remove_channels_members [of ids s'] by (auto simp: s'_def)
  have inv': "m_invar (advertised_topics s)" using inv by (simp add: topic_inv_def)
  have find: "m_find (advertised_topics u) i = Some ch \<longleftrightarrow>
      m_find (advertised_topics s) i = Some ch \<and> topic_key ch \<in> visible s ts" for i ch
    using gone_channels_find [OF inv', of L i] unfolding L(2)
    by (cases "m_find (advertised_topics s) i") (auto simp: u ids_def)
  have u_inv: "topic_inv E u"
    using inv by (rule topic_inv_erase) (rule u)+
  have offered_u: "offered u = offered s \<inter> visible s ts"
    unfolding offered_def find by blast
  have readable: "\<forall>k \<in> set L. readable E (snd k)"
    unfolding L(2) visible_def using ts by fastforce
  define chs where "chs = new_channels E u L"
  obtain c where c: "for_fold L (new_channel E) [] u = (Ok chs, u\<lparr>message_definition_cache := c\<rparr>)" "coherent (ament_index E) c"
    using new_channels_run [of u E L "[]"] u_inv readable unfolding topic_inv_def chs_def append_Nil by blast
  have v_inv: "topic_inv E (u\<lparr>message_definition_cache := c\<rparr>)"
    using u_inv c(2) by (simp add: topic_inv_def link_channels_def)
  have "length chs \<le> card (visible s ts)"
    using new_channels_keys(2) [OF L(3), of E u] distinct_card [OF L(3)] L(2) by (simp add: chs_def)
  then obtain t where t: "bind (add_channels chs) (\<lambda>channel_ids. modify (\<lambda>s. s\<lparr>advertised_topics :=
      fold (\<lambda>(i, ch). m_emplace i ch) (zip channel_ids chs) (advertised_topics s)\<rparr>)) (u\<lparr>message_definition_cache := c\<rparr>) = (Ok (), t)"
    "topic_inv E t" "offered t = offered u \<union> topic_key ` set chs"
    "\<And>i ch. m_find (advertised_topics u) i = Some ch \<Longrightarrow> m_find (advertised_topics t) i = Some ch"
    using add_topics_run [OF v_inv, of chs] fits by (auto simp: u offered_def)
  have "offered t = {k \<in> visible s ts. k \<in> offered s \<or> channel_for E k \<noteq> None}"
    using t(3) new_channels_keys(1) [OF L(3), of E u] L(2) by (auto simp: chs_def offered_u)
  moreover have "update_advertised_topics E ts s = (Ok (), t)"
    using L(1) u(1) c(1) t(1) up
    by (simp add: update_advertised_topics_def bind_def [of "for_fold ts latest_topic []"] bind_def [of "gets (gone_channels L)"]
        bind_def [of "for_fold L (new_channel E) []"] seq_def bind_def [of "modify f" for f] bind_def [of "remove_channels ids"]
        gets_def modify_def ids_def [symmetric] s'_def)
  moreover have "\<forall>i ch. m_find (advertised_topics s) i = Some ch \<longrightarrow> topic_key ch \<in> visible s ts \<longrightarrow>
      m_find (advertised_topics t) i = Some ch"
    by (intro allI impI, rule t(4)) (simp add: find)
  ultimately show ?thesis
    using t(2) by (intro exI conjI)
qed

theorem advertised_topics_exact_witness:
  "\<exists>t. update_advertised_topics demo_ros [(''/t'', [''p/msg/T'']), (''/_hidden'', [''p/msg/T''])] (CoBridge demo_regex demo_config) = (Ok (), t) \<and>
     offered t = {(''/t'', ''p/msg/T'')}"
proof -
  let ?s = "CoBridge demo_regex demo_config"
  let ?ts = "[(''/t'', [''p/msg/T'']), (''/_hidden'', [''p/msg/T''])]"
  have inv: "topic_inv demo_ros ?s"
    by (simp add: topic_inv_def CoBridge_def server.defs Server_def m_invar_def m_keys_def link_channels_def ids_used_def coherent_Nil)
  have up: "ros_ok demo_ros" by (simp add: demo_ros_def)
  have spec: "readable demo_ros ''p/msg/T''" "channel_for demo_ros (''/t'', ''p/msg/T'') \<noteq> None"
    by code_simp+
  then have ts: "\<forall>(n, ds) \<in> set ?ts. n \<noteq> [] \<and> (\<forall>d \<in> set ds. readable demo_ros d)"
    by simp
  have hidden: "is_hidden_topic_or_service ''/t'' = Ok False" "is_hidden_topic_or_service ''/_hidden'' = Ok True"
    by code_simp+
  have vis: "visible ?s ?ts = {(''/t'', ''p/msg/T'')}"
    by (auto simp: visible_def hidden CoBridge_def server.defs demo_config_def demo_regex_def parse_regex_strings_def
        is_whitelisted_def map_filter_simps)
  have fits: "unat (next_channel_id ?s) + card (visible ?s ?ts) < 2 ^ 32"
    unfolding vis by (simp add: CoBridge_def server.defs Server_def)
  obtain t where "update_advertised_topics demo_ros ?ts ?s = (Ok (), t)"
    "offered t = {k \<in> visible ?s ?ts. k \<in> offered ?s \<or> channel_for demo_ros k \<noteq> None}"
    using advertised_topics_exact [OF inv up ts fits] by (elim exE conjE)
  moreover from this(2) have "offered t = {(''/t'', ''p/msg/T'')}"
    using spec(2) unfolding vis by auto
  ultimately show ?thesis by (intro exI conjI)
qed

section \<open>Requests the code does not expect\<close>

text \<open>A connection on which no login was sent.\<close>

definition demo_accept :: bridge_event where
  "demo_accept = Transport demo_ros (Accepted 0 \<lparr>con_open = True, remote_endpoint = ''10.0.0.2:5'',
     requested_subprotocols = [], selected_subprotocol = None\<rparr>)"

text \<open>
  Its advertisement makes a ROS publisher before the client is looked up; the publisher stays when the
  connection is closed, since the client was never recorded.
\<close>

lemma publisher_without_login_leaks:
  "case bridge_runs demo_parse [demo_accept, Transport demo_ros (Received 0 0 (TextMessage ''advertise'')),
       Transport demo_ros (Lost 0), Transport demo_ros (Closed 0)] (CoBridge demo_regex demo_config) of
     Some s \<Rightarrow> ros_publisher_of s 0 5 \<noteq> None \<and> m_keys (clients s) = [] \<and> m_keys (conns s) = []
   | None \<Rightarrow> False"
  by code_simp

definition param_parse :: "string \<Rightarrow> json outcome" where
  "param_parse text =
     (if text = ''subscribe'' then Ok (jobject [(''op'', JStr ''subscribeParameterUpdates''), (''parameterNames'', JArr [JStr ''/n.a''])])
      else if text = ''unsubscribe'' then Ok (jobject [(''op'', JStr ''unsubscribeParameterUpdates''), (''parameterNames'', JArr [JStr ''/n.b''])])
      else Ok (jobject [(''op'', JStr ''setParameters''), (''parameters'', JArr [jobject [(''name'', JStr ''/n.a''), (''value'', JArr [])]])]))"

definition param_config :: bridge_config where
  "param_config = demo_config\<lparr>cfg_capabilities := [''parameters'', ''parametersSubscribe''], cfg_param_whitelist := [''.*'']\<rparr>"

text \<open>
  Two requests that end in undefined behaviour: to unsubscribe from a parameter that is not watched, of a node of
  which another one is, and to set a parameter to an empty array.
\<close>

lemma unsubscribe_request_undefined:
  "case bridge_runs param_parse [demo_accept, Transport demo_ros (Received 0 0 (TextMessage ''subscribe'')),
       Transport demo_ros (Received 0 0 (TextMessage ''unsubscribe''))] (CoBridge demo_regex param_config) of
     Some s \<Rightarrow> False
   | None \<Rightarrow> True"
  by code_simp

lemma empty_array_request_undefined:
  "case bridge_runs param_parse [demo_accept, Transport demo_ros (Received 0 0 (TextMessage ''set''))]
      (CoBridge demo_regex param_config) of
     Some s \<Rightarrow> False
   | None \<Rightarrow> True"
  by code_simp

end
