(* ===== verification/Ros1_Params.thy ===== *)
theory Ros1_Params
  imports Serialization Server_State
begin

text \<open>
  The parameters of ROS 1 (\<open>ros1_bridge/src/param_utils.cpp\<close>): the conversions between
  \<open>XmlRpcValue\<close> and \<open>ParameterValue\<close> and the reading of the allow lists.
\<close>

section \<open>Values\<close>

text \<open>\<open>XmlRpc::XmlRpcValue\<close>; the members of a struct are a \<open>std::map\<close>, in the order of their names.\<close>

datatype xml_rpc =
    XInvalid
  | XBoolean bool
  | XInt "32 word"
  | XDouble double
  | XString string
  | XDateTime string
  | XBase64 bytes
  | XArray "xml_rpc list"
  | XStruct "(string \<times> xml_rpc) list"

fun fromRosParam :: "xml_rpc \<Rightarrow> parameter_value outcome" where
  "fromRosParam (XBoolean b) = Ok (PBool b)"
| "fromRosParam (XInt i) = Ok (PInteger (scast i))"
| "fromRosParam (XDouble d) = Ok (PDouble d)"
| "fromRosParam (XString s) = Ok (PString s)"
| "fromRosParam (XStruct m) =
     obind (omap (\<lambda>(k, x). obind (fromRosParam x) (\<lambda>v. Ok (k, v))) m) (\<lambda>kvs. Ok (PStruct kvs))"
| "fromRosParam (XArray xs) = obind (omap fromRosParam xs) (\<lambda>vs. Ok (PArray vs))"
| "fromRosParam XInvalid = Throw (StdException ''Parameter not set'')"
| "fromRosParam (XDateTime _) = Throw (StdException ''Unsupported parameter type: 5'')"
| "fromRosParam (XBase64 _) = Throw (StdException ''Unsupported parameter type: 6'')"

definition from_xml_param :: "string \<Rightarrow> xml_rpc \<Rightarrow> parameter outcome" where
  "from_xml_param name x = obind (fromRosParam x) (\<lambda>v. Ok \<lparr>p_name = name, p_value = v\<rparr>)"

text \<open>
  An \<open>XmlRpcValue\<close> becomes an array or a struct with the first element assigned, so that an empty
  one stays invalid.  \<open>static_cast<int>\<close> keeps the lower 32 bits.
\<close>

fun to_xml_param :: "parameter_value \<Rightarrow> xml_rpc outcome" where
  "to_xml_param (PBool b) = Ok (XBoolean b)"
| "to_xml_param (PInteger i) = Ok (XInt (ucast i))"
| "to_xml_param (PDouble d) = Ok (XDouble d)"
| "to_xml_param (PString s) = Ok (XString s)"
| "to_xml_param (PStruct m) =
     obind (omap (\<lambda>(k, v). obind (to_xml_param v) (\<lambda>x. Ok (k, x))) m)
       (\<lambda>kxs. Ok (if kxs = [] then XInvalid else XStruct (fold (\<lambda>(k, x). jo_assign k x) kxs [])))"
| "to_xml_param (PArray vs) =
     obind (omap to_xml_param vs) (\<lambda>xs. Ok (if xs = [] then XInvalid else XArray xs))"
| "to_xml_param PNotSet = Throw (StdException ''Unsupported parameter type'')"
| "to_xml_param (PByteArray _) = Throw (StdException ''Unsupported parameter type'')"

section \<open>Allow lists\<close>

text \<open>When no expression compiles, \<open>".*"\<close> is used.\<close>

definition parse_regex_patterns :: "(string \<Rightarrow> regex option) \<Rightarrow> string list \<Rightarrow> regex list" where
  "parse_regex_patterns regex patterns =
     (let result = List.map_filter regex patterns in
      if result = [] then List.map_filter regex [''.*''] else result)"

section \<open>What the conversions keep\<close>

text \<open>The values whose reading can be written back: no empty array or struct.\<close>

fun xml_value :: "xml_rpc \<Rightarrow> bool" where
  "xml_value (XArray xs) = (xs \<noteq> [] \<and> (\<forall>x \<in> set xs. xml_value x))"
| "xml_value (XStruct m) = (m \<noteq> [] \<and> jo_invar m \<and> (\<forall>(k, x) \<in> set m. xml_value x))"
| "xml_value _ = True"

lemma omap_inverse:
  "omap f xs = Ok ys \<Longrightarrow> \<forall>x \<in> set xs. \<forall>y. f x = Ok y \<longrightarrow> g y = Ok x \<Longrightarrow> omap g ys = Ok xs"
  by (induction xs arbitrary: ys) (auto simp: obind_eq_Ok)

lemma fold_jo_assign_sorted:
  "jo_invar (n @ m) \<Longrightarrow> fold (\<lambda>(k, v). jo_assign k v) m n = n @ m"
proof (induction m arbitrary: n)
  case (Cons kv m)
  obtain k v where kv: "kv = (k, v)" by (cases kv)
  have "\<forall>x \<in> set (m_keys n). str_less x k"
    using Cons.prems by (auto simp: jo_invar_def m_keys_def kv sorted_wrt_append)
  then have "jo_assign k v n = n @ [(k, v)]"
    by (rule jo_assign_last)
  with Cons.IH [of "n @ [(k, v)]"] Cons.prems show ?case
    by (simp add: kv)
qed simp

lemma int_roundtrip: "ucast (scast (i :: 32 word) :: int64_t) = i"
  by (rule bit_word_eqI) (simp add: bit_unsigned_iff bit_signed_iff)

text \<open>A parameter of ROS 1 that is reported to a client can be sent back unchanged, except for an empty array or
  struct, which becomes an invalid value.\<close>

lemma xml_parameter_roundtrip:
  assumes "from_xml_param name x = Ok p" "xml_value x"
  shows "p_name p = name \<and> to_xml_param (p_value p) = Ok x"
proof -
  have "fromRosParam x = Ok v \<Longrightarrow> xml_value x \<Longrightarrow> to_xml_param v = Ok x" for v
  proof (induction x arbitrary: v rule: fromRosParam.induct)
    case (5 m)
    then obtain kvs where run: "omap (\<lambda>(k, x). obind (fromRosParam x) (\<lambda>v. Ok (k, v))) m = Ok kvs" "v = PStruct kvs"
      by (auto simp: obind_eq_Ok)
    have "omap (\<lambda>(k, v). obind (to_xml_param v) (\<lambda>x. Ok (k, x))) kvs = Ok m"
      by (rule omap_inverse [OF run(1)]) (use 5 in \<open>fastforce simp: obind_eq_Ok\<close>)
    with run(2) 5(3) show ?case
      by (simp add: fold_jo_assign_sorted [of "[]", simplified])
  next
    case (6 xs)
    then obtain vs where run: "omap fromRosParam xs = Ok vs" "v = PArray vs"
      by (auto simp: obind_eq_Ok)
    have "omap to_xml_param vs = Ok xs"
      by (rule omap_inverse [OF run(1)]) (use 6 in auto)
    with run(2) 6(3) show ?case by simp
  qed (auto simp: int_roundtrip)
  with assms show ?thesis
    by (auto simp: from_xml_param_def obind_eq_Ok)
qed

lemma xml_parameter_roundtrip_witness:
  "from_xml_param ''/gain'' (XStruct [(''d'', XArray [XInt (- 1), XDouble 0]), (''p'', XString ''x'')]) =
     Ok \<lparr>p_name = ''/gain'', p_value = PStruct [(''d'', PArray [PInteger (- 1), PDouble 0]), (''p'', PString ''x'')]\<rparr> \<and>
   to_xml_param (PStruct [(''d'', PArray [PInteger (- 1), PDouble 0]), (''p'', PString ''x'')]) =
     Ok (XStruct [(''d'', XArray [XInt (- 1), XDouble 0]), (''p'', XString ''x'')])"
proof -
  have red: "from_xml_param ''/gain'' (XStruct [(''d'', XArray [XInt (- 1), XDouble 0]), (''p'', XString ''x'')]) =
     Ok \<lparr>p_name = ''/gain'', p_value = PStruct [(''d'', PArray [PInteger (- 1), PDouble 0]), (''p'', PString ''x'')]\<rparr>"
    by code_simp
  moreover have "xml_value (XStruct [(''d'', XArray [XInt (- 1), XDouble 0]), (''p'', XString ''x'')])"
    by code_simp
  ultimately show ?thesis using xml_parameter_roundtrip [OF red] by simp
qed

text \<open>A client that sets an integer of more than 32 bits changes its value, and an empty array is not kept.\<close>

lemma long_integer_truncated: "to_xml_param (PInteger 4294967297) = Ok (XInt 1)"
  by code_simp

lemma empty_array_invalid: "to_xml_param (PArray []) = Ok XInvalid"
  by simp

text \<open>Allow lists fail open: a list without a valid expression, an empty one included, allows what \<open>".*"\<close>
  allows; a list with one allows exactly the names that one of its valid expressions matches.\<close>

lemma allow_list_fails_open:
  "is_whitelisted name (parse_regex_patterns regex patterns) \<longleftrightarrow>
     (if \<forall>p \<in> set patterns. regex p = None then \<exists>r. regex ''.*'' = Some r \<and> r name
      else \<exists>p \<in> set patterns. \<exists>r. regex p = Some r \<and> r name)"
proof -
  have filter: "List.map_filter regex ps = [] \<longleftrightarrow> (\<forall>p \<in> set ps. regex p = None)"
    "set (List.map_filter regex ps) = {r. \<exists>p \<in> set ps. regex p = Some r}" for ps
    by (induction ps) (auto simp: List.map_filter_simps split: option.splits)
  show ?thesis
    unfolding parse_regex_patterns_def Let_def is_whitelisted_def filter(1)
    by (simp only: filter(2) if_distrib [of set] split: if_split) auto
qed

end
