(* ===== verification/Ros1_Bridge.thy ===== *)
theory Ros1_Bridge
  imports Server_Invariant Ros1_Params Callback_Queue
begin

text \<open>
  The ROS 1 bridge (\<open>ros1_bridge_nodelet.cpp\<close>): the nodelet \<open>CoBridge\<close> advertises the topics and
  services of the ROS master on the server and serves the requests of the clients.  Its members extend the
  state of the server.  The ROS master, the other nodes, the provider of message descriptions and the
  resource retriever are the argument \<open>N\<close>; the calls that change the parameter server, the messages published
  and the timer are recorded in the state.
\<close>

section \<open>The ROS 1 environment\<close>

record message_description =
  msg_md5 :: string
  message_definition :: string

record service_description =
  srv_md5 :: string
  request_definition :: string
  response_definition :: string

record system_state =
  state_publishers :: map_of_sets
  state_subscribers :: map_of_sets
  state_services :: map_of_sets

text \<open>What happens to the probe of a service: no link, no connection, no header in time, or a header with or without
  a type.\<close>

datatype service_probe = NoLink | NoConnection | NoHeader | ProbeHeader "string option"

record advertise_options =
  ao_datatype :: string
  ao_md5sum :: string
  ao_message_definition :: string
  ao_queue_size :: uint32_t
  ao_topic :: string

datatype param_call = SetParam string xml_rpc | DeleteParam string

text \<open>
  A call that gives \<open>Inl\<close> throws a \<open>std::exception\<close> with that text.  \<open>getParam\<close> depends on the calls that
  changed the parameter server so far; it gives \<open>XInvalid\<close> for a parameter that is not set.
\<close>

record ros1 =
  ros1_ok :: bool
  getTopics :: "(string \<times> string) list option"
  getSystemState :: "system_state option"
  getMessageDescription :: "string \<Rightarrow> string + message_description option"
  getServiceDescription :: "string \<Rightarrow> string + service_description option"
  createServiceServerLink :: "string \<Rightarrow> service_probe"
  ros1_subscribe :: "string \<Rightarrow> string + unit"
  ros1_advertise :: "advertise_options \<Rightarrow> string + bool"
  ros1_publish :: "advertise_options \<Rightarrow> bytes \<Rightarrow> string + unit"
  getParamNames :: "string list option"
  getParam :: "param_call list \<Rightarrow> string \<Rightarrow> xml_rpc"
  setParam :: "param_call \<Rightarrow> string + unit"
  names_resolve :: "string \<Rightarrow> string + string"
  names_clean :: "string \<Rightarrow> string"
  master_param :: "bool \<Rightarrow> string \<Rightarrow> bool"
  service_exists :: "string \<Rightarrow> bool"
  service_call :: "string \<Rightarrow> string \<Rightarrow> string \<Rightarrow> bytes \<Rightarrow> bytes option"
  retriever_get :: "string \<Rightarrow> string + bytes"

section \<open>State\<close>

record cobridge1 = server +
  topic_patterns :: "regex list"
  param_patterns :: "regex list"
  service_patterns :: "regex list"
  asset_uri_patterns :: "regex list"
  topics1 :: "(uint32_t \<times> channel_without_id) list"
  subscriptions1 :: "(uint32_t \<times> (hdl \<times> string) list) list"
  services1 :: "(uint32_t \<times> service_without_id) list"
  client_topics1 :: "(hdl \<times> (uint32_t \<times> advertise_options) list) list"
  max_update_ms :: uint64_t
  update_count :: uint64_t
  sim_time1 :: bool
  capabilities1 :: "string list"
  graph_updates1 :: bool
  asset_queue1 :: "(string \<times> uint32_t \<times> hdl) callback_queue"
  param_calls :: "param_call list"
  published1 :: "(advertise_options \<times> bytes) list"
  update_timer :: "uint64_t option"

definition ROS1_CHANNEL_ENCODING :: string where
  "ROS1_CHANNEL_ENCODING = ''ros1''"

definition has_capability1 :: "string \<Rightarrow> cobridge1 \<Rightarrow> bool" where
  "has_capability1 capability s = (capability \<in> set (capabilities1 s))"

section \<open>Subscriptions\<close>

text \<open>A subscription is the topic it is on.  The entry of the channel is made before the subscription.\<close>

definition subscribe1 :: "ros1 \<Rightarrow> uint32_t \<Rightarrow> hdl \<Rightarrow> (cobridge1, unit) cpp" where
  "subscribe1 N chan_id client_handle =
     bind (gets (\<lambda>s. m_find (topics1 s) chan_id)) (\<lambda>it.
     case it of
       None \<Rightarrow> throw (ChannelError chan_id
                 (''Received subscribe request for unknown channel '' @ to_string (unat chan_id)))
     | Some channel \<Rightarrow>
         bind (gets (\<lambda>s. m_find (subscriptions1 s) chan_id)) (\<lambda>before.
         seq (modify (\<lambda>s. s\<lparr>subscriptions1 := m_emplace chan_id [] (subscriptions1 s)\<rparr>)) (
         if (case before of Some subs \<Rightarrow> m_contains subs client_handle | None \<Rightarrow> False)
         then throw (ChannelError chan_id
                (''Client is already subscribed to channel '' @ to_string (unat chan_id)))
         else
           catch_std
             (seq (lift (rcl (ros1_subscribe N (topic channel))))
               (modify (\<lambda>s. s\<lparr>subscriptions1 := m_assign chan_id
                  (m_emplace client_handle (topic channel)
                    (case m_find (subscriptions1 s) chan_id of Some subs \<Rightarrow> subs | None \<Rightarrow> []))
                  (subscriptions1 s)\<rparr>)))
             (\<lambda>what. throw (ChannelError chan_id
                (''Failed to subscribe to topic '' @ quoted (topic channel) @ '' ('' @ schema_name channel @ ''): '' @ what))))))"

definition unsubscribe1 :: "uint32_t \<Rightarrow> hdl \<Rightarrow> (cobridge1, unit) cpp" where
  "unsubscribe1 chan_id client_handle =
     bind (gets (\<lambda>s. m_contains (topics1 s) chan_id)) (\<lambda>known.
     if \<not> known
     then throw (ChannelError chan_id
            (''Received unsubscribe request for unknown channel '' @ to_string (unat chan_id)))
     else
       bind (gets (\<lambda>s. m_find (subscriptions1 s) chan_id)) (\<lambda>it.
       case it of
         None \<Rightarrow> throw (ChannelError chan_id
                   (''Received unsubscribe request for channel '' @ to_string (unat chan_id) @
                    '' that was not subscribed to ''))
       | Some subs \<Rightarrow>
           if \<not> m_contains subs client_handle
           then throw (ChannelError chan_id
                  (''Received unsubscribe request for channel '' @ to_string (unat chan_id) @
                   ''from a client that was not subscribed to this channel''))
           else
             modify (\<lambda>s. s\<lparr>subscriptions1 :=
               (if m_erase client_handle subs = [] then m_erase chan_id (subscriptions1 s)
                else m_assign chan_id (m_erase client_handle subs) (subscriptions1 s))\<rparr>)))"

section \<open>Client publications\<close>

definition publications1 :: "hdl \<Rightarrow> cobridge1 \<Rightarrow> (uint32_t \<times> advertise_options) list" where
  "publications1 h s = (case m_find (client_topics1 s) h of Some pubs \<Rightarrow> pubs | None \<Rightarrow> [])"

definition advertise_options_for :: "client_advertisement \<Rightarrow> message_description \<Rightarrow> advertise_options" where
  "advertise_options_for adv d =
     \<lparr>ao_datatype = adv_schema_name adv, ao_md5sum = msg_md5 d, ao_message_definition = message_definition d,
      ao_queue_size = 10, ao_topic = adv_topic adv\<rparr>"

definition client_advertise1 :: "ros1 \<Rightarrow> client_advertisement \<Rightarrow> hdl \<Rightarrow> (cobridge1, unit) cpp" where
  "client_advertise1 N adv h =
     (if adv_encoding adv \<noteq> ROS1_CHANNEL_ENCODING
      then throw (ClientChannelError (channel_id adv)
             (''Unsupported encoding. Only '' @ quoted ROS1_CHANNEL_ENCODING @
              '' encoding is supported at the moment.''))
      else
        seq (modify (\<lambda>s. s\<lparr>client_topics1 := m_emplace h [] (client_topics1 s)\<rparr>)) (
        bind (gets (publications1 h)) (\<lambda>pubs.
        if m_contains pubs (channel_id adv)
        then bind (gets (remote_endpoint_string h)) (\<lambda>remote.
             throw (ClientChannelError (channel_id adv)
               (''Received client advertisement from '' @ remote @ '' for channel '' @
                to_string (unat (channel_id adv)) @ '' it had already advertised'')))
        else
          bind (lift (rcl (getMessageDescription N (adv_schema_name adv)))) (\<lambda>message_description.
          case message_description of
            None \<Rightarrow> throw (ClientChannelError (channel_id adv)
                      (''Failed to retrieve type information of data type '' @ quoted (adv_schema_name adv) @
                       ''. Unable to advertise topic '' @ adv_topic adv))
          | Some d \<Rightarrow>
              bind (lift (rcl (ros1_advertise N (advertise_options_for adv d)))) (\<lambda>publisher.
              if publisher
              then modify (\<lambda>s. s\<lparr>client_topics1 :=
                     m_assign h (m_emplace (channel_id adv) (advertise_options_for adv d) (publications1 h s))
                       (client_topics1 s)\<rparr>)
              else throw (ClientChannelError (channel_id adv)
                     (''Failed to create publisher for topic '' @ adv_topic adv @ ''('' @ adv_schema_name adv @ '')'')))))))"

definition client_unadvertise1 :: "uint32_t \<Rightarrow> hdl \<Rightarrow> (cobridge1, unit) cpp" where
  "client_unadvertise1 chan_id h =
     bind (gets (remote_endpoint_string h)) (\<lambda>remote.
     bind (gets (\<lambda>s. m_find (client_topics1 s) h)) (\<lambda>it.
     case it of
       None \<Rightarrow> throw (ClientChannelError chan_id
                 (''Ignoring client unadvertisement from '' @ remote @ '' for unknown channel '' @
                  to_string (unat chan_id) @ '', client has no advertised topics''))
     | Some pubs \<Rightarrow>
         if \<not> m_contains pubs chan_id
         then throw (ClientChannelError chan_id
                (''Ignoring client unadvertisement from '' @ remote @ '' for unknown channel '' @
                 to_string (unat chan_id) @ '', client has '' @ to_string (length pubs) @ '' advertised topic(s)''))
         else
           modify (\<lambda>s. s\<lparr>client_topics1 :=
             (if m_erase chan_id pubs = [] then m_erase h (client_topics1 s)
              else m_assign h (m_erase chan_id pubs) (client_topics1 s))\<rparr>)))"

definition client_message1 :: "ros1 \<Rightarrow> client_message \<Rightarrow> hdl \<Rightarrow> (cobridge1, unit) cpp" where
  "client_message1 N client_msg h =
     (let chan_id = channel_id (advertisement client_msg);
          msg = take (getLength client_msg) (getData client_msg) in
      bind (gets (remote_endpoint_string h)) (\<lambda>remote.
      bind (gets (\<lambda>s. m_find (client_topics1 s) h)) (\<lambda>it.
      case it of
        None \<Rightarrow> throw (ClientChannelError chan_id
                  (''Dropping client message from '' @ remote @ '' for unknown channel '' @
                   to_string (unat chan_id) @ '', client has no advertised topics''))
      | Some pubs \<Rightarrow>
          (case m_find pubs chan_id of
             None \<Rightarrow> throw (ClientChannelError chan_id
                       (''Dropping client message from '' @ remote @ '' for unknown channel '' @
                        to_string (unat chan_id) @ '', client has '' @ to_string (length pubs) @ '' advertised topic(s)''))
           | Some publisher \<Rightarrow>
               catch_std
                 (seq (lift (rcl (ros1_publish N publisher msg)))
                   (modify (\<lambda>s. s\<lparr>published1 := published1 s @ [(publisher, msg)]\<rparr>)))
                 (\<lambda>what. throw (ClientChannelError chan_id
                    (''Failed to publish message on topic '' @ quoted (ao_topic publisher) @ '': '' @ what)))))))"


section \<open>Topics and services\<close>

definition latest_topics1 :: "regex list \<Rightarrow> (string \<times> string) list \<Rightarrow> (string \<times> string) list" where
  "latest_topics1 patterns topic_names_and_types =
     fold (\<lambda>(topic_name, datatype) latest.
       if is_whitelisted topic_name patterns then s_insert (topic_name, datatype) latest else latest)
       topic_names_and_types []"

definition gone_channels1 :: "(string \<times> string) list \<Rightarrow> cobridge1 \<Rightarrow> uint32_t list" where
  "gone_channels1 latest_topics s =
     map fst (filter (\<lambda>(_, ch). (channel_without_id.topic ch, channel_without_id.schema_name ch) \<notin> set latest_topics)
       (topics1 s))"

text \<open>A type whose description cannot be read gets an empty schema.\<close>

definition new_channels1 :: "ros1 \<Rightarrow> (string \<times> string) list \<Rightarrow> cobridge1 \<Rightarrow> channel_without_id list" where
  "new_channels1 N latest_topics s =
     map (\<lambda>(topic, datatype).
            \<lparr>topic = topic, ch_encoding = ROS1_CHANNEL_ENCODING, schema_name = datatype,
             schema = (case getMessageDescription N datatype of Inr (Some d) \<Rightarrow> message_definition d | _ \<Rightarrow> []),
             schema_encoding = None\<rparr>)
       (filter (\<lambda>(topic, datatype). \<not> (\<exists>(_, ch) \<in> set (topics1 s).
            channel_without_id.topic ch = topic \<and> channel_without_id.schema_name ch = datatype)) latest_topics)"

definition update_advertised_topics1 :: "ros1 \<Rightarrow> (cobridge1, unit) cpp" where
  "update_advertised_topics1 N =
     (case getTopics N of
        None \<Rightarrow> ret ()
      | Some topic_names_and_types \<Rightarrow>
          bind (gets (\<lambda>s. latest_topics1 (topic_patterns s) topic_names_and_types)) (\<lambda>latest_topics.
          bind (gets (gone_channels1 latest_topics)) (\<lambda>channel_ids_to_remove.
          seq (modify (\<lambda>s. s\<lparr>subscriptions1 := fold m_erase channel_ids_to_remove (subscriptions1 s),
                              topics1 := fold m_erase channel_ids_to_remove (topics1 s)\<rparr>)) (
          seq (remove_channels channel_ids_to_remove) (
          bind (gets (new_channels1 N latest_topics)) (\<lambda>channels_to_add.
          bind (add_channels channels_to_add) (\<lambda>channel_ids.
          modify (\<lambda>s. s\<lparr>topics1 :=
            fold (\<lambda>(i, ch). m_emplace i ch) (zip channel_ids channels_to_add) (topics1 s)\<rparr>))))))))"

definition retrieve_service_type :: "ros1 \<Rightarrow> string \<Rightarrow> string outcome" where
  "retrieve_service_type N serviceName =
     (case createServiceServerLink N serviceName of
        NoLink \<Rightarrow> Throw (StdException ''Failed to create service link'')
      | NoConnection \<Rightarrow> Throw (StdException ''Failed to get service link connection'')
      | NoHeader \<Rightarrow> Throw (StdException ''Timed out when retrieving service type'')
      | ProbeHeader None \<Rightarrow> Throw (StdException (''Key '' @ quoted ''type'' @ '' not found in service connection header''))
      | ProbeHeader (Some serviceType) \<Rightarrow> Ok serviceType)"

definition new_service1 :: "ros1 \<Rightarrow> string \<Rightarrow> service_without_id list \<Rightarrow> (cobridge1, service_without_id list) cpp" where
  "new_service1 N service_name new_services =
     bind (gets (\<lambda>s. \<exists>(_, sv) \<in> set (services1 s). sv_name sv = service_name)) (\<lambda>known.
     if known then ret new_services
     else
       catch_std
         (bind (lift (retrieve_service_type N service_name)) (\<lambda>service_type.
          bind (lift (rcl (getServiceDescription N service_type))) (\<lambda>srv_description.
          ret (new_services @
            [\<lparr>sv_name = service_name, sv_type = service_type,
              request_schema = (case srv_description of Some d \<Rightarrow> request_definition d | None \<Rightarrow> []),
              response_schema = (case srv_description of Some d \<Rightarrow> response_definition d | None \<Rightarrow> [])\<rparr>]))))
         (\<lambda>_. ret new_services))"

definition update_advertised_services1 :: "ros1 \<Rightarrow> string list \<Rightarrow> (cobridge1, unit) cpp" where
  "update_advertised_services1 N service_names =
     bind (gets (\<lambda>s. map fst (filter (\<lambda>(_, sv). sv_name sv \<notin> set service_names) (services1 s)))) (\<lambda>services_to_remove.
     seq (modify (\<lambda>s. s\<lparr>services1 := fold m_erase services_to_remove (services1 s)\<rparr>)) (
     seq (remove_services services_to_remove) (
     bind (for_fold service_names (new_service1 N) []) (\<lambda>new_services.
     bind (add_services new_services) (\<lambda>service_ids.
     modify (\<lambda>s. s\<lparr>services1 :=
       fold (\<lambda>(i, sv). m_emplace i sv) (zip service_ids new_services) (services1 s)\<rparr>))))))"

text \<open>\<open>rpc_value_to_string_set\<close> of the nodes of each name the patterns allow.\<close>

definition allowed_sets :: "regex list \<Rightarrow> map_of_sets \<Rightarrow> map_of_sets" where
  "allowed_sets patterns entries =
     fold (\<lambda>(name, nodes) m. if is_whitelisted name patterns then m_emplace name (s_of nodes) m else m) entries []"

definition allowed_names :: "regex list \<Rightarrow> map_of_sets \<Rightarrow> string list" where
  "allowed_names patterns entries = filter (\<lambda>name. is_whitelisted name patterns) (map fst entries)"

text \<open>
  The pause before the next update in milliseconds, \<open>max(100.0, min(size_t(1) << update_count_, max_update_ms_))\<close>; a
  shift of a 64-bit number by 64 or more is undefined.  The conversion to \<open>double\<close> keeps the order.
\<close>

definition next_update_ms :: "uint64_t \<Rightarrow> uint64_t \<Rightarrow> uint64_t outcome" where
  "next_update_ms n max_ms =
     (if 64 \<le> n then UB ''shift count too large''
      else Ok (max 100 (min (push_bit (unat n) 1) max_ms)))"

text \<open>The first part of the update: the state of the ROS master, empty when it is not asked for or the call fails.\<close>

definition query_state :: "ros1 \<Rightarrow> cobridge1 \<Rightarrow> string list \<times> map_of_sets \<times> map_of_sets \<times> map_of_sets" where
  "query_state N s =
     (if has_capability1 ''services'' s \<or> graph_updates1 s
      then (case getSystemState N of
              None \<Rightarrow> ([], [], [], [])
            | Some st \<Rightarrow> (allowed_names (service_patterns s) (state_services st),
                          allowed_sets (topic_patterns s) (state_publishers st),
                          allowed_sets (topic_patterns s) (state_subscribers st),
                          allowed_sets (service_patterns s) (state_services st)))
      else ([], [], [], []))"

definition update_tables :: "ros1 \<Rightarrow> (cobridge1, unit) cpp" where
  "update_tables N =
     bind (gets (query_state N)) (\<lambda>(service_names, publishers, subscribers, svcs).
     bind (gets (has_capability1 ''services'')) (\<lambda>services_enabled.
     seq (update_advertised_topics1 N) (
     seq (whenever services_enabled (update_advertised_services1 N service_names)) (
     bind (gets graph_updates1) (\<lambda>b.
     whenever b (update_connection_graph publishers subscribers svcs))))))"

definition schedule_next_update :: "(cobridge1, unit) cpp" where
  "schedule_next_update =
     seq (modify (\<lambda>s. s\<lparr>update_count := update_count s + 1\<rparr>)) (
     bind (gets (\<lambda>s. next_update_ms (update_count s) (max_update_ms s))) (\<lambda>next.
     bind (lift next) (\<lambda>next_ms.
     modify (\<lambda>s. s\<lparr>update_timer := Some next_ms\<rparr>))))"

definition update_advertised_topics_and_services :: "ros1 \<Rightarrow> (cobridge1, unit) cpp" where
  "update_advertised_topics_and_services N =
     seq (modify (\<lambda>s. s\<lparr>update_timer := None\<rparr>)) (
     if \<not> ros1_ok N then ret ()
     else seq (update_tables N) schedule_next_update)"

section \<open>Parameters\<close>

text \<open>One parameter of a request: a name that is not allowed is reported but read all the same.\<close>

definition read_param1 :: "ros1 \<Rightarrow> bool \<Rightarrow> string \<Rightarrow> parameter list \<times> bool \<Rightarrow> (cobridge1, parameter list \<times> bool) cpp" where
  "read_param1 N all_requested param_name = (\<lambda>(params, success).
     bind (gets (\<lambda>s. is_whitelisted param_name (param_patterns s))) (\<lambda>allowed.
     if \<not> allowed \<and> all_requested then ret (params, success)
     else
       let success' = (success \<and> allowed) in
       bind (gets (\<lambda>s. from_xml_param param_name (getParam N (param_calls s) param_name))) (\<lambda>r.
       catch_all (bind (lift r) (\<lambda>p. ret (params @ [p], success')))
         (\<lambda>_. ret (params, False)) (ret (params, False)))))"

definition get_parameters1 :: "ros1 \<Rightarrow> string list \<Rightarrow> string option \<Rightarrow> hdl \<Rightarrow> (cobridge1, unit) cpp" where
  "get_parameters1 N parameters req_id h =
     (case (if parameters = [] then getParamNames N else Some parameters) of
        None \<Rightarrow> throw (StdException ''Failed to retrieve parameter names'')
      | Some parameter_names \<Rightarrow>
          bind (for_fold parameter_names (read_param1 N (parameters = [])) ([], True)) (\<lambda>(params, success).
          seq (publish_parameter_values h params req_id) (
          if success then ret () else throw (StdException ''Failed to retrieve one or multiple parameters''))))"

definition write_param1 :: "ros1 \<Rightarrow> parameter \<Rightarrow> bool \<Rightarrow> (cobridge1, bool) cpp" where
  "write_param1 N param success =
     bind (gets (\<lambda>s. is_whitelisted (p_name param) (param_patterns s))) (\<lambda>allowed.
     if \<not> allowed then ret False
     else
       catch_all
         (bind (if getType (p_value param) = PARAMETER_NOT_SET then ret (DeleteParam (p_name param))
                else bind (lift (to_xml_param (p_value param))) (\<lambda>x. ret (SetParam (p_name param) x))) (\<lambda>c.
          seq (lift (rcl (setParam N c))) (
          seq (modify (\<lambda>s. s\<lparr>param_calls := param_calls s @ [c]\<rparr>)) (ret success))))
         (\<lambda>_. ret False) (ret False))"

definition set_parameters1 :: "ros1 \<Rightarrow> parameter list \<Rightarrow> string option \<Rightarrow> hdl \<Rightarrow> (cobridge1, unit) cpp" where
  "set_parameters1 N parameters req_id h =
     bind (for_fold parameters (write_param1 N) True) (\<lambda>success.
     seq (whenever (req_id \<noteq> None) (get_parameters1 N (map p_name parameters) req_id h)) (
     if success then ret () else throw (StdException ''Failed to set one or multiple parameters'')))"

text \<open>\<open>subscribeParam\<close> and \<open>unsubscribeParam\<close> of the ROS master.\<close>

definition subscribe_param1 :: "ros1 \<Rightarrow> bool \<Rightarrow> string \<Rightarrow> bool \<Rightarrow> (cobridge1, bool) cpp" where
  "subscribe_param1 N subscribing param_name success =
     bind (gets (\<lambda>s. is_whitelisted param_name (param_patterns s))) (\<lambda>allowed.
     if \<not> allowed then ret success
     else
       bind (lift (rcl (names_resolve N param_name))) (\<lambda>resolved.
       ret (success \<and> master_param N subscribing resolved)))"

definition subscribe_parameters1 ::
    "ros1 \<Rightarrow> string list \<Rightarrow> ParameterSubscriptionOperation \<Rightarrow> hdl \<Rightarrow> (cobridge1, unit) cpp" where
  "subscribe_parameters1 N parameters operation h =
     bind (for_fold parameters (subscribe_param1 N (operation = SUBSCRIBE)) True) (\<lambda>success.
     if success then ret ()
     else throw (StdException (''Failed to '' @ (if operation = SUBSCRIBE then ''subscribe'' else ''unsubscribe'') @
            '' one or multiple parameters.'')))"

text \<open>\<open>paramUpdate\<close>, called by the ROS master; a name that is no string raises an \<open>XmlRpcException\<close>.\<close>

fun xml_string :: "xml_rpc \<Rightarrow> string outcome" where
  "xml_string (XString n) = Ok n"
| "xml_string _ = Throw OtherException"

definition parameter_updates1 :: "ros1 \<Rightarrow> xml_rpc list \<Rightarrow> (cobridge1, unit) cpp" where
  "parameter_updates1 N params =
     (if length params \<noteq> 3 then ret ()
      else
        catch_all
          (bind (lift (xml_string (params ! 1))) (\<lambda>name.
           bind (lift (from_xml_param (names_clean N name) (params ! 2))) (\<lambda>param.
           update_parameter_values [param])))
          (\<lambda>_. ret ()) (ret ()))"

section \<open>Messages, services and assets\<close>

definition ros_message_handler1 :: "uint32_t \<Rightarrow> hdl \<Rightarrow> uint64_t \<Rightarrow> bytes \<Rightarrow> (cobridge1, unit) cpp" where
  "ros_message_handler1 chan_id client_handle receipt_time msg = send_message client_handle chan_id receipt_time msg"

definition service_request1 :: "ros1 \<Rightarrow> service_request \<Rightarrow> hdl \<Rightarrow> (cobridge1, unit) cpp" where
  "service_request1 N request client_handle =
     bind (gets (\<lambda>s. m_find (services1 s) (service_id request))) (\<lambda>it.
     case it of
       None \<Rightarrow> throw (ServiceError (service_id request)
                 (''Service with id '' @ to_string (unat (service_id request)) @ '' does not exist''))
     | Some sv \<Rightarrow>
         if \<not> service_exists N (sv_name sv)
         then throw (ServiceError (service_id request) (''Service '' @ quoted (sv_name sv) @ '' does not exist''))
         else
           bind (lift (rcl (getServiceDescription N (sv_type sv)))) (\<lambda>srv_description.
           case srv_description of
             None \<Rightarrow> throw (ServiceError (service_id request)
                       (''Failed to retrieve type information for service '' @ sv_name sv @ ''('' @ sv_type sv @ '')''))
           | Some d \<Rightarrow>
               (case service_call N (sv_name sv) (sv_type sv) (srv_md5 d) (serv_data request) of
                  Some response \<Rightarrow> send_service_response client_handle (request\<lparr>serv_data := response\<rparr>)
                | None \<Rightarrow> throw (ServiceError (service_id request)
                            (''Failed to call service '' @ sv_name sv @ ''('' @ sv_type sv @ '')'')))))"

definition fetch_asset1 :: "ros1 \<Rightarrow> string \<Rightarrow> uint32_t \<Rightarrow> hdl \<Rightarrow> (cobridge1, unit) cpp" where
  "fetch_asset1 N uri req_id client_handle =
     bind (gets asset_uri_patterns) (\<lambda>patterns.
     bind (catch_std
             (if str_find0 ''..'' uri \<noteq> None \<or> \<not> is_whitelisted uri patterns
              then throw (StdException (''Asset URI not allowed: '' @ uri))
              else
                bind (lift (rcl (retriever_get N uri))) (\<lambda>resource.
                ret \<lparr>request_id = req_id, status = FetchSuccess, error_message = [], asset_data = resource\<rparr>))
             (\<lambda>_. ret \<lparr>request_id = req_id, status = FetchError,
                      error_message = ''Failed to retrieve asset '' @ uri, asset_data = []\<rparr>)) (\<lambda>response.
     send_fetch_asset_response client_handle response))"

definition fetch_asset_work1 :: "ros1 \<Rightarrow> (cobridge1, unit) cpp" where
  "fetch_asset_work1 N =
     bind (gets (\<lambda>s. do_work (asset_queue1 s))) (\<lambda>(cb, q).
     seq (modify (\<lambda>s. s\<lparr>asset_queue1 := q\<rparr>)) (
     case cb of
       None \<Rightarrow> ret ()
     | Some (uri, req_id, h) \<Rightarrow> catch_all (fetch_asset1 N uri req_id h) (\<lambda>_. ret ()) (ret ())))"

section \<open>Start\<close>

text \<open>The parameters \<open>onInit\<close> reads; the numbers are \<open>int\<close> and are converted to \<open>size_t\<close>.\<close>

record nodelet_config =
  n_send_buffer_limit :: "32 word"
  n_tls :: bool
  n_certfile :: string
  n_keyfile :: string
  n_max_update_ms :: "32 word"
  n_use_compression :: bool
  n_use_sim_time :: bool
  n_session_id :: string
  n_capabilities :: "string list"
  n_topic_whitelist :: "string list"
  n_param_whitelist :: "string list"
  n_service_whitelist :: "string list"
  n_client_topic_whitelist :: "string list"
  n_asset_uri_allowlist :: "string list"
  n_ros_distro :: string
  n_colink_ip :: string
  n_mac_addresses :: string
  n_ip_addresses :: "string list"

definition nodelet_server_options :: "(string \<Rightarrow> regex option) \<Rightarrow> nodelet_config \<Rightarrow> server_options" where
  "nodelet_server_options regex cfg =
     \<lparr>capabilities = n_capabilities cfg @ (if n_use_sim_time cfg then [''time''] else []) @ [''messageTime''],
      supported_encodings = [ROS1_CHANNEL_ENCODING],
      metadata = [(''ROS_DISTRO'', n_ros_distro cfg), (''COLINK'', n_colink_ip cfg)],
      send_buffer_limit_bytes = unat (scast (n_send_buffer_limit cfg) :: uint64_t), use_tls = n_tls cfg,
      cert_file = n_certfile cfg, key_file = n_keyfile cfg, session_id = n_session_id cfg,
      use_compression = n_use_compression cfg,
      client_topic_whitelist_patterns = parse_regex_patterns regex (n_client_topic_whitelist cfg),
      mac_addr = n_mac_addresses cfg, ip_addrs = n_ip_addresses cfg\<rparr>"

definition onInit :: "(string \<Rightarrow> regex option) \<Rightarrow> nodelet_config \<Rightarrow> cobridge1" where
  "onInit regex cfg = server.extend (Server ''cobridge'' (nodelet_server_options regex cfg))
     \<lparr>topic_patterns = parse_regex_patterns regex (n_topic_whitelist cfg),
      param_patterns = parse_regex_patterns regex (n_param_whitelist cfg),
      service_patterns = parse_regex_patterns regex (n_service_whitelist cfg),
      asset_uri_patterns = parse_regex_patterns regex (n_asset_uri_allowlist cfg),
      topics1 = [], subscriptions1 = [], services1 = [], client_topics1 = [],
      max_update_ms = scast (n_max_update_ms cfg), update_count = 0, sim_time1 = n_use_sim_time cfg,
      capabilities1 = n_capabilities cfg, graph_updates1 = False, asset_queue1 = CallbackQueue,
      param_calls = [], published1 = [], update_timer = None\<rparr>"

definition nodelet_handlers :: "ros1 \<Rightarrow> string list \<Rightarrow> cobridge1 handlers" where
  "nodelet_handlers N caps =
     \<lparr>subscribe_handler = Some (subscribe1 N), unsubscribe_handler = Some unsubscribe1,
      client_advertise_handler = Some (client_advertise1 N),
      client_unadvertise_handler = Some client_unadvertise1,
      client_message_handler = Some (client_message1 N),
      parameter_request_handler = Some (get_parameters1 N),
      parameter_change_handler = Some (set_parameters1 N),
      parameter_subscription_handler = Some (subscribe_parameters1 N),
      service_request_handler = Some (service_request1 N),
      subscribe_connection_graph_handler = Some (\<lambda>subscribe. modify (\<lambda>s. s\<lparr>graph_updates1 := subscribe\<rparr>)),
      fetch_asset_handler =
        (if ''assets'' \<in> set caps
         then Some (\<lambda>uri req_id h. modify (\<lambda>s. s\<lparr>asset_queue1 := add_callback (uri, req_id, h) (asset_queue1 s)\<rparr>))
         else None)\<rparr>"

text \<open>The callback of \<open>/clock\<close>.\<close>

definition clock_message1 :: "uint64_t \<Rightarrow> (cobridge1, unit) cpp" where
  "clock_message1 nanoseconds = broadcast_time nanoseconds"

end
