(* ===== verification/Nodelet_Runs.thy ===== *)
theory Nodelet_Runs
  imports Ros1_Bridge
begin

text \<open>
  The ROS 1 bridge satisfies the contract of the server, so the invariants of the server hold in every
  state the nodelet reaches; then the schedule of its updates, its allow lists for parameters and assets, and
  the tables of its topics.
\<close>

section \<open>What the handlers leave alone\<close>

lemma key_state_nodelet_update [simp]:
  fixes s :: cobridge1
  shows "key_state (s\<lparr>topics1 := a\<rparr>) = key_state s"
    "key_state (s\<lparr>subscriptions1 := b\<rparr>) = key_state s"
    "key_state (s\<lparr>services1 := c\<rparr>) = key_state s"
    "key_state (s\<lparr>client_topics1 := d\<rparr>) = key_state s"
    "key_state (s\<lparr>update_count := e\<rparr>) = key_state s"
    "key_state (s\<lparr>graph_updates1 := f\<rparr>) = key_state s"
    "key_state (s\<lparr>asset_queue1 := g\<rparr>) = key_state s"
    "key_state (s\<lparr>param_calls := i\<rparr>) = key_state s"
    "key_state (s\<lparr>published1 := j\<rparr>) = key_state s"
    "key_state (s\<lparr>update_timer := k\<rparr>) = key_state s"
  by (simp_all add: key_state_def)

lemma framed_nodelet_tables:
  "framed key_state (subscribe1 N i h)" "framed key_state (unsubscribe1 i h)"
  "framed key_state (client_advertise1 N adv h)" "framed key_state (client_unadvertise1 i h)"
  "framed key_state (client_message1 N m h)"
  unfolding subscribe1_def unsubscribe1_def client_advertise1_def client_unadvertise1_def client_message1_def
  by (intro framedI keeps_intros keeps_modify; simp)+

lemma framed_get_parameters1: "framed key_state (get_parameters1 N ns rid h)"
  unfolding get_parameters1_def read_param1_def
  by (intro framedI keeps_intros framed_quiet [THEN framed_keepsD])

lemma framed_set_parameters1: "framed key_state (set_parameters1 N qs rid h)"
  unfolding set_parameters1_def write_param1_def
  by (intro framedI keeps_intros keeps_modify framed_get_parameters1 [THEN framed_keepsD]) simp

lemma framed_nodelet_params:
  "framed key_state (subscribe_parameters1 N ns op h)"
  "framed key_state (parameter_updates1 N xs)"
  unfolding subscribe_parameters1_def subscribe_param1_def parameter_updates1_def
  by (intro framedI keeps_intros framed_quiet [THEN framed_keepsD])+

lemma framed_nodelet_responses:
  "framed key_state (ros_message_handler1 i h t p)"
  "framed key_state (service_request1 N req h)"
  "framed key_state (fetch_asset_work1 N)"
  "framed key_state (clock_message1 ts)"
  unfolding ros_message_handler1_def service_request1_def fetch_asset_work1_def fetch_asset1_def clock_message1_def
  by (intro framedI keeps_intros keeps_modify framed_quiet [THEN framed_keepsD]; simp)+

interpretation nodelet: server_handlers "nodelet_handlers N caps" for N caps
  by unfold_locales
    (auto simp: nodelet_handlers_def intro: framed_nodelet_tables framed_get_parameters1 framed_set_parameters1
      framed_nodelet_params framed_nodelet_responses intro!: framed_modify split: if_splits)

section \<open>Runs\<close>

lemma keeps_inv_services1: "keeps server_inv (update_advertised_services1 N names)"
proof -
  have "keeps server_inv (new_service1 N n svs)" for n svs
    unfolding new_service1_def by (intro keeps_intros)
  then show ?thesis
    unfolding update_advertised_services1_def
    by (intro keeps_intros keeps_inv_quiet [OF framed_quiet(1)] keeps_inv_quiet [OF framed_quiet(2)]
        keeps_inv_quiet [OF framed_modify]) simp_all
qed

lemma keeps_inv_topics1: "keeps server_inv (update_advertised_topics1 N)"
  unfolding update_advertised_topics1_def
  by (intro keeps_intros keeps_inv_channels keeps_inv_quiet [OF framed_modify]) simp_all

lemma keeps_inv_update1: "keeps server_inv (update_advertised_topics_and_services N)"
  unfolding update_advertised_topics_and_services_def update_tables_def schedule_next_update_def
  by (intro keeps_intros keeps_inv_topics1 keeps_inv_services1 keeps_inv_quiet [OF framed_update_connection_graph]
      keeps_inv_quiet [OF framed_modify]) simp_all

text \<open>
  What happens to the nodelet: an event of the transport, the timer of the update, a message on a subscription, a
  parameter update of the ROS master, a round of the asset worker, a clock message.
\<close>

datatype nodelet_event =
    Transport1 ros1 transport_event
  | Update1 ros1
  | RosMessage1 uint32_t hdl uint64_t bytes
  | ParamUpdate1 ros1 "xml_rpc list"
  | AssetWork1 ros1
  | Clock1 uint64_t

fun nodelet_run :: "(string \<Rightarrow> json outcome) \<Rightarrow> nodelet_event \<Rightarrow> (cobridge1, unit) cpp" where
  "nodelet_run parse (Transport1 N e) =
     bind (gets capabilities1) (\<lambda>caps. transport_run parse (nodelet_handlers N caps) e)"
| "nodelet_run parse (Update1 N) = update_advertised_topics_and_services N"
| "nodelet_run parse (RosMessage1 i h t msg) = ros_message_handler1 i h t msg"
| "nodelet_run parse (ParamUpdate1 N xs) = parameter_updates1 N xs"
| "nodelet_run parse (AssetWork1 N) = fetch_asset_work1 N"
| "nodelet_run parse (Clock1 t) = clock_message1 t"

inductive nodelet_reachable ::
    "(string \<Rightarrow> json outcome) \<Rightarrow> (string \<Rightarrow> regex option) \<Rightarrow> nodelet_config \<Rightarrow> cobridge1 \<Rightarrow> bool"
  for parse :: "string \<Rightarrow> json outcome" and regex :: "string \<Rightarrow> regex option" and cfg :: nodelet_config where
  nodelet_start: "nodelet_reachable parse regex cfg (onInit regex cfg)"
| nodelet_step: "nodelet_reachable parse regex cfg s \<Longrightarrow> nodelet_run parse e s = (r, t) \<Longrightarrow> \<forall>what. r \<noteq> UB what \<Longrightarrow>
    nodelet_reachable parse regex cfg t"

lemma keeps_nodelet_run: "keeps server_inv (nodelet_run parse e)"
  by (cases e; simp only: nodelet_run.simps)
    (intro keeps_bind [OF keeps_gets] nodelet.keeps_inv_transport keeps_inv_update1 keeps_inv_quiet
      framed_nodelet_responses framed_nodelet_params)+

lemma nodelet_invariant: "nodelet_reachable parse regex cfg s \<Longrightarrow> server_inv s"
proof (induction rule: nodelet_reachable.induct)
  case nodelet_start
  show ?case
    by (rule server_inv_start [of _ "''cobridge''" "nodelet_server_options regex cfg"])
      (simp add: onInit_def server.defs Server_def)
next
  case (nodelet_step s e r t)
  then show ?case
    using keeps_nodelet_run [of parse e] by (cases r) (auto dest: keeps_Ok keeps_Throw)
qed


section \<open>The schedule of the updates\<close>

definition schedule :: "cobridge1 \<Rightarrow> uint64_t \<times> uint64_t" where
  "schedule s = (update_count s, max_update_ms s)"

lemma schedule_update [simp]:
  "schedule (s\<lparr>outbox := a\<rparr>) = schedule s" "schedule (s\<lparr>clients := b\<rparr>) = schedule s"
  "schedule (s\<lparr>channels := c\<rparr>) = schedule s" "schedule (s\<lparr>services := d\<rparr>) = schedule s"
  "schedule (s\<lparr>conn_graph := e\<rparr>) = schedule s" "schedule (s\<lparr>topics1 := f\<rparr>) = schedule s"
  "schedule (s\<lparr>subscriptions1 := g\<rparr>) = schedule s" "schedule (s\<lparr>services1 := i\<rparr>) = schedule s"
  "schedule (s\<lparr>update_timer := j\<rparr>) = schedule s" "schedule (s\<lparr>next_channel_id := k\<rparr>) = schedule s"
  "schedule (s\<lparr>nextService_id := l\<rparr>) = schedule s"
  by (simp_all add: schedule_def)

lemma keeps_schedule_sends:
  "keeps (\<lambda>s. schedule s = v) (send_json h j r)" "keeps (\<lambda>s. schedule s = v) (send_raw_json h j r)"
  by (auto intro: keepsI simp: sending_runs)

lemma keeps_schedule_server:
  "keeps (\<lambda>s. schedule s = v) (add_channels chs)" "keeps (\<lambda>s. schedule s = v) (remove_channels ids)"
  "keeps (\<lambda>s. schedule s = v) (add_services svs)" "keeps (\<lambda>s. schedule s = v) (remove_services ids)"
  "keeps (\<lambda>s. schedule s = v) (update_connection_graph pubs subs servs)"
  unfolding add_channels_def add_channel_def remove_channels_def add_services_def add_service_def
    remove_services_def remove_service_def update_connection_graph_def broadcast_def server_send_def con_send_def
    update_client_def
  by (intro keeps_intros keeps_modify keeps_schedule_sends; simp split: option.split)+

lemma keeps_schedule_update:
  "keeps (\<lambda>s. schedule s = v) (update_advertised_topics1 N)"
  "keeps (\<lambda>s. schedule s = v) (update_advertised_services1 N names)"
  unfolding update_advertised_topics1_def update_advertised_services1_def new_service1_def
  by (intro keeps_intros keeps_modify keeps_schedule_server; simp)+


lemma keeps_schedule_tables: "keeps (\<lambda>s. schedule s = v) (update_tables N)"
  unfolding update_tables_def
  by (intro keeps_intros keeps_schedule_update keeps_schedule_server)

lemma schedule_next_run:
  assumes "schedule_next_update s = (Ok (), t)"
  shows "unat (update_count s + 1) < 64 \<and> update_count t = update_count s + 1 \<and>
    update_timer t = Some (max 100 (min (push_bit (unat (update_count s + 1)) 1) (max_update_ms s)))"
proof -
  have "\<not> 64 \<le> update_count s + 1"
    using assms by (auto simp: schedule_next_update_def next_update_ms_def cpp_defs split: if_splits)
  then show ?thesis
    using assms by (auto simp: schedule_next_update_def next_update_ms_def cpp_defs word_le_nat_alt)
qed

text \<open>C19: The updates of the topics back off: an update that returns schedules the next one after twice the time of
  the one before, but not before 100 ms and not later than the maximum.  Only the first 63 updates return; then
  the shift that computes the time is undefined.\<close>

theorem update_schedule:
  assumes "update_advertised_topics_and_services N s = (Ok (), t)" "ros1_ok N" "unat (update_count s) < 64"
  shows "unat (update_count s) < 63 \<and> update_count t = update_count s + 1 \<and>
    update_timer t = Some (max 100 (min (push_bit (unat (update_count s) + 1) 1) (max_update_ms s)))"
proof -
  obtain s' where tables: "update_tables N (s\<lparr>update_timer := None\<rparr>) = (Ok (), s')"
    and rest: "schedule_next_update s' = (Ok (), t)"
    using assms(1,2)
    by (auto simp: update_advertised_topics_and_services_def seq_def bind_def modify_def
        split: prod.splits outcome.splits)
  have "schedule s' = schedule s"
    by (rule keeps_Ok [OF keeps_schedule_tables _ tables]) simp
  then have "update_count s' = update_count s" "max_update_ms s' = max_update_ms s"
    by (simp_all add: schedule_def)
  moreover have "unat (update_count s + 1) = unat (update_count s) + 1"
    using assms(3) by (simp add: unat_word_ariths)
  ultimately show ?thesis using schedule_next_run [OF rest] by simp
qed

section \<open>Consistency\<close>

text \<open>C18: In every state the ROS 1 bridge can reach, at most one client holds the login, and every client is subscribed
  to existing channels only and recorded to advertise exactly the channels it published.\<close>

theorem nodelet_server_consistent:
  assumes "nodelet_reachable parse regex cfg s"
  shows "(\<forall>h h' c c'. m_find (clients s) h = Some c \<longrightarrow> m_find (clients s) h' = Some c' \<longrightarrow>
       login c \<longrightarrow> login c' \<longrightarrow> h = h') \<and>
     (\<forall>h c. m_find (clients s) h = Some c \<longrightarrow> handle c = h \<and>
       set (m_keys (subscriptions_by_channel c)) \<subseteq> set (m_keys (channels s)) \<and>
       set (advertised_channels c) = set (m_keys (publications h s)))"
proof -
  have inv: "inv_subs s" "inv_adv s" "inv_login s"
    using nodelet_invariant [OF assms] by (simp_all add: server_inv_def)
  have "set (advertised_channels c) = set (m_keys (publications h s))" if "m_find (clients s) h = Some c" for h c
    using inv(2) [unfolded inv_adv_def, THEN spec, of h] that by (simp add: advertised_of_def)
  then show ?thesis
    using inv(1,3) unfolding inv_subs_def inv_login_def by blast
qed

fun nodelet_runs :: "(string \<Rightarrow> json outcome) \<Rightarrow> nodelet_event list \<Rightarrow> cobridge1 \<Rightarrow> cobridge1 option" where
  "nodelet_runs parse [] s = Some s"
| "nodelet_runs parse (e # es) s =
     (case nodelet_run parse e s of
        (UB _, _) \<Rightarrow> None
      | (_, t) \<Rightarrow> nodelet_runs parse es t)"

lemma nodelet_runs_reachable:
  "nodelet_reachable parse regex cfg s \<Longrightarrow> nodelet_runs parse es s = Some t \<Longrightarrow> nodelet_reachable parse regex cfg t"
proof (induction es arbitrary: s)
  case (Cons e es)
  obtain r s' where run: "nodelet_run parse e s = (r, s')" by (cases "nodelet_run parse e s")
  with Cons.prems(2) have "\<forall>what. r \<noteq> UB what" "nodelet_runs parse es s' = Some t"
    by (cases r; simp)+
  with Cons.IH nodelet_step [OF Cons.prems(1) run] show ?case by blast
qed simp

definition demo_ros1 :: ros1 where
  "demo_ros1 =
     \<lparr>ros1_ok = True, getTopics = Some [(''/t'', ''p/T'')],
      getSystemState = Some \<lparr>state_publishers = [], state_subscribers = [], state_services = [(''/reset'', [''/n''])]\<rparr>,
      getMessageDescription = (\<lambda>_. Inr (Some \<lparr>msg_md5 = ''0'', message_definition = ''int32 x''\<rparr>)),
      getServiceDescription = (\<lambda>_. Inr None), createServiceServerLink = (\<lambda>_. ProbeHeader (Some ''p/Reset'')),
      ros1_subscribe = (\<lambda>_. Inr ()), ros1_advertise = (\<lambda>_. Inr True), ros1_publish = (\<lambda>_ _. Inr ()),
      getParamNames = None, getParam = (\<lambda>_ _. XString ''secret''), setParam = (\<lambda>_. Inr ()), names_resolve = Inr,
      names_clean = (\<lambda>n. n), master_param = (\<lambda>_ _. True), service_exists = (\<lambda>_. True),
      service_call = (\<lambda>_ _ _ _. None), retriever_get = (\<lambda>_. Inl ''not found'')\<rparr>"

definition demo_nodelet :: nodelet_config where
  "demo_nodelet =
     \<lparr>n_send_buffer_limit = 10, n_tls = False, n_certfile = [], n_keyfile = [], n_max_update_ms = 5000,
      n_use_compression = False, n_use_sim_time = False, n_session_id = ''0'',
      n_capabilities = [''clientPublish'', ''parameters'', ''services''], n_topic_whitelist = [''.*''],
      n_param_whitelist = [''/public''], n_service_whitelist = [''.*''], n_client_topic_whitelist = [''.*''],
      n_asset_uri_allowlist = [''.*''], n_ros_distro = ''noetic'', n_colink_ip = [], n_mac_addresses = [],
      n_ip_addresses = []\<rparr>"

text \<open>An expression matches itself; \<open>".*"\<close> matches everything.\<close>

definition literal_regex :: "string \<Rightarrow> regex option" where
  "literal_regex p = Some (\<lambda>name. p = ''.*'' \<or> name = p)"

definition nodelet_parse :: "string \<Rightarrow> json outcome" where
  "nodelet_parse text =
     (if text = ''login'' then Ok (jobject [(''op'', JStr ''login''), (''username'', JStr ''u''), (''userId'', JStr ''1'')])
      else Ok (jobject [(''op'', JStr ''advertise''),
        (''channels'', JArr [jobject [(''id'', json_u32 5), (''topic'', JStr ''/x''), (''encoding'', JStr ''ros1''),
          (''schemaName'', JStr ''p/T'')]])]))"

definition nodelet_events :: "nodelet_event list" where
  "nodelet_events =
     [Transport1 demo_ros1 (Accepted 0 \<lparr>con_open = True, remote_endpoint = ''10.0.0.2:5'', requested_subprotocols = [],
        selected_subprotocol = None\<rparr>),
      Transport1 demo_ros1 (Received 0 0 (TextMessage ''login'')), Update1 demo_ros1,
      Transport1 demo_ros1 (Received 0 0 (TextMessage ''advertise''))]"

lemma nodelet_state:
  obtains s c where "nodelet_reachable nodelet_parse literal_regex demo_nodelet s" "m_find (clients s) 0 = Some c"
    "m_keys (publications 0 s) = [5]" "m_keys (client_topics1 s) = [0]"
proof -
  have "case nodelet_runs nodelet_parse nodelet_events (onInit literal_regex demo_nodelet) of
     Some s \<Rightarrow> m_find (clients s) 0 \<noteq> None \<and> m_keys (publications 0 s) = [5] \<and> m_keys (client_topics1 s) = [0]
   | None \<Rightarrow> False"
    by code_simp
  then obtain s c where run: "nodelet_runs nodelet_parse nodelet_events (onInit literal_regex demo_nodelet) = Some s"
    and s: "m_find (clients s) 0 = Some c" "m_keys (publications 0 s) = [5]" "m_keys (client_topics1 s) = [0]"
    by (auto split: option.splits)
  show thesis
    by (rule that [OF nodelet_runs_reachable [OF nodelet_start run] s])
qed

theorem nodelet_server_consistent_witness:
  "\<exists>s c. nodelet_reachable nodelet_parse literal_regex demo_nodelet s \<and> m_find (clients s) 0 = Some c \<and>
     handle c = 0 \<and> set (advertised_channels c) = {5}"
proof -
  obtain s c where s: "nodelet_reachable nodelet_parse literal_regex demo_nodelet s" "m_find (clients s) 0 = Some c"
    "m_keys (publications 0 s) = [5]"
    by (rule nodelet_state)
  with nodelet_server_consistent [OF s(1)] show ?thesis by auto
qed

theorem update_schedule_witness:
  "\<exists>t. update_advertised_topics_and_services demo_ros1 (onInit literal_regex demo_nodelet) = (Ok (), t) \<and>
     update_count t = 1 \<and> update_timer t = Some 100"
proof -
  have start: "update_count (onInit literal_regex demo_nodelet) = 0" "max_update_ms (onInit literal_regex demo_nodelet) = 5000"
    by code_simp+
  have "fst (update_advertised_topics_and_services demo_ros1 (onInit literal_regex demo_nodelet)) = Ok ()"
    by code_simp
  then obtain t where t: "update_advertised_topics_and_services demo_ros1 (onInit literal_regex demo_nodelet) = (Ok (), t)"
    by (cases "update_advertised_topics_and_services demo_ros1 (onInit literal_regex demo_nodelet)") simp
  have "ros1_ok demo_ros1" by (simp add: demo_ros1_def)
  with update_schedule [OF t] t show ?thesis by (simp add: start)
qed

section \<open>Allow lists\<close>

lemma obind_UB_iff: "obind m k = UB u \<longleftrightarrow> m = UB u \<or> (\<exists>a. m = Ok a \<and> k a = UB u)"
  by (cases m) auto

lemma omap_not_UB: "(\<And>x. x \<in> set xs \<Longrightarrow> f x \<noteq> UB u) \<Longrightarrow> omap f xs \<noteq> UB u"
  by (induction xs) (auto simp: obind_UB_iff)

lemma fromRosParam_not_UB: "fromRosParam x \<noteq> UB what"
proof (induction x rule: fromRosParam.induct)
  case (5 m)
  have "omap (\<lambda>(k, x). obind (fromRosParam x) (\<lambda>v. Ok (k, v))) m \<noteq> UB what"
    using 5 by (intro omap_not_UB) (auto simp: obind_UB_iff)
  then show ?case by (simp add: obind_UB_iff)
next
  case (6 xs)
  then have "omap fromRosParam xs \<noteq> UB what" by (intro omap_not_UB)
  then show ?case by (simp add: obind_UB_iff)
qed simp_all

text \<open>The parameters among \<open>names\<close> that can be read.\<close>

definition readable_params :: "ros1 \<Rightarrow> cobridge1 \<Rightarrow> string list \<Rightarrow> parameter list" where
  "readable_params N s names = List.map_filter (\<lambda>n.
     case from_xml_param n (getParam N (param_calls s) n) of Ok p \<Rightarrow> Some p | _ \<Rightarrow> None) names"

text \<open>C17: A request for named parameters publishes every one of them that can be read, whether it is on the allow list
  or not; only a request for all parameters leaves out those that are not.\<close>

theorem get_parameters_published:
  assumes "(if parameters = [] then getParamNames N else Some parameters) = Some names"
  shows "snd (get_parameters1 N parameters req_id h s) =
    snd (publish_parameter_values h
      (readable_params N s (filter (\<lambda>n. parameters \<noteq> [] \<or> is_whitelisted n (param_patterns s)) names)) req_id s)"
proof -
  define keep where "keep = filter (\<lambda>n. parameters \<noteq> [] \<or> is_whitelisted n (param_patterns s))"
  have step: "\<exists>b. read_param1 N (parameters = []) n (ps, a) s = (Ok (ps @ readable_params N s (keep [n]), b), s)" for n ps a
  proof (cases "from_xml_param n (getParam N (param_calls s) n)")
    case (UB w)
    then show ?thesis using fromRosParam_not_UB by (simp add: from_xml_param_def obind_UB_iff)
  qed (auto simp: read_param1_def readable_params_def keep_def catch_all_def cpp_defs Let_def List.map_filter_simps
      split: option.split)
  have loop: "\<exists>b. for_fold names (read_param1 N (parameters = [])) (ps, a) s = (Ok (ps @ readable_params N s (keep names), b), s)" for ps a
  proof (induction names arbitrary: ps a)
    case Nil
    then show ?case by (simp add: readable_params_def cpp_defs keep_def List.map_filter_simps)
  next
    case (Cons n names)
    obtain b where first: "read_param1 N (parameters = []) n (ps, a) s = (Ok (ps @ readable_params N s (keep [n]), b), s)"
      using step by blast
    have "readable_params N s (keep (n # names)) = readable_params N s (keep [n]) @ readable_params N s (keep names)"
      by (simp add: keep_def readable_params_def List.map_filter_def)
    with Cons.IH [of "ps @ readable_params N s (keep [n])" b] show ?case
      by (simp add: bind_def first)
  qed
  obtain b where "for_fold names (read_param1 N (parameters = [])) ([], True) s = (Ok (readable_params N s (keep names), b), s)"
    using loop [of "[]" True] by auto
  then show ?thesis
    unfolding get_parameters1_def assms option.case keep_def [symmetric]
    by (simp add: bind_def seq_def publish_parameter_values_run ret_def throw_def)
qed

text \<open>The allow list has one name, the client asks for another and gets its value.\<close>

theorem get_parameters_published_witness:
  "\<not> is_whitelisted ''/private'' (param_patterns (onInit literal_regex demo_nodelet)) \<and>
   readable_params demo_ros1 (onInit literal_regex demo_nodelet) [''/private''] =
     [\<lparr>p_name = ''/private'', p_value = PString ''secret''\<rparr>] \<and>
   snd (get_parameters1 demo_ros1 [''/private''] None 0 (onInit literal_regex demo_nodelet)) =
     snd (publish_parameter_values 0 [\<lparr>p_name = ''/private'', p_value = PString ''secret''\<rparr>] None
       (onInit literal_regex demo_nodelet))"
proof -
  have "\<not> is_whitelisted ''/private'' (param_patterns (onInit literal_regex demo_nodelet))"
    by code_simp
  moreover have secret: "readable_params demo_ros1 (onInit literal_regex demo_nodelet) [''/private''] =
     [\<lparr>p_name = ''/private'', p_value = PString ''secret''\<rparr>]"
    by code_simp
  moreover have "snd (get_parameters1 demo_ros1 [''/private''] None 0 (onInit literal_regex demo_nodelet)) =
     snd (publish_parameter_values 0 [\<lparr>p_name = ''/private'', p_value = PString ''secret''\<rparr>] None
       (onInit literal_regex demo_nodelet))"
    using get_parameters_published [of "[''/private'']" demo_ros1 "[''/private'']" None 0 "onInit literal_regex demo_nodelet"]
    by (simp add: secret)
  ultimately show ?thesis by (intro conjI)
qed

text \<open>When the ROS master does not answer, every service is withdrawn.\<close>

lemma unanswered_query_withdraws_services:
  "case update_advertised_topics_and_services demo_ros1 (onInit literal_regex demo_nodelet) of (_, s) \<Rightarrow>
     map (sv_name \<circ> snd) (services1 s) = [''/reset''] \<and>
     services1 (snd (update_advertised_topics_and_services (demo_ros1\<lparr>getSystemState := None\<rparr>) s)) = []"
  by code_simp

text \<open>The sixty-fourth update is undefined.\<close>

lemma sixty_fourth_update_undefined:
  "fst (update_advertised_topics_and_services demo_ros1 ((onInit literal_regex demo_nodelet)\<lparr>update_count := 63\<rparr>)) =
     UB ''shift count too large''"
  by code_simp

end
