(* ===== verification/Send_Queue.thy ===== *)
theory Send_Queue
  imports Cpp_Monad "HOL-Library.Sublist"
begin

text \<open>
  The send queue of a connection as the sources patch it into the transport
  (\<open>connection_impl_hpp-fix.patch\<close>): messages wait with the time they were queued and a flag
  \<open>reliable\<close>; a message that is not reliable is dropped once it is 100 ms old.  The clock is an
  argument: \<open>clock k\<close> is the time of the \<open>k\<close>-th reading within one call.
\<close>

record out_message =
  msg_payload :: bytes
  msg_terminal :: bool

text \<open>\<open>m_send_queue\<close>, \<open>m_send_buffer_size\<close>, \<open>m_write_flag\<close>, \<open>m_current_msgs\<close>.\<close>

type_synonym queued = "uint64_t \<times> out_message \<times> bool"

record connection_queue =
  send_queue :: "queued list"
  send_buffer_size :: uint64_t
  write_flag :: bool
  current_msgs :: "out_message list"

definition empty_queue :: connection_queue where
  "empty_queue = \<lparr>send_queue = [], send_buffer_size = 0, write_flag = False, current_msgs = []\<rparr>"

definition payload_size :: "out_message \<Rightarrow> uint64_t" where
  "payload_size m = of_nat (length (msg_payload m))"

section \<open>Operations\<close>

text \<open>A null message (\<open>None\<close>) is not queued.\<close>

definition write_push :: "uint64_t \<Rightarrow> out_message option \<Rightarrow> bool \<Rightarrow> connection_queue \<Rightarrow> connection_queue" where
  "write_push now msg reliable c =
     (case msg of
        None \<Rightarrow> c
      | Some m \<Rightarrow> c\<lparr>send_buffer_size := send_buffer_size c + payload_size m,
                     send_queue := send_queue c @ [(now, m, reliable)]\<rparr>)"

text \<open>
  The loop of \<open>write_pop\<close>: \<open>msg\<close> holds the message of the last round, so the loop gives the last
  message of the queue when none is fresh or reliable.  The difference of the times wraps.
\<close>

fun pop_loop :: "uint64_t \<Rightarrow> queued list \<Rightarrow> uint64_t \<Rightarrow> out_message option \<Rightarrow> out_message option \<times> queued list \<times> uint64_t" where
  "pop_loop now [] sz msg = (msg, [], sz)"
| "pop_loop now ((time, m, reliable) # q) sz msg =
     (if now - time < 100 \<or> reliable then (Some m, q, sz - payload_size m)
      else pop_loop now q (sz - payload_size m) (Some m))"

definition write_pop :: "uint64_t \<Rightarrow> connection_queue \<Rightarrow> out_message option \<times> connection_queue" where
  "write_pop now c =
     (if send_queue c = [] then (None, c)
      else case pop_loop now (send_queue c) (send_buffer_size c) None of
             (msg, q, sz) \<Rightarrow> (msg, c\<lparr>send_queue := q, send_buffer_size := sz\<rparr>))"

lemma pop_loop_shorter: "q \<noteq> [] \<Longrightarrow> pop_loop now q sz msg = (m, q', sz') \<Longrightarrow> length q' < length q"
proof (induction now q sz msg rule: pop_loop.induct)
  case (2 now time m' reliable q sz msg)
  then show ?case by (cases "q = []") (auto split: if_splits)
qed simp

text \<open>The loop of \<open>write_frame\<close> that collects the messages of one write, with the size collected so far.\<close>

function collect :: "(nat \<Rightarrow> uint64_t) \<Rightarrow> uint64_t \<Rightarrow> connection_queue \<Rightarrow> connection_queue" where
  "collect clock total_size c =
     (if send_queue c = [] then c
      else case write_pop (clock 0) c of
             (None, c') \<Rightarrow> c'
           | (Some m, c') \<Rightarrow>
               (let c'' = c'\<lparr>current_msgs := current_msgs c' @ [m]\<rparr>;
                    total_size' = total_size + payload_size m
                in if total_size' > 1048576 then c''
                   else if msg_terminal m then c''
                   else collect (\<lambda>k. clock (Suc k)) total_size' c''))"
  by pat_completeness auto
termination
  by (relation "measure (\<lambda>(_, _, c). length (send_queue c))")
    (auto simp: write_pop_def dest: pop_loop_shorter split: prod.splits)

declare collect.simps [simp del]

text \<open>\<open>write_frame\<close> up to the call of \<open>async_write\<close>: the messages handed to the transport.\<close>

definition write_frame :: "(nat \<Rightarrow> uint64_t) \<Rightarrow> connection_queue \<Rightarrow> out_message list \<times> connection_queue" where
  "write_frame clock c =
     (if write_flag c then ([], c)
      else
        let c' = collect clock 0 c in
        if current_msgs c' = [] then ([], c')
        else (current_msgs c', c'\<lparr>write_flag := True\<rparr>))"

text \<open>The transport has written the messages.\<close>

definition handle_write_frame :: "connection_queue \<Rightarrow> connection_queue" where
  "handle_write_frame c = c\<lparr>current_msgs := [], write_flag := False\<rparr>"

section \<open>What is sent\<close>

text \<open>One call after the other, with the messages queued and the messages handed to the transport.\<close>

datatype queue_call = Push uint64_t "out_message option" bool | WriteFrame "nat \<Rightarrow> uint64_t" | Written

fun queue_calls :: "queue_call list \<Rightarrow> connection_queue \<Rightarrow> out_message list \<times> connection_queue" where
  "queue_calls [] c = ([], c)"
| "queue_calls (Push now msg reliable # cs) c = queue_calls cs (write_push now msg reliable c)"
| "queue_calls (Written # cs) c = queue_calls cs (handle_write_frame c)"
| "queue_calls (WriteFrame clock # cs) c =
     (let (sent, c') = write_frame clock c; (sent', c'') = queue_calls cs c' in (sent @ sent', c''))"

fun pushed :: "queue_call list \<Rightarrow> queued list" where
  "pushed [] = []"
| "pushed (Push now (Some m) reliable # cs) = (now, m, reliable) # pushed cs"
| "pushed (_ # cs) = pushed cs"

definition is_reliable :: "queued \<Rightarrow> bool" where
  "is_reliable = (\<lambda>(_, _, reliable). reliable)"

definition queued_msg :: "queued \<Rightarrow> out_message" where
  "queued_msg = (\<lambda>(_, m, _). m)"

text \<open>\<open>sends taken ms\<close>: of the messages \<open>taken\<close> from the queue the messages \<open>ms\<close> are sent, in order and
  with all the reliable ones.\<close>

definition sends :: "queued list \<Rightarrow> out_message list \<Rightarrow> bool" where
  "sends taken ms =
     (\<exists>kept. subseq kept taken \<and> map queued_msg kept = ms \<and> filter is_reliable kept = filter is_reliable taken)"

lemma sends_Nil: "sends [] []"
  by (auto simp: sends_def)

lemma sends_append: "sends t ms \<Longrightarrow> sends t' ms' \<Longrightarrow> sends (t @ t') (ms @ ms')"
  unfolding sends_def by (metis filter_append list_emb_append_mono map_append)

lemma sends_single: "sends [e] [queued_msg e]"
  unfolding sends_def by (intro exI [of _ "[e]"]) simp

lemma sends_skip: "\<not> is_reliable e \<Longrightarrow> sends t ms \<Longrightarrow> sends (e # t) ms"
  unfolding sends_def by (metis filter.simps(2) list_emb_Cons)

text \<open>The size of the buffer is the sum of the payloads that wait.\<close>

definition buffered :: "queued list \<Rightarrow> uint64_t" where
  "buffered q = (\<Sum>e\<leftarrow>q. payload_size (queued_msg e))"

lemma buffered_simps [simp]:
  "buffered [] = 0" "buffered (e # q) = payload_size (queued_msg e) + buffered q"
  "buffered (q @ q') = buffered q + buffered q'"
  by (simp_all add: buffered_def)

text \<open>A call of \<open>write_pop\<close> takes messages off the queue and gives the last of them.\<close>

lemma pop_loop_sends:
  assumes "q \<noteq> []"
  shows "\<exists>taken q' m. pop_loop now q (buffered q) msg = (Some m, q', buffered q') \<and> q = taken @ q' \<and>
    taken \<noteq> [] \<and> sends taken [m]"
  using assms
proof (induction q arbitrary: msg)
  case (Cons e q)
  obtain time m reliable where e: "e = (time, m, reliable)" by (cases e)
  consider "now - time < 100 \<or> reliable" | "\<not> (now - time < 100 \<or> reliable)" "q = []"
    | "\<not> (now - time < 100 \<or> reliable)" "q \<noteq> []" by blast
  then show ?case
  proof cases
    case 3
    obtain taken q' m' where IH: "pop_loop now q (buffered q) (Some m) = (Some m', q', buffered q')"
      "q = taken @ q'" "taken \<noteq> []" "sends taken [m']"
      using Cons.IH [OF 3(2)] by blast
    then show ?thesis
      using 3 sends_skip [of e taken "[m']"]
      by (intro exI [of _ "e # taken"] exI [of _ q'] exI [of _ m'])
        (simp add: e queued_msg_def is_reliable_def)
  qed (use sends_single [of e] in \<open>simp_all add: e queued_msg_def\<close>)
qed simp

lemma write_pop_sends:
  assumes "send_queue c \<noteq> []" "send_buffer_size c = buffered (send_queue c)"
  obtains taken m q' where "write_pop now c = (Some m, c\<lparr>send_queue := q', send_buffer_size := buffered q'\<rparr>)"
    "send_queue c = taken @ q'" "taken \<noteq> []" "sends taken [m]"
proof -
  obtain taken q' m where pop: "pop_loop now (send_queue c) (buffered (send_queue c)) None = (Some m, q', buffered q')"
    "send_queue c = taken @ q'" "taken \<noteq> []" "sends taken [m]"
    using pop_loop_sends [OF assms(1), of now None] by blast
  have "write_pop now c = (Some m, c\<lparr>send_queue := q', send_buffer_size := buffered q'\<rparr>)"
    using assms(1) by (simp add: write_pop_def assms(2) pop(1))
  then show thesis using pop(2-4) by (rule that)
qed

lemma collect_sends:
  assumes "send_buffer_size c = buffered (send_queue c)"
  shows "\<exists>taken ms q'. collect clock total_size c =
      c\<lparr>send_queue := q', send_buffer_size := buffered q', current_msgs := current_msgs c @ ms\<rparr> \<and>
    send_queue c = taken @ q' \<and> sends taken ms \<and> (send_queue c \<noteq> [] \<longrightarrow> ms \<noteq> [])"
  using assms
proof (induction clock total_size c rule: collect.induct)
  case (1 clock total_size c)
  show ?case
  proof (cases "send_queue c = []")
    case True
    then show ?thesis
      using 1(2) by (subst collect.simps) (auto intro!: exI [of _ "[]"] simp: sends_Nil)
  next
    case False
    obtain taken m q' where pop:
      "write_pop (clock 0) c = (Some m, c\<lparr>send_queue := q', send_buffer_size := buffered q'\<rparr>)"
      "send_queue c = taken @ q'" "taken \<noteq> []" "sends taken [m]"
      using write_pop_sends [OF False 1(2)] .
    define c1 where "c1 = c\<lparr>send_queue := q', send_buffer_size := buffered q', current_msgs := current_msgs c @ [m]\<rparr>"
    show ?thesis
    proof (cases "total_size + payload_size m > 1048576 \<or> msg_terminal m")
      case True
      then have "collect clock total_size c = c1"
        using False by (subst collect.simps) (auto simp: pop(1) c1_def Let_def)
      with pop show ?thesis unfolding c1_def by blast
    next
      case more: False
      then have run: "collect clock total_size c = collect (\<lambda>k. clock (Suc k)) (total_size + payload_size m) c1"
        using False by (subst collect.simps) (simp add: pop(1) c1_def Let_def)
      have "\<exists>taken' ms q''. collect (\<lambda>k. clock (Suc k)) (total_size + payload_size m) c1 =
          c1\<lparr>send_queue := q'', send_buffer_size := buffered q'', current_msgs := current_msgs c1 @ ms\<rparr> \<and>
        send_queue c1 = taken' @ q'' \<and> sends taken' ms \<and> (send_queue c1 \<noteq> [] \<longrightarrow> ms \<noteq> [])"
        using 1(1) [OF False pop(1) [symmetric] refl] more by (simp add: c1_def)
      then obtain taken' ms q'' where step:
        "collect (\<lambda>k. clock (Suc k)) (total_size + payload_size m) c1 =
          c1\<lparr>send_queue := q'', send_buffer_size := buffered q'', current_msgs := current_msgs c1 @ ms\<rparr>"
        "send_queue c1 = taken' @ q''" "sends taken' ms"
        by blast
      have IH: "collect clock total_size c = c\<lparr>send_queue := q'', send_buffer_size := buffered q'', current_msgs := current_msgs c @ m # ms\<rparr>"
        "q' = taken' @ q''" "sends taken' ms"
        using step by (simp_all add: run c1_def)
      have "sends (taken @ taken') (m # ms)"
        using sends_append [OF pop(4) IH(3)] by simp
      with IH(1,2) pop(2) show ?thesis
        by (intro exI [of _ "taken @ taken'"] exI [of _ "m # ms"] exI [of _ q'']) simp
    qed
  qed
qed

definition queue_inv :: "connection_queue \<Rightarrow> bool" where
  "queue_inv c = (send_buffer_size c = buffered (send_queue c) \<and> (write_flag c \<or> current_msgs c = []))"

lemma queue_inv_empty: "queue_inv empty_queue"
  by (simp add: queue_inv_def empty_queue_def)

lemma write_push_some:
  "write_push now (Some m) reliable c =
     c\<lparr>send_buffer_size := send_buffer_size c + payload_size m, send_queue := send_queue c @ [(now, m, reliable)]\<rparr>"
  by (simp add: write_push_def)

text \<open>The state after a write of \<open>ms\<close> that leaves \<open>q\<close> in the queue.\<close>

definition after_write :: "out_message list \<Rightarrow> queued list \<Rightarrow> connection_queue \<Rightarrow> connection_queue" where
  "after_write ms q c = c\<lparr>send_queue := q, send_buffer_size := buffered q, current_msgs := current_msgs c @ ms,
     write_flag := (write_flag c \<or> ms \<noteq> [])\<rparr>"

lemma after_write_simps [simp]:
  "send_queue (after_write ms q c) = q" "send_buffer_size (after_write ms q c) = buffered q"
  by (simp_all add: after_write_def)

lemma queue_inv_after_write: "queue_inv c \<Longrightarrow> queue_inv (after_write ms q c)"
  by (auto simp: queue_inv_def after_write_def)

lemma after_write_nothing: "queue_inv c \<Longrightarrow> after_write [] (send_queue c) c = c"
  by (cases c) (simp add: after_write_def queue_inv_def)

lemma write_frame_sends:
  assumes "queue_inv c"
  shows "\<exists>taken ms q'. write_frame clock c = (ms, after_write ms q' c) \<and> send_queue c = taken @ q' \<and>
    sends taken ms \<and> (write_flag c \<or> send_queue c = [] \<or> taken \<noteq> [])"
proof (cases "write_flag c")
  case True
  then have "write_frame clock c = ([], after_write [] (send_queue c) c)"
    by (simp add: write_frame_def after_write_nothing [OF assms])
  with True sends_Nil show ?thesis by (metis append_Nil)
next
  case False
  have sz: "send_buffer_size c = buffered (send_queue c)" and cur: "current_msgs c = []"
    using assms False by (simp_all add: queue_inv_def)
  obtain taken ms q' where run: "collect clock 0 c =
      c\<lparr>send_queue := q', send_buffer_size := buffered q', current_msgs := current_msgs c @ ms\<rparr>"
    "send_queue c = taken @ q'" "sends taken ms" "send_queue c \<noteq> [] \<longrightarrow> ms \<noteq> []"
    using collect_sends [OF sz, of clock 0] by (elim exE conjE) (rule that; assumption)
  have "write_frame clock c = (ms, after_write ms q' c)"
    using False by (simp add: write_frame_def run(1) cur after_write_def Let_def)
  moreover have "send_queue c = [] \<or> taken \<noteq> []"
    using run(3,4) by (auto simp: sends_def)
  ultimately show ?thesis using run(2,3) by blast
qed

lemma queue_calls_sends:
  "queue_inv c \<Longrightarrow> case queue_calls cs c of (sent, c') \<Rightarrow>
     queue_inv c' \<and> (\<exists>taken. send_queue c @ pushed cs = taken @ send_queue c' \<and> sends taken sent)"
proof (induction cs c rule: queue_calls.induct)
  case (1 c)
  then show ?case using sends_Nil by fastforce
next
  case (2 now msg reliable cs c)
  then show ?case
  proof (cases msg)
    case (Some m)
    have "queue_inv (write_push now (Some m) reliable c)"
      using 2(2) by (simp add: queue_inv_def write_push_some queued_msg_def)
    from 2(1) [unfolded Some, OF this] show ?thesis
      by (simp add: Some write_push_some)
  qed (simp add: write_push_def)
next
  case (3 cs c)
  then show ?case by (simp add: queue_inv_def handle_write_frame_def)
next
  case (4 clock cs c)
  obtain taken ms q' where run: "write_frame clock c = (ms, after_write ms q' c)"
    "send_queue c = taken @ q'" "sends taken ms"
    using write_frame_sends [OF 4(2), of clock] by (elim exE conjE) (rule that; assumption)
  have "case queue_calls cs (after_write ms q' c) of (sent, c') \<Rightarrow>
     queue_inv c' \<and> (\<exists>taken. q' @ pushed cs = taken @ send_queue c' \<and> sends taken sent)"
    using 4(1) [OF run(1) [symmetric] refl queue_inv_after_write [OF 4(2)]] by simp
  then obtain sent c' taken' where rest: "queue_calls cs (after_write ms q' c) = (sent, c')" "queue_inv c'"
    "q' @ pushed cs = taken' @ send_queue c'" "sends taken' sent"
    by (cases "queue_calls cs (after_write ms q' c)") (simp, elim exE conjE, rule that, assumption+)
  have "sends (taken @ taken') (ms @ sent)"
    by (rule sends_append [OF run(3) rest(4)])
  with rest(1-3) show ?case
    by (simp add: run(1,2) exI [of _ "taken @ taken'"])
qed

text \<open>C20: Whatever the order of the calls, the messages are handed to the transport in the order in which they
  were queued and each at most once, every reliable message that has left the queue was handed over, and the
  size of the buffer is the size of the payloads still in the queue.\<close>

theorem reliable_messages_sent:
  "case queue_calls cs empty_queue of (sent, c) \<Rightarrow>
     send_buffer_size c = buffered (send_queue c) \<and>
     (\<exists>taken kept. pushed cs = taken @ send_queue c \<and> subseq kept taken \<and> map queued_msg kept = sent \<and>
        filter is_reliable kept = filter is_reliable taken)"
  using queue_calls_sends [OF queue_inv_empty, of cs]
  by (auto simp: queue_inv_def sends_def empty_queue_def split: prod.splits)




text \<open>A message that is not reliable is sent long after its time when no other message follows it.\<close>

lemma stale_message_sent:
  "write_pop 100000 (write_push 0 (Some m) False empty_queue) = (Some m, empty_queue)"
  by (simp add: write_pop_def write_push_def empty_queue_def)

end
