(* ===== verification/Http_Server.thy ===== *)
theory Http_Server
  imports Message_Definitions "HOL-Library.Char_ord" "HOL-Library.List_Lexorder"
begin

text \<open>
  The HTTP server that tells a client which device it talks to (\<open>http_server.cpp\<close>), and the network
  addresses the bridges report.  The system calls are arguments: the list of interfaces of
  \<open>getifaddrs\<close>, the answers of \<open>ioctl\<close> and the events of the listening socket; so is the dump of a
  JSON value.
\<close>

section \<open>Network interfaces\<close>

datatype sockaddr = NoAddress | Inet uint8_t uint8_t uint8_t uint8_t | OtherFamily

text \<open>\<open>ifa_socket\<close>: the socket opened to ask for the hardware address could be created.\<close>

record ifaddr =
  ifa_name :: string
  ifa_addr :: sockaddr
  ifa_socket :: bool

text \<open>\<open>SIOCGIFHWADDR\<close> gives the bytes of \<open>sa_data\<close>, \<open>None\<close> on failure.\<close>

record interfaces =
  getifaddrs :: "ifaddr list option"
  SIOCGIFHWADDR :: "string \<Rightarrow> bytes option"

definition hex_digit :: "nat \<Rightarrow> char" where
  "hex_digit n = (if n < 10 then char_of (48 + n) else char_of (87 + n))"

definition hex_byte :: "uint8_t \<Rightarrow> string" where
  "hex_byte b = [hex_digit (unat b div 16), hex_digit (unat b mod 16)]"

definition mac_string :: "bytes \<Rightarrow> string" where
  "mac_string mac = join '':'' (map hex_byte (take 6 mac))"

text \<open>The address of one interface, if it has one that is not zero; \<open>snprintf\<close> cuts its name to 15 characters.\<close>

definition mac_of :: "interfaces \<Rightarrow> ifaddr \<Rightarrow> string option" where
  "mac_of I ifa =
     (if ifa_addr ifa = NoAddress \<or> \<not> ifa_socket ifa then None
      else case SIOCGIFHWADDR I (take 15 (ifa_name ifa)) of
             None \<Rightarrow> None
           | Some mac \<Rightarrow> if \<forall>b \<in> set (take 6 mac). b = 0 then None else Some (mac_string mac))"

text \<open>\<open>std::sort\<close> followed by \<open>erase(unique(..))\<close>.\<close>

definition sort_unique :: "string list \<Rightarrow> string list" where
  "sort_unique xs = remdups_adj (sort xs)"

definition get_dev_mac_addr :: "interfaces \<Rightarrow> bool \<times> string" where
  "get_dev_mac_addr I =
     (case getifaddrs I of
        None \<Rightarrow> (False, [])
      | Some ifs \<Rightarrow>
          let mac_addresses = join '','' (sort_unique (List.map_filter (mac_of I) ifs))
          in (mac_addresses \<noteq> [], mac_addresses))"

text \<open>\<open>inet_ntop\<close>.\<close>

definition dotted :: "uint8_t \<Rightarrow> uint8_t \<Rightarrow> uint8_t \<Rightarrow> uint8_t \<Rightarrow> string" where
  "dotted a b c d = join ''.'' (map (to_string \<circ> unat) [a, b, c, d])"

definition add_ip_addr :: "ifaddr \<Rightarrow> string list \<times> string \<Rightarrow> string list \<times> string" where
  "add_ip_addr ifa = (\<lambda>(ip_addresses, colink_ip).
     case ifa_addr ifa of
       Inet a b c d \<Rightarrow>
         let ip_str = dotted a b c d in
         if ip_str = ''127.0.0.1'' then (ip_addresses, colink_ip)
         else if ifa_name ifa = ''colink'' then
           (case find_last_of ip_str (CHR ''.'') of
              None \<Rightarrow> (ip_addresses, colink_ip)
            | Some last_dot \<Rightarrow> (ip_addresses, take (last_dot + 1) ip_str @ ''1''))
         else (ip_addresses @ [ip_str], colink_ip)
     | _ \<Rightarrow> (ip_addresses, colink_ip))"

definition get_dev_ip_addrs :: "interfaces \<Rightarrow> bool \<times> string list \<times> string" where
  "get_dev_ip_addrs I =
     (case getifaddrs I of
        None \<Rightarrow> (False, [], [])
      | Some ifs \<Rightarrow>
          (case fold add_ip_addr ifs ([], []) of
             (ip_addresses, colink_ip) \<Rightarrow>
               (sort_unique ip_addresses \<noteq> [], sort_unique ip_addresses, colink_ip)))"

section \<open>The server\<close>

record http_server =
  http_port :: int
  http_mac_addresses :: string
  http_ip_addresses :: "string list"
  running :: bool

definition HttpServer :: "int \<Rightarrow> string \<Rightarrow> string list \<Rightarrow> http_server" where
  "HttpServer port mac_addresses ip_addresses =
     \<lparr>http_port = port, http_mac_addresses = mac_addresses, http_ip_addresses = ip_addresses, running = False\<rparr>"

text \<open>\<open>start\<close> starts the thread of \<open>run_server\<close> when the first component holds; \<open>stop\<close> joins it.\<close>

definition start_http :: "http_server \<Rightarrow> bool \<times> http_server" where
  "start_http h = (if running h then (False, h) else (True, h\<lparr>running := True\<rparr>))"

definition stop_http :: "http_server \<Rightarrow> http_server" where
  "stop_http h = (if running h then h\<lparr>running := False\<rparr> else h)"

definition header_lines :: "string list \<Rightarrow> string" where
  "header_lines ls = concat (map (\<lambda>l. l @ NL) ls)"

definition http_response :: "(json \<Rightarrow> string) \<Rightarrow> string \<Rightarrow> string" where
  "http_response dump mac_addresses =
     (let json_str = dump (jobject [(''macAddr'', JStr mac_addresses)]) in
      header_lines [''HTTP/1.1 200 OK'', ''Content-Type: application/json'', ''Access-Control-Allow-Origin: *'',
        ''Connection: close'', ''Content-Length: '' @ to_string (length json_str)] @ NL @ json_str)"

definition not_found_response :: string where
  "not_found_response =
     header_lines [''HTTP/1.1 404 Not Found'', ''Content-Type: text/plain'', ''Connection: close'', ''Content-Length: 9''] @
     NL @ ''Not Found''"

text \<open>\<open>std::string request(buffer)\<close>: the text ends at the first zero byte.\<close>

definition request_text :: "bytes \<Rightarrow> string" where
  "request_text buffer = string_of_bytes (takeWhile (\<lambda>b. b \<noteq> 0) (take 4095 buffer))"

definition request_path :: "string \<Rightarrow> string option" where
  "request_path request =
     (case str_find0 ''GET '' request of
        None \<Rightarrow> None
      | Some p \<Rightarrow>
          let path_start = p + 4 in
          (case str_find request '' HTTP/'' path_start of
             None \<Rightarrow> None
           | Some path_end \<Rightarrow>
               if path_start < path_end then Some (take (path_end - path_start) (drop path_start request)) else None))"

text \<open>What is sent for the bytes that were read; nothing when \<open>read\<close> gave none.\<close>

definition answer :: "(json \<Rightarrow> string) \<Rightarrow> string \<Rightarrow> bytes \<Rightarrow> string option" where
  "answer dump mac_addresses buffer =
     (if buffer = [] then None
      else if request_path (request_text buffer) = Some ''/device-info''
      then Some (http_response dump mac_addresses)
      else Some not_found_response)"

text \<open>One round of the loop: what \<open>select\<close>, \<open>accept\<close> and \<open>read\<close> give; \<open>running\<close> may be cleared in between.\<close>

datatype http_event = SelectFailed | SelectTimeout | AcceptFailed | Request bytes | StopCalled

fun serve :: "(json \<Rightarrow> string) \<Rightarrow> http_event list \<Rightarrow> http_server \<Rightarrow> string list \<times> http_server" where
  "serve dump [] h = ([], h)"
| "serve dump (StopCalled # es) h = ([], stop_http h)"
| "serve dump (Request buffer # es) h =
     (case serve dump es h of
        (sent, h') \<Rightarrow> (case answer dump (http_mac_addresses h) buffer of
                        None \<Rightarrow> (sent, h')
                      | Some r \<Rightarrow> (r # sent, h')))"
| "serve dump (_ # es) h = serve dump es h"

text \<open>\<open>listening\<close>: the socket could be created, bound and listened on.\<close>

definition run_server :: "(json \<Rightarrow> string) \<Rightarrow> bool \<Rightarrow> http_event list \<Rightarrow> http_server \<Rightarrow> string list \<times> http_server" where
  "run_server dump listening events h = (if listening then serve dump events h else ([], h))"

section \<open>Addresses\<close>

lemma sort_unique_set: "set (sort_unique xs) = set xs"
  by (simp add: sort_unique_def)

lemma strictly_sorted_remdups_adj:
  fixes xs :: "'a :: linorder list"
  shows "sorted xs \<Longrightarrow> sorted_wrt (<) (remdups_adj xs)"
proof (induction xs rule: remdups_adj.induct)
  case (3 x y xs)
  then show ?case
    by (cases "x = y") (auto simp: less_le)
qed simp_all

lemma sort_unique_sorted: "sorted_wrt (<) (sort_unique xs)"
  unfolding sort_unique_def by (rule strictly_sorted_remdups_adj) simp

lemma hex_digit_comma: "n < 16 \<Longrightarrow> hex_digit n \<noteq> CHR '',''"
  by (cases "n < 10") (simp_all add: hex_digit_def char_of_eq_iff take_bit_eq_mod)

lemma nibbles: "unat (b :: uint8_t) div 16 < 16" "unat b mod 16 < 16"
proof -
  have "unat b < 256" using unsigned_less [of b] by simp
  then show "unat b div 16 < 16" "unat b mod 16 < 16" by simp_all
qed

lemma comma_join: "CHR '','' \<notin> set (join d xs)" if "CHR '','' \<notin> set d" "\<forall>x \<in> set xs. CHR '','' \<notin> set x"
  using that by (induction d xs rule: join.induct) auto

lemma mac_string_no_comma: "CHR '','' \<notin> set (mac_string mac)"
  unfolding mac_string_def
proof (rule comma_join)
  show "\<forall>x \<in> set (map hex_byte (take 6 mac)). CHR '','' \<notin> set x"
    by (auto simp: hex_byte_def nibbles hex_digit_comma [symmetric])
qed simp

lemma mac_of_text: "mac_of I ifa = Some m \<Longrightarrow> m \<noteq> [] \<and> CHR '','' \<notin> set m"
proof -
  assume "mac_of I ifa = Some m"
  then obtain mac b where "m = mac_string mac" "b \<in> set (take 6 mac)"
    by (auto simp: mac_of_def split: if_splits option.splits)
  moreover have "join '':'' (map hex_byte bs) \<noteq> []" if "bs \<noteq> []" for bs
    using that by (cases bs rule: remdups_adj.cases) (simp_all add: hex_byte_def)
  ultimately show ?thesis
    using mac_string_no_comma [of mac] unfolding mac_string_def by (metis empty_iff list.set(1))
qed

text \<open>The addresses the model reports: those of the interfaces that have one.\<close>

definition macs :: "interfaces \<Rightarrow> ifaddr list \<Rightarrow> string set" where
  "macs I ifs = {m. \<exists>ifa \<in> set ifs. mac_of I ifa = Some m}"

text \<open>The text of the hardware addresses lists the nonzero address of every interface once, in order, separated
  by commas, so that splitting it at the commas gives them back; the call succeeds exactly when there is one.\<close>

lemma mac_addresses_listed:
  assumes "getifaddrs I = Some ifs"
  shows "\<exists>l. get_dev_mac_addr I = (l \<noteq> [], join '','' l) \<and> set l = macs I ifs \<and> sorted_wrt (<) l \<and>
    (l \<noteq> [] \<longrightarrow> split_string (join '','' l) '','' = l)"
proof -
  define l where "l = sort_unique (List.map_filter (mac_of I) ifs)"
  have l: "set l = macs I ifs"
    by (force simp: l_def sort_unique_set macs_def List.map_filter_def)
  then have plain: "\<forall>m \<in> set l. m \<noteq> [] \<and> CHR '','' \<notin> set m"
    by (auto simp: macs_def dest: mac_of_text)
  then have "join '','' l = [] \<longleftrightarrow> l = []"
    by (cases l rule: remdups_adj.cases) simp_all
  moreover have "l \<noteq> [] \<longrightarrow> split_string (join '','' l) '','' = l"
    using plain by (auto intro: split_string_join)
  moreover have "get_dev_mac_addr I = (join '','' l \<noteq> [], join '','' l)"
    by (simp add: get_dev_mac_addr_def assms l_def Let_def)
  moreover have "sorted_wrt (<) l"
    by (simp add: l_def sort_unique_sorted)
  ultimately show ?thesis using l by (intro exI [of _ l]) simp
qed

definition lab :: interfaces where
  "lab = \<lparr>getifaddrs = Some
      [\<lparr>ifa_name = ''lo'', ifa_addr = Inet 127 0 0 1, ifa_socket = True\<rparr>,
       \<lparr>ifa_name = ''wlan0'', ifa_addr = Inet 192 168 1 20, ifa_socket = True\<rparr>,
       \<lparr>ifa_name = ''eth0'', ifa_addr = OtherFamily, ifa_socket = True\<rparr>,
       \<lparr>ifa_name = ''colink'', ifa_addr = Inet 10 0 3 77, ifa_socket = False\<rparr>],
     SIOCGIFHWADDR = (\<lambda>name. if name = ''lo'' then Some (replicate 14 0)
       else if name = ''eth0'' then Some ([2, 66, 172, 17, 0, 2] @ replicate 8 0)
       else if name = ''wlan0'' then Some ([164, 178, 57, 1, 254, 16] @ replicate 8 0) else None)\<rparr>"

lemma mac_addresses_listed_witness:
  "(\<exists>l. get_dev_mac_addr lab = (l \<noteq> [], join '','' l) \<and> set l = macs lab (the (getifaddrs lab)) \<and>
      sorted_wrt (<) l \<and> (l \<noteq> [] \<longrightarrow> split_string (join '','' l) '','' = l)) \<and>
   get_dev_mac_addr lab = (True, ''02:42:ac:11:00:02,a4:b2:39:01:fe:10'') \<and>
   get_dev_ip_addrs lab = (True, [''192.168.1.20''], ''10.0.3.1'')"
proof -
  have "getifaddrs lab = Some (the (getifaddrs lab))" by (simp add: lab_def)
  note mac_addresses_listed [OF this]
  moreover have "get_dev_mac_addr lab = (True, ''02:42:ac:11:00:02,a4:b2:39:01:fe:10'')" by code_simp
  moreover have "get_dev_ip_addrs lab = (True, [''192.168.1.20''], ''10.0.3.1'')" by code_simp
  ultimately show ?thesis by blast
qed

section \<open>Answers\<close>

lemma find_first: "c \<notin> set u \<Longrightarrow> str_find0 (c # n) (u @ c # n @ v) = Some (length u)"
  by (induction u) auto

lemma find_blank_line:
  "CHR 0x0A \<notin> set l \<Longrightarrow> str_find0 [CHR 0x0A, CHR 0x0A] (l @ CHR 0x0A # t) =
     (if starts_with NL t then Some (length l)
      else map_option (\<lambda>i. length l + (1 + i)) (str_find0 [CHR 0x0A, CHR 0x0A] t))"
proof (induction l)
  case Nil
  then show ?case by (cases t) (auto simp: NL_def)
qed (auto simp: option.map_comp o_def)

lemma find_headers_end:
  assumes "ls \<noteq> []" "\<forall>l \<in> set ls. l \<noteq> [] \<and> CHR 0x0A \<notin> set l"
  shows "str_find0 (NL @ NL) (header_lines ls @ NL @ body) = Some (length (header_lines ls) - 1)"
  using assms
proof (induction ls)
  case (Cons l ls)
  show ?case
  proof (cases ls)
    case Nil
    then show ?thesis using Cons.prems find_blank_line [of l "NL @ body"] by (simp add: header_lines_def NL_def)
  next
    case (Cons l' ls')
    then have "l' \<noteq> []" "CHR 0x0A \<notin> set l'" using Cons.prems by auto
    then have "\<not> starts_with NL (header_lines ls @ NL @ body)" "header_lines ls \<noteq> []"
      by (cases l'; auto simp: Cons header_lines_def NL_def)+
    then show ?thesis
      using Cons.IH Cons.prems find_blank_line [of l "header_lines ls @ NL @ body"]
      by (simp add: Cons header_lines_def NL_def)
  qed
qed simp

text \<open>How a client reads a response: the value of the last header, and the body after the blank line.\<close>

definition read_response :: "string \<Rightarrow> (nat \<times> string) option" where
  "read_response r =
     (case str_find0 (NL @ NL) r of
        None \<Rightarrow> None
      | Some p \<Rightarrow> (case find_last_of (take p r) (CHR '':'') of
                    None \<Rightarrow> None
                  | Some i \<Rightarrow> Some (parse_nat (drop (i + 2) (take p r)), drop (p + 2) r)))"

lemma read_response_lines:
  assumes "ls \<noteq> []" "\<forall>l \<in> set ls. l \<noteq> [] \<and> CHR 0x0A \<notin> set l"
    and "header_lines ls = pre @ '': '' @ to_string n @ NL" "CHR '':'' \<notin> set (to_string n)"
  shows "read_response (header_lines ls @ NL @ body) = Some (n, body)"
proof -
  have "take (length (header_lines ls) - 1) (header_lines ls @ NL @ body) = pre @ CHR '':'' # CHR '' '' # to_string n"
    "drop (length (header_lines ls) - 1 + 2) (header_lines ls @ NL @ body) = body"
    by (simp_all add: assms(3) NL_def numeral_eq_Suc)
  moreover have "find_last_of (pre @ CHR '':'' # CHR '' '' # to_string n) (CHR '':'') = Some (length pre)"
    by (rule find_last_of_append) (simp add: assms(4))
  ultimately show ?thesis
    unfolding read_response_def find_headers_end [OF assms(1,2)] option.case by (simp add: parse_to_string)
qed

lemma to_string_chars: "set (to_string n) \<subseteq> char_of ` {48..57 :: nat}"
proof (induction n rule: to_string.induct)
  case (1 n)
  show ?case
  proof (cases "n < 10")
    case True
    then show ?thesis by (subst to_string.simps) auto
  next
    case False
    moreover have "char_of (48 + n mod 10) \<in> char_of ` {48..57 :: nat}" by (rule imageI) simp
    ultimately show ?thesis using 1 by (subst to_string.simps) simp
  qed
qed

lemma to_string_no: "c \<notin> char_of ` {48..57 :: nat} \<Longrightarrow> c \<notin> set (to_string n)"
  using to_string_chars by blast

lemma no_digits [simp]: "CHR 0x0A \<notin> set (to_string n)" "CHR '':'' \<notin> set (to_string n)"
  by (rule to_string_no, rule, elim imageE, simp add: eq_commute [of _ "char_of _"] char_of_eq_iff take_bit_eq_mod)+

lemma request_text_bytes:
  assumes "length r \<le> 4095" "CHR 0x00 \<notin> set r"
  shows "request_text (bytes_of_string r) = r"
proof -
  have "\<forall>b \<in> set (bytes_of_string r). b \<noteq> 0"
  proof
    fix b assume "b \<in> set (bytes_of_string r)"
    then obtain c where c: "c \<in> set r" "b = byte_of_char c"
      by (auto simp: bytes_of_string_def)
    have "char_of_byte 0 = CHR 0x00" by code_simp
    with c assms(2) show "b \<noteq> 0" by (metis char_of_byte_of_char)
  qed
  then have "takeWhile (\<lambda>b. b \<noteq> 0) (bytes_of_string r) = bytes_of_string r"
    by (simp add: takeWhile_eq_all_conv)
  moreover have "take 4095 (bytes_of_string r) = bytes_of_string r"
    using assms(1) by simp
  ultimately show ?thesis by (simp only: request_text_def string_of_bytes_of_string)
qed

lemma request_path_get:
  assumes "path \<noteq> []" "CHR '' '' \<notin> set path"
  shows "request_path (''GET '' @ path @ '' HTTP/'' @ version) = Some path"
proof -
  have "str_find (''GET '' @ path @ '' HTTP/'' @ version) '' HTTP/'' 4 = Some (4 + length path)"
    using find_first [OF assms(2), of "''HTTP/''" version] by (simp add: str_find_def)
  with assms(1) show ?thesis by (simp add: request_path_def)
qed

lemma http_response_read:
  "read_response (http_response dump mac) =
     (let body = dump (jobject [(''macAddr'', JStr mac)]) in Some (length body, body))"
proof -
  define body where "body = dump (jobject [(''macAddr'', JStr mac)])"
  define ls where "ls = [''HTTP/1.1 200 OK'', ''Content-Type: application/json'', ''Access-Control-Allow-Origin: *'',
        ''Connection: close'', ''Content-Length: '' @ to_string (length body)]"
  have "read_response (header_lines ls @ NL @ body) = Some (length body, body)"
    by (rule read_response_lines [where pre = "header_lines (butlast ls) @ ''Content-Length''"])
      (simp_all add: ls_def header_lines_def)
  then show ?thesis by (simp add: http_response_def body_def ls_def Let_def)
qed

text \<open>C22: A request for a path without blanks gets the device information exactly for the path
  \<open>/device-info\<close> and \<open>Not Found\<close> otherwise.  Both responses carry the length of their body, so that a client
  reads back the JSON object with the addresses.\<close>

theorem device_info_answered:
  assumes "request = ''GET '' @ path @ '' HTTP/'' @ version" "length request \<le> 4095"
    and "CHR 0x00 \<notin> set request" "path \<noteq> []" "CHR '' '' \<notin> set path"
  shows "\<exists>response. answer dump mac (bytes_of_string request) = Some response \<and>
    read_response response =
      (let body = (if path = ''/device-info'' then dump (jobject [(''macAddr'', JStr mac)]) else ''Not Found'')
       in Some (length body, body))"
proof -
  have "bytes_of_string request \<noteq> []" by (simp add: assms(1) bytes_of_string_def)
  then have "answer dump mac (bytes_of_string request) =
      Some (if path = ''/device-info'' then http_response dump mac else not_found_response)"
    using request_path_get [OF assms(4,5), of version] request_text_bytes [OF assms(2,3)]
    by (simp add: answer_def assms(1))
  moreover have "read_response not_found_response = Some (length ''Not Found'', ''Not Found'')"
    by code_simp
  ultimately show ?thesis by (simp add: http_response_read)
qed

theorem device_info_answered_witness:
  "\<exists>response. answer (\<lambda>_. ''{}'') ''02:42'' (bytes_of_string ''GET /device-info HTTP/1.1'') = Some response \<and>
    read_response response = Some (2, ''{}'')"
  using device_info_answered [of "''GET /device-info HTTP/1.1''" "''/device-info''" "''1.1''" "\<lambda>_. ''{}''" "''02:42''"]
  by (simp add: numeral_2_eq_2)

text \<open>\<open>GET\<close> is looked for anywhere in the request, so another method is answered the same way.\<close>

lemma other_method_answered:
  "answer dump mac (bytes_of_string ''POST /GET /device-info HTTP/1.1'') = Some (http_response dump mac)"
proof -
  have "request_path (request_text (bytes_of_string ''POST /GET /device-info HTTP/1.1'')) = Some ''/device-info''"
    by code_simp
  moreover have "bytes_of_string ''POST /GET /device-info HTTP/1.1'' \<noteq> []" by code_simp
  ultimately show ?thesis unfolding answer_def by (simp only: if_True if_False simp_thms)
qed

text \<open>When the port cannot be used the thread ends, but the server still counts as running and does not start again.\<close>

lemma failed_start_is_final:
  assumes "start_http h = (True, h')" "run_server dump False events h' = (sent, h'')"
  shows "start_http h'' = (False, h'')"
  using assms by (auto simp: start_http_def run_server_def split: if_splits)

end
