(* ===== verification/Standard.thy ===== *)
theory Standard
  imports Serialization
begin

text \<open>
  The replacements for \<open>std::any\<close>, \<open>std::string_view\<close> and \<open>std::optional\<close> in \<open>standard.hpp\<close>, which the sources use
  with compilers that do not have them, and \<open>ParameterValue\<close> as the class it is: a type tag and an \<open>any\<close>.  The rest of the
  development uses \<open>option\<close>, lists and the datatype \<open>parameter_value\<close>; this theory shows that the classes implement
  them.
\<close>

section \<open>Types\<close>

text \<open>An object type is a type without qualifiers, named, and its qualifiers; types are object types and references.\<close>

record obj_type =
  t_const :: bool
  t_volatile :: bool
  t_name :: string

datatype cpp_type = Object obj_type | LRef obj_type | RRef obj_type

abbreviation plain :: "string \<Rightarrow> cpp_type" where
  "plain n \<equiv> Object \<lparr>t_const = False, t_volatile = False, t_name = n\<rparr>"

fun remove_cv :: "cpp_type \<Rightarrow> cpp_type" where
  "remove_cv (Object q) = Object (q\<lparr>t_const := False, t_volatile := False\<rparr>)"
| "remove_cv T = T"

fun remove_reference :: "cpp_type \<Rightarrow> cpp_type" where
  "remove_reference (LRef q) = Object q"
| "remove_reference T = T"

definition decay :: "cpp_type \<Rightarrow> cpp_type" where
  "decay T = remove_cv (remove_reference T)"

text \<open>The operator \<open>typeid\<close> looks through references and qualifiers.\<close>

fun typeid :: "cpp_type \<Rightarrow> string" where
  "typeid (Object q) = t_name q"
| "typeid (LRef q) = t_name q"
| "typeid (RRef q) = t_name q"

fun add_const :: "cpp_type \<Rightarrow> cpp_type" where
  "add_const (Object q) = Object (q\<lparr>t_const := True\<rparr>)"
| "add_const T = T"

fun lvalue_ref :: "cpp_type \<Rightarrow> cpp_type" where
  "lvalue_ref (Object q) = LRef q"
| "lvalue_ref (LRef q) = LRef q"
| "lvalue_ref (RRef q) = LRef q"

section \<open>The class any\<close>

text \<open>
  Objects of the class and the storages they point to, by address.  A \<open>_Storage<T>\<close> has its type and its value.
  Addresses are not used again.
\<close>

record 'v storage =
  st_type :: cpp_type
  M_value :: 'v

record 'v memory =
  objects :: "nat \<Rightarrow> nat option option"
  storages :: "nat \<Rightarrow> 'v storage option"
  next_address :: nat

definition new_storage :: "cpp_type \<Rightarrow> 'v \<Rightarrow> ('v memory, nat) cpp" where
  "new_storage T v =
     bind (gets next_address) (\<lambda>a.
     seq (modify (\<lambda>s. s\<lparr>storages := (storages s)(a := Some \<lparr>st_type = T, M_value = v\<rparr>), next_address := a + 1\<rparr>)) (
     ret a))"

definition delete_storage :: "nat option \<Rightarrow> ('v memory, unit) cpp" where
  "delete_storage p =
     (case p of
        None \<Rightarrow> ret ()
      | Some a \<Rightarrow>
          bind (gets (\<lambda>s. storages s a)) (\<lambda>c.
          case c of
            None \<Rightarrow> lift (UB ''delete of a dangling pointer'')
          | Some _ \<Rightarrow> modify (\<lambda>s. s\<lparr>storages := (storages s)(a := None)\<rparr>)))"

definition storage_at :: "nat \<Rightarrow> ('v memory, 'v storage) cpp" where
  "storage_at a =
     bind (gets (\<lambda>s. storages s a)) (\<lambda>c.
     case c of None \<Rightarrow> lift (UB ''use of a dangling pointer'') | Some st \<Rightarrow> ret st)"


definition M_storage :: "nat \<Rightarrow> ('v memory, nat option) cpp" where
  "M_storage this =
     bind (gets (\<lambda>s. objects s this)) (\<lambda>x.
     case x of None \<Rightarrow> lift (UB ''use of an object outside its lifetime'') | Some p \<Rightarrow> ret p)"

definition set_M_storage :: "nat \<Rightarrow> nat option \<Rightarrow> ('v memory, unit) cpp" where
  "set_M_storage this p = modify (\<lambda>s. s\<lparr>objects := (objects s)(this := Some p)\<rparr>)"


definition any_default :: "nat \<Rightarrow> ('v memory, unit) cpp" where
  "any_default this = set_M_storage this None"


text \<open>A value is passed by reference: it is outside of the storages or in one of them.\<close>

datatype 'v value_ref = Outside 'v | Inside nat

definition read_ref :: "'v value_ref \<Rightarrow> ('v memory, 'v) cpp" where
  "read_ref r = (case r of Outside v \<Rightarrow> ret v | Inside a \<Rightarrow> bind (storage_at a) (\<lambda>st. ret (M_value st)))"

definition any_of :: "nat \<Rightarrow> cpp_type \<Rightarrow> 'v value_ref \<Rightarrow> ('v memory, unit) cpp" where
  "any_of this T r =
     bind (read_ref r) (\<lambda>v.
     bind (new_storage (decay T) v) (\<lambda>a.
     set_M_storage this (Some a)))"



definition any_assign_value :: "nat \<Rightarrow> cpp_type \<Rightarrow> 'v value_ref \<Rightarrow> ('v memory, unit) cpp" where
  "any_assign_value this T rhs =
     bind (M_storage this) (\<lambda>p.
     seq (delete_storage p) (
     bind (read_ref rhs) (\<lambda>v.
     bind (new_storage (decay T) v) (\<lambda>a.
     set_M_storage this (Some a)))))"

definition any_has_value :: "nat \<Rightarrow> ('v memory, bool) cpp" where
  "any_has_value this = bind (M_storage this) (\<lambda>p. ret (p \<noteq> None))"

definition any_type :: "nat \<Rightarrow> ('v memory, string) cpp" where
  "any_type this =
     bind (M_storage this) (\<lambda>p.
     case p of
       None \<Rightarrow> ret (typeid (plain ''void''))
     | Some a \<Rightarrow> bind (storage_at a) (\<lambda>st. ret (typeid (st_type st))))"



text \<open>
  The downcast to \<open>_Storage<T>\<close>: what it does for an object of another class is up to the compiler,
  \<open>layout\<close> says for which classes the object can be used as one of the other class.
\<close>

definition as_storage :: "(cpp_type \<Rightarrow> cpp_type \<Rightarrow> bool) \<Rightarrow> cpp_type \<Rightarrow> nat option \<Rightarrow> ('v memory, nat) cpp" where
  "as_storage layout T p =
     (case p of
        None \<Rightarrow> lift (UB ''member of a null pointer'')
      | Some a \<Rightarrow>
          bind (storage_at a) (\<lambda>st.
          if layout (st_type st) T then ret a else lift (UB ''downcast to another class'')))"

definition any_cast_pointer ::
    "(cpp_type \<Rightarrow> cpp_type \<Rightarrow> bool) \<Rightarrow> cpp_type \<Rightarrow> nat option \<Rightarrow> ('v memory, nat option) cpp" where
  "any_cast_pointer layout T operand =
     (case operand of
        None \<Rightarrow> ret None
      | Some x \<Rightarrow>
          bind (any_type x) (\<lambda>ty.
          if ty = typeid T
          then bind (M_storage x) (\<lambda>p. bind (as_storage layout T p) (\<lambda>a. ret (Some a)))
          else ret None))"

definition any_cast :: "(cpp_type \<Rightarrow> cpp_type \<Rightarrow> bool) \<Rightarrow> cpp_type \<Rightarrow> nat \<Rightarrow> ('v memory, 'v) cpp" where
  "any_cast layout T operand =
     bind (any_cast_pointer layout (remove_reference T) (Some operand)) (\<lambda>result.
     case result of
       None \<Rightarrow> throw (StdException ''bad any_cast'')
     | Some a \<Rightarrow> bind (storage_at a) (\<lambda>st. ret (M_value st)))"

section \<open>Ownership and values\<close>

text \<open>Every object owns its storage, no storage is left without an owner, and none has two.\<close>

definition owns_storages :: "'v memory \<Rightarrow> bool" where
  "owns_storages s \<longleftrightarrow>
     (\<forall>x a. objects s x = Some (Some a) \<longrightarrow> storages s a \<noteq> None) \<and>
     (\<forall>a. storages s a \<noteq> None \<longrightarrow> a < next_address s \<and> (\<exists>x. objects s x = Some (Some a))) \<and>
     (\<forall>x y a. objects s x = Some (Some a) \<longrightarrow> objects s y = Some (Some a) \<longrightarrow> x = y)"

text \<open>The abstract value of an object: nothing, or a type and a value.  It is outside its lifetime with \<open>None\<close>.\<close>

type_synonym 'v any_value = "(cpp_type \<times> 'v) option"

definition contents :: "'v memory \<Rightarrow> nat \<Rightarrow> 'v any_value option" where
  "contents s x =
     map_option (\<lambda>p. case p of None \<Rightarrow> None | Some a \<Rightarrow> map_option (\<lambda>st. (st_type st, M_value st)) (storages s a)) (objects s x)"



definition alive :: "'v memory \<Rightarrow> nat \<Rightarrow> bool" where
  "alive s x \<longleftrightarrow> objects s x \<noteq> None"

fun ref_value :: "'v memory \<Rightarrow> 'v value_ref \<Rightarrow> 'v option" where
  "ref_value s (Outside v) = Some v"
| "ref_value s (Inside a) = map_option M_value (storages s a)"



lemma owns_storagesD:
  assumes "owns_storages s"
  shows "objects s x = Some (Some a) \<Longrightarrow> \<exists>st. storages s a = Some st"
    and "storages s a = Some st \<Longrightarrow> a < next_address s"
    and "storages s a = Some st \<Longrightarrow> \<exists>x. objects s x = Some (Some a)"
    and "objects s x = Some (Some a) \<Longrightarrow> objects s y = Some (Some a) \<Longrightarrow> x = y"
  using assms unfolding owns_storages_def by blast+

text \<open>What the operations do to the memory: the storage of an object is released, and the object gets a new one.\<close>

definition clear :: "nat \<Rightarrow> 'v memory \<Rightarrow> 'v memory" where
  "clear x s = s\<lparr>storages := (\<lambda>a. if objects s x = Some (Some a) then None else storages s a)\<rparr>"

definition put :: "nat \<Rightarrow> 'v any_value \<Rightarrow> 'v memory \<Rightarrow> 'v memory" where
  "put x c s =
     (case c of
        None \<Rightarrow> s\<lparr>objects := (objects s)(x := Some None)\<rparr>
      | Some (T, v) \<Rightarrow> s\<lparr>objects := (objects s)(x := Some (Some (next_address s))),
          storages := (storages s)(next_address s := Some \<lparr>st_type = T, M_value = v\<rparr>), next_address := next_address s + 1\<rparr>)"

lemma clear_fresh: "\<not> alive s x \<Longrightarrow> clear x s = s"
  by (simp add: clear_def alive_def)

lemma objects_clear [simp]: "objects (clear x s) = objects s"
  by (simp add: clear_def)

lemma owns_store:
  assumes "owns_storages s"
  shows "owns_storages (put x c (clear x s))"
  using assms unfolding owns_storages_def
  by (auto simp: put_def clear_def split: option.splits if_splits)

lemma contents_store:
  assumes "owns_storages s"
  shows "contents (put x c (clear x s)) = (contents s)(x := Some c)"
proof
  fix y
  show "contents (put x c (clear x s)) y = ((contents s)(x := Some c)) y"
  proof (cases "y = x")
    case True
    then show ?thesis by (auto simp: contents_def put_def clear_def split: option.splits)
  next
    case False
    have "a \<noteq> next_address s \<and> objects s x \<noteq> Some (Some a)" if "objects s y = Some (Some a)" for a
      using owns_storagesD(1,2,4) [OF assms] that False by blast
    then show ?thesis
      using False by (cases "objects s y") (auto simp: contents_def put_def clear_def split: option.splits)
  qed
qed

lemma delete_clear:
  assumes "owns_storages s" "objects s x = Some p"
  shows "delete_storage p s = (Ok (), clear x s)"
proof (cases p)
  case None
  then show ?thesis using assms(2) by (simp add: delete_storage_def clear_def cpp_defs)
next
  case (Some a)
  then obtain st where "storages s a = Some st" using assms owns_storagesD(1) by blast
  moreover have "(\<lambda>b. if a = b then None else storages s b) = (storages s)(a := None)" by auto
  ultimately show ?thesis using Some assms(2) by (simp add: delete_storage_def clear_def cpp_defs)
qed

lemma new_put: "bind (new_storage T v) (\<lambda>a. set_M_storage x (Some a)) s = (Ok (), put x (Some (T, v)) s)"
  by (simp add: new_storage_def set_M_storage_def put_def cpp_defs)


lemma M_storage_alive: "objects s x = Some p \<Longrightarrow> bind (M_storage x) k s = k p s"
  by (simp add: M_storage_def cpp_defs)


lemma ref_alive:
  assumes "ref_value s r = Some v"
  shows "bind (read_ref r) k s = k v s"
  using assms by (cases r) (auto simp: read_ref_def storage_at_def cpp_defs)

lemma deleting:
  assumes "owns_storages s" "objects s x = Some p"
  shows "bind (M_storage x) (\<lambda>p. seq (delete_storage p) k) s = k (clear x s)"
  using delete_clear [OF assms] by (subst M_storage_alive [OF assms(2)]) (simp add: seq_def bind_def)












text \<open>Assigning to an object a reference to the value it holds uses the value after it was deleted.\<close>

lemma assign_own_value_undefined:
  assumes "owns_storages s" "objects s x = Some (Some a)"
  shows "\<exists>t. any_assign_value x T (Inside a) s = (UB ''use of a dangling pointer'', t)"
  using assms(2) unfolding any_assign_value_def deleting [OF assms]
  by (simp add: read_ref_def storage_at_def clear_def cpp_defs)

section \<open>Casts\<close>

lemma any_cast_run:
  assumes "owns_storages s" "objects s x = Some p"
  shows "any_cast layout T x s =
    ((case contents s x of
        Some (Some (ty, v)) \<Rightarrow>
          if typeid ty = typeid T
          then (if layout ty (remove_reference T) then Ok v else UB ''downcast to another class'')
          else Throw (StdException ''bad any_cast'')
      | _ \<Rightarrow> if typeid T = ''void'' then UB ''member of a null pointer'' else Throw (StdException ''bad any_cast'')), s)"
proof -
  have ty: "typeid (remove_reference T) = typeid T"
    by (cases T) simp_all
  show ?thesis
  proof (cases p)
    case None
    with assms(2) ty show ?thesis
      by (auto simp: any_cast_def any_cast_pointer_def any_type_def M_storage_def as_storage_def contents_def cpp_defs)
  next
    case (Some a)
    then obtain st where "storages s a = Some st" using assms owns_storagesD(1) by blast
    with assms(2) Some ty show ?thesis
      by (auto simp: any_cast_def any_cast_pointer_def any_type_def M_storage_def as_storage_def storage_at_def
          contents_def cpp_defs)
  qed
qed

section \<open>ParameterValue\<close>

text \<open>The constructors of \<open>ParameterValue\<close>: the tag and what is put into the \<open>any\<close>.  The class is the tag and the
  address of the \<open>any\<close>.\<close>

fun param_storage :: "parameter_value \<Rightarrow> ParameterType \<times> cpp_type option" where
  "param_storage PNotSet = (PARAMETER_NOT_SET, None)"
| "param_storage (PBool _) = (PARAMETER_BOOL, Some (plain ''bool''))"
| "param_storage (PInteger _) = (PARAMETER_INTEGER, Some (plain ''int64_t''))"
| "param_storage (PDouble _) = (PARAMETER_DOUBLE, Some (plain ''double''))"
| "param_storage (PString _) = (PARAMETER_STRING, Some (plain ''std::string''))"
| "param_storage (PByteArray _) = (PARAMETER_BYTE_ARRAY, Some (plain ''std::vector<unsigned char>''))"
| "param_storage (PArray _) = (PARAMETER_ARRAY, Some (plain ''std::vector<ParameterValue>''))"
| "param_storage (PStruct _) = (PARAMETER_STRUCT, Some (plain ''std::unordered_map<std::string, ParameterValue>''))"

record param_object =
  pv_type :: ParameterType
  pv_value :: nat

definition ParameterValue :: "nat \<Rightarrow> parameter_value \<Rightarrow> (parameter_value memory, param_object) cpp" where
  "ParameterValue this v =
     (case param_storage v of
        (tag, None) \<Rightarrow> seq (any_default this) (ret \<lparr>pv_type = tag, pv_value = this\<rparr>)
      | (tag, Some T) \<Rightarrow> seq (any_of this T (Outside v)) (ret \<lparr>pv_type = tag, pv_value = this\<rparr>))"

definition getValue :: "(cpp_type \<Rightarrow> cpp_type \<Rightarrow> bool) \<Rightarrow> cpp_type \<Rightarrow> param_object \<Rightarrow> (parameter_value memory, parameter_value) cpp" where
  "getValue layout T p = any_cast layout (lvalue_ref (add_const T)) (pv_value p)"

text \<open>The type that the readers of a parameter ask for when they have seen its tag.\<close>

fun value_type :: "ParameterType \<Rightarrow> cpp_type option" where
  "value_type PARAMETER_NOT_SET = None"
| "value_type PARAMETER_BOOL = Some (plain ''bool'')"
| "value_type PARAMETER_INTEGER = Some (plain ''int64_t'')"
| "value_type PARAMETER_DOUBLE = Some (plain ''double'')"
| "value_type PARAMETER_STRING = Some (plain ''std::string'')"
| "value_type PARAMETER_BYTE_ARRAY = Some (plain ''std::vector<unsigned char>'')"
| "value_type PARAMETER_STRUCT = Some (plain ''std::unordered_map<std::string, ParameterValue>'')"
| "value_type PARAMETER_ARRAY = Some (plain ''std::vector<ParameterValue>'')"

lemma param_storage_eq: "param_storage v = (getType v, value_type (getType v))"
  by (cases v) simp_all

lemma decay_value_type: "value_type tag = Some T \<Longrightarrow> decay T = T"
  by (cases tag) (auto simp: decay_def)

lemma value_type_plain: "value_type tag = Some T \<Longrightarrow> T = plain (typeid T)"
  by (cases tag) auto

lemma ParameterValue_run:
  assumes "owns_storages s" "\<not> alive s x"
  shows "\<exists>t. ParameterValue x v s = (Ok \<lparr>pv_type = getType v, pv_value = x\<rparr>, t) \<and> owns_storages t \<and>
    contents t x = Some (map_option (\<lambda>T. (T, v)) (value_type (getType v)))"
proof (cases "value_type (getType v)")
  case None
  have "any_default x s = (Ok (), put x None (clear x s))"
    using assms(2) by (simp add: any_default_def set_M_storage_def modify_def put_def clear_fresh)
  with None assms show ?thesis
    by (simp add: ParameterValue_def param_storage_eq seq_def bind_def ret_def owns_store contents_store)
next
  case (Some T)
  have "any_of x T (Outside v) s = (Ok (), put x (Some (T, v)) (clear x s))"
    using assms(2) by (simp add: any_of_def ref_alive [where v = v] new_put decay_value_type [OF Some] clear_fresh)
  with Some assms show ?thesis
    by (simp add: ParameterValue_def param_storage_eq seq_def bind_def ret_def owns_store contents_store)
qed

lemma getValue_run:
  assumes "owns_storages t" "contents t x = Some (map_option (\<lambda>T. (T, v)) (value_type tag))" "n \<noteq> ''void''"
  shows "getValue layout (plain n) \<lparr>pv_type = tag, pv_value = x\<rparr> t =
    (if value_type tag = Some (plain n)
     then (if layout (plain n) (add_const (plain n)) then Ok v else UB ''downcast to another class'')
     else Throw (StdException ''bad any_cast''), t)"
proof -
  obtain p where p: "objects t x = Some p" using assms(2) by (auto simp: contents_def)
  show ?thesis
    using assms(2,3) value_type_plain
    by (cases "value_type tag") (fastforce simp: getValue_def any_cast_run [OF assms(1) p])+
qed




text \<open>By the rules of the language the cast to a storage of \<open>const T\<close> is undefined, as the object is a storage of
  \<open>T\<close>: with no other class to be used for it, no read of a set parameter is defined.\<close>

lemma getValue_strictly_undefined:
  assumes "owns_storages s" "\<not> alive s x" "value_type (getType v) = Some (plain n)" "n \<noteq> ''void''"
  shows "\<exists>p t. ParameterValue x v s = (Ok p, t) \<and>
    getValue (=) (plain n) p t = (UB ''downcast to another class'', t)"
proof -
  obtain t where "ParameterValue x v s = (Ok \<lparr>pv_type = getType v, pv_value = x\<rparr>, t)" "owns_storages t"
      "contents t x = Some (map_option (\<lambda>T. (T, v)) (value_type (getType v)))"
    using ParameterValue_run [OF assms(1,2)] by blast
  with assms(3,4) show ?thesis
    by (simp add: getValue_run)
qed

section \<open>The class string_view\<close>

text \<open>A view is the characters from its pointer to the end of their buffer, \<open>None\<close> for a null pointer, and a size.\<close>

record string_view =
  sv_data :: "string option"
  sv_size :: uint64_t

fun strlen_constexpr :: "string \<Rightarrow> nat outcome" where
  "strlen_constexpr [] = UB ''read out of bounds''"
| "strlen_constexpr (c # str) =
     (if c \<noteq> CHR 0x00 then obind (strlen_constexpr str) (\<lambda>n. Ok (1 + n)) else Ok 0)"

definition string_view_default :: string_view where
  "string_view_default = \<lparr>sv_data = None, sv_size = 0\<rparr>"

definition string_view_cstr :: "string option \<Rightarrow> string_view outcome" where
  "string_view_cstr str =
     (case str of
        None \<Rightarrow> Ok \<lparr>sv_data = None, sv_size = 0\<rparr>
      | Some cs \<Rightarrow> obind (strlen_constexpr cs) (\<lambda>n. Ok \<lparr>sv_data = Some cs, sv_size = of_nat n\<rparr>))"

definition string_view_string :: "string \<Rightarrow> string_view" where
  "string_view_string str = \<lparr>sv_data = Some str, sv_size = of_nat (length str)\<rparr>"

definition sv_empty :: "string_view \<Rightarrow> bool" where
  "sv_empty v \<longleftrightarrow> sv_size v = 0"

definition sv_at :: "string_view \<Rightarrow> uint64_t \<Rightarrow> char outcome" where
  "sv_at v pos =
     (case sv_data v of
        Some cs \<Rightarrow> if unat pos < length cs then Ok (cs ! unat pos) else UB ''read out of bounds''
      | None \<Rightarrow> UB ''read of a null pointer'')"

definition sv_substr :: "string_view \<Rightarrow> uint64_t \<Rightarrow> uint64_t \<Rightarrow> string_view" where
  "sv_substr v pos len =
     \<lparr>sv_data = map_option (drop (unat (if pos > sv_size v then sv_size v else pos))) (sv_data v),
      sv_size = (if len > sv_size v - (if pos > sv_size v then sv_size v else pos)
                 then sv_size v - (if pos > sv_size v then sv_size v else pos) else len)\<rparr>"

definition sv_to_string :: "string_view \<Rightarrow> string outcome" where
  "sv_to_string v =
     (case sv_data v of
        Some cs \<Rightarrow> if unat (sv_size v) \<le> length cs then Ok (take (unat (sv_size v)) cs) else UB ''read out of bounds''
      | None \<Rightarrow> if sv_size v = 0 then Ok [] else UB ''read of a null pointer'')"

text \<open>A part of a view is that part of its characters, cut at the end of the view; no position leaves it.\<close>

lemma sv_substr_parts:
  "sv_data (sv_substr v pos len) = map_option (drop (min (unat pos) (unat (sv_size v)))) (sv_data v)"
  "unat (sv_size (sv_substr v pos len)) = min (unat len) (unat (sv_size v) - unat pos)"
proof -
  have "unat (sv_size v - pos) = unat (sv_size v) - unat pos" if "\<not> pos > sv_size v"
    using that by (simp add: unat_sub not_less)
  then show "sv_data (sv_substr v pos len) = map_option (drop (min (unat pos) (unat (sv_size v)))) (sv_data v)"
    "unat (sv_size (sv_substr v pos len)) = min (unat len) (unat (sv_size v) - unat pos)"
    by (auto simp: sv_substr_def word_less_nat_alt min_def)
qed

lemma sv_substr_exact:
  assumes "sv_to_string v = Ok cs"
  shows "sv_to_string (sv_substr v pos len) = Ok (take (unat len) (drop (unat pos) cs))"
proof (cases "sv_data v")
  case None
  then have "sv_size v = 0" "cs = []" using assms by (auto simp: sv_to_string_def split: if_splits)
  then show ?thesis
    using None sv_substr_parts [of v pos len] by (simp add: sv_to_string_def unat_eq_zero)
next
  case (Some a)
  then have "cs = take (unat (sv_size v)) a" "unat (sv_size v) \<le> length a"
    using assms by (auto simp: sv_to_string_def split: if_splits)
  then show ?thesis
    using Some sv_substr_parts [of v pos len]
    by (auto simp: sv_to_string_def drop_take min_def)
qed

lemma sv_cstr_exact:
  assumes "CHR 0x00 \<notin> set cs" "length cs < 2 ^ 64"
  shows "\<exists>v. string_view_cstr (Some (cs @ CHR 0x00 # rest)) = Ok v \<and> sv_to_string v = Ok cs"
proof -
  have "strlen_constexpr (cs @ CHR 0x00 # rest) = Ok (length cs)"
    using assms(1) by (induction cs) auto
  then show ?thesis
    using assms(2) by (simp add: string_view_cstr_def sv_to_string_def unat_of_nat)
qed

section \<open>The class optional\<close>

record 'a optional =
  opt_has_value :: bool
  opt_value :: 'a

text \<open>The member \<open>value_\<close> is always there; without a value it is what the constructor of \<open>T\<close> made, \<open>init\<close>.\<close>

definition optional_none :: "'a \<Rightarrow> 'a optional" where
  "optional_none init = \<lparr>opt_has_value = False, opt_value = init\<rparr>"

definition optional_some :: "'a \<Rightarrow> 'a optional" where
  "optional_some v = \<lparr>opt_has_value = True, opt_value = v\<rparr>"

definition optional_assign_nullopt :: "'a optional \<Rightarrow> 'a optional" where
  "optional_assign_nullopt x = x\<lparr>opt_has_value := False\<rparr>"

definition optional_assign :: "'a \<Rightarrow> 'a optional \<Rightarrow> 'a optional" where
  "optional_assign v x = x\<lparr>opt_has_value := True, opt_value := v\<rparr>"

definition optional_eq :: "'a optional \<Rightarrow> 'a optional \<Rightarrow> bool" where
  "optional_eq x y =
     (if opt_has_value x \<noteq> opt_has_value y then False
      else if \<not> opt_has_value x then True
      else opt_value x = opt_value y)"

definition optional_abs :: "'a optional \<Rightarrow> 'a option" where
  "optional_abs x = (if opt_has_value x then Some (opt_value x) else None)"

text \<open>The class implements \<open>option\<close>: equality is equality of what the two hold, although the unused member of
  two empty ones may differ.\<close>

lemma optional_refines_option:
  "optional_abs (optional_none init) = None" "optional_abs (optional_some v) = Some v"
  "optional_abs (optional_assign_nullopt x) = None" "optional_abs (optional_assign v x) = Some v"
  "optional_eq x y \<longleftrightarrow> optional_abs x = optional_abs y"
  "opt_has_value x \<Longrightarrow> optional_abs x = Some (opt_value x)"
  by (auto simp: optional_none_def optional_some_def optional_assign_nullopt_def optional_assign_def optional_abs_def
      optional_eq_def)

text \<open>\<open>value()\<close> does not look at the flag: after \<open>= nullopt\<close> it gives the value that was there before.\<close>

lemma value_survives_nullopt: "opt_value (optional_assign_nullopt (optional_assign v x)) = v"
  by (simp add: optional_assign_nullopt_def optional_assign_def)

end
