(* ===== verification/Websocket_Client.thy ===== *)
theory Websocket_Client
  imports Bridge_Behaviour
begin

text \<open>
  The client of the protocol (\<open>websocket_client.hpp\<close>): the messages it sends for each of its calls, and the
  composition with the server and the ROS 2 bridge.  The printer of JSON is the argument \<open>dump\<close>; that the parser of
  the server reads back what it printed is a hypothesis of the properties.
\<close>

section \<open>The calls\<close>

definition advertisement_to_json :: "client_advertisement \<Rightarrow> json" where
  "advertisement_to_json p =
     jobject [(''id'', json_u32 (channel_id p)), (''topic'', JStr (adv_topic p)),
       (''encoding'', JStr (adv_encoding p)), (''schemaName'', JStr (adv_schema_name p))]"

definition login_request :: "string \<Rightarrow> string \<Rightarrow> json" where
  "login_request uname uid =
     jobject [(''op'', JStr ''login''), (''username'', JStr uname), (''userId'', JStr uid)]"


definition unsubscribe_request :: "uint32_t list \<Rightarrow> json" where
  "unsubscribe_request ids =
     jobject [(''op'', JStr ''unsubscribe''), (''subscriptionIds'', JArr (map json_u32 ids))]"

definition advertise_request :: "client_advertisement list \<Rightarrow> json" where
  "advertise_request chans =
     jobject [(''op'', JStr ''advertise''), (''channels'', JArr (map advertisement_to_json chans))]"

definition unadvertise_request :: "uint32_t list \<Rightarrow> json" where
  "unadvertise_request ids =
     jobject [(''op'', JStr ''unadvertise''), (''channelIds'', JArr (map json_u32 ids))]"




definition subscribe_parameter_updates_request :: "string list \<Rightarrow> json" where
  "subscribe_parameter_updates_request names =
     jobject [(''op'', JStr ''subscribeParameterUpdates''), (''parameterNames'', JArr (map JStr names))]"

definition unsubscribe_parameter_updates_request :: "string list \<Rightarrow> json" where
  "unsubscribe_parameter_updates_request names =
     jobject [(''op'', JStr ''unsubscribeParameterUpdates''), (''parameterNames'', JArr (map JStr names))]"

definition fetch_asset_request :: "string \<Rightarrow> uint32_t \<Rightarrow> json" where
  "fetch_asset_request uri req_id =
     jobject [(''op'', JStr ''fetchAsset''), (''uri'', JStr uri), (''requestId'', json_u32 req_id)]"


text \<open>The buffers of the binary messages, filled by the writers.\<close>

definition publish_request :: "uint32_t \<Rightarrow> bytes \<Rightarrow> ws_message outcome" where
  "publish_request chan_id buffer =
     (let payload = MESSAGE_DATA_op # replicate (4 + length buffer) 0 in
      obind (write_uint32_LE 1 chan_id payload) (\<lambda>payload.
      obind (poke (1 + 4) buffer payload) (\<lambda>payload. Ok (BinaryMessage payload))))"

definition send_service_request :: "service_request \<Rightarrow> ws_message outcome" where
  "send_service_request request =
     (let payload = SERVICE_CALL_REQUEST_op # replicate (ServiceResponse_size request) 0 in
      obind (ServiceResponse_write request 1 payload) (\<lambda>payload. Ok (BinaryMessage payload)))"

text \<open>The handlers of the client, the calls that set them (a null function is \<open>None\<close>), and \<open>message_handler\<close>,
  which gives text and binary messages to the handlers that are set.\<close>

record 's ws_client =
  text_message_handler :: "(string \<Rightarrow> ('s, unit) cpp) option"
  binary_message_handler :: "(bytes \<Rightarrow> ('s, unit) cpp) option"

definition set_text_message_handler :: "(string \<Rightarrow> ('s, unit) cpp) option \<Rightarrow> 's ws_client \<Rightarrow> 's ws_client" where
  "set_text_message_handler handler cl = cl\<lparr>text_message_handler := handler\<rparr>"

definition set_binary_message_handler :: "(bytes \<Rightarrow> ('s, unit) cpp) option \<Rightarrow> 's ws_client \<Rightarrow> 's ws_client" where
  "set_binary_message_handler handler cl = cl\<lparr>binary_message_handler := handler\<rparr>"

definition client_receives :: "'s ws_client \<Rightarrow> ws_message \<Rightarrow> ('s, unit) cpp" where
  "client_receives cl msg =
     (case msg of
        TextMessage payload \<Rightarrow> (case text_message_handler cl of Some f \<Rightarrow> f payload | None \<Rightarrow> ret ())
      | BinaryMessage payload \<Rightarrow> (case binary_message_handler cl of Some f \<Rightarrow> f payload | None \<Rightarrow> ret ())
      | ControlMessage \<Rightarrow> ret ())"

text \<open>The buffers are large enough for what is written: no write of the client leaves its buffer.\<close>

lemma binary_requests_defined:
  "publish_request i buffer = Ok (BinaryMessage (MESSAGE_DATA_op # uint32_LE i @ buffer))"
  "send_service_request r = Ok (BinaryMessage (SERVICE_CALL_REQUEST_op # service_response_bytes r))"
  by (simp_all add: publish_request_def write_uint32_LE_def poke_def send_service_request_def
      ServiceResponse_write_layout)

section \<open>What the server reads\<close>













section \<open>From the client to ROS and back\<close>







end
