(* ===== verification/Generic_Interfaces.thy ===== *)
theory Generic_Interfaces
  imports Websocket_Client
begin

text \<open>
  Services, publishers and subscriptions of types that are not known at compile time: the helpers that find the type
  support of a type in a shared library (\<open>typesupport_helpers.cpp\<close>), the client of a service (\<open>generic_client.cpp\<close>), and the
  subscriptions and publishers for ROS 2 Foxy (\<open>create_generic_subscription.hpp\<close>, \<open>generic_subscription.cpp\<close>,
  \<open>create_generic_publisher.hpp\<close>, \<open>generic_publisher.cpp\<close>).  Shared libraries, the package index and the ROS client library
  are the record \<open>rcl_library\<close>.
\<close>

section \<open>The libraries\<close>

text \<open>A call that throws gives \<open>Inl\<close> with the text of the exception; a symbol is the type support its function returns,
  \<open>None\<close> for a null pointer; return codes are numbers.\<close>

record 'h shared_library =
  get_library_path :: string
  has_symbol :: "string \<Rightarrow> bool"
  get_symbol :: "string \<Rightarrow> string + 'h option"

record ('h, 'm) rcl_library =
  get_package_prefix :: "string \<Rightarrow> string + string"
  SharedLibrary :: "string \<Rightarrow> string + 'h shared_library"
  rcl_client_init :: "'h \<Rightarrow> string \<Rightarrow> nat"
  expand_topic_or_service_name :: "string \<Rightarrow> string option"
  throw_from_rcl_error :: "nat \<Rightarrow> string \<Rightarrow> exn"
  malloc_fails :: bool
  init_function :: "'h \<Rightarrow> 'm"
  rmw_serialize :: "'h \<Rightarrow> 'm \<Rightarrow> nat + bytes"
  rmw_deserialize :: "'h \<Rightarrow> bytes \<Rightarrow> nat + 'm"
  rcl_send_request :: "'m \<Rightarrow> nat \<times> int64_t"
  rcl_publish_serialized_message :: "bytes \<Rightarrow> nat"
  make_subscription :: "'h \<Rightarrow> string \<Rightarrow> string option"
  add_subscription :: "string \<Rightarrow> string option"
  make_publisher :: "'h \<Rightarrow> string \<Rightarrow> string option"

definition RCL_RET_OK :: nat where
  "RCL_RET_OK = 0"

definition RCL_RET_SERVICE_NAME_INVALID :: nat where
  "RCL_RET_SERVICE_NAME_INVALID = 104"

definition std_throw :: "string + 'a \<Rightarrow> 'a outcome" where
  "std_throw r = (case r of Inl what \<Rightarrow> Throw (StdException what) | Inr a \<Rightarrow> Ok a)"

section \<open>Type supports\<close>

fun find_first_of :: "string \<Rightarrow> char \<Rightarrow> nat option" where
  "find_first_of [] c = None"
| "find_first_of (x # xs) c = (if x = c then Some 0 else map_option Suc (find_first_of xs c))"

definition extract_type_identifier :: "string \<Rightarrow> (string \<times> string \<times> string) outcome" where
  "extract_type_identifier full_type =
     (let invalid = Throw (StdException ''Message type is not of the form package/type and cannot be processed'') in
      case (find_last_of full_type (CHR ''/''), find_first_of full_type (CHR ''/'')) of
        (Some sep_position_back, Some sep_position_front) \<Rightarrow>
          if sep_position_back = 0 \<or> sep_position_back = length full_type - 1 then invalid
          else Ok (substr full_type 0 sep_position_front,
                   if sep_position_back - sep_position_front > 0
                   then substr full_type (sep_position_front + 1) (sep_position_back - sep_position_front - 1)
                   else [],
                   drop (sep_position_back + 1) full_type)
      | _ \<Rightarrow> invalid)"

definition extract_type_and_package :: "string \<Rightarrow> (string \<times> string) outcome" where
  "extract_type_and_package full_type =
     obind (extract_type_identifier full_type) (\<lambda>(package_name, _, type_name). Ok (package_name, type_name))"

definition get_typesupport_library_path :: "('h, 'm) rcl_library \<Rightarrow> string \<Rightarrow> string \<Rightarrow> string outcome" where
  "get_typesupport_library_path R package_name typesupport_identifier =
     obind (std_throw (get_package_prefix R package_name)) (\<lambda>package_prefix.
     Ok (package_prefix @ ''/lib/'' @ ''lib'' @ package_name @ ''__'' @ typesupport_identifier @ ''.so''))"

definition get_typesupport_library :: "('h, 'm) rcl_library \<Rightarrow> string \<Rightarrow> string \<Rightarrow> 'h shared_library outcome" where
  "get_typesupport_library R type typesupport_identifier =
     obind (extract_type_identifier type) (\<lambda>(package_name, _, _).
     obind (get_typesupport_library_path R package_name typesupport_identifier) (\<lambda>library_path.
     std_throw (SharedLibrary R library_path)))"

definition get_typesupport_handle :: "string \<Rightarrow> string \<Rightarrow> 'h shared_library option \<Rightarrow> 'h outcome" where
  "get_typesupport_handle type typesupport_identifier library =
     (case library of
        None \<Rightarrow> Throw (StdException ''rcpputils::SharedLibrary not initialized. Call get_typesupport_library first.'')
      | Some lib \<Rightarrow>
          obind (extract_type_identifier type) (\<lambda>(package_name, middle_module, type_name).
          let loading_error = ''Something went wrong loading the typesupport library for message type '' @
                package_name @ ''/'' @ type_name @ ''.'';
              symbol_name = typesupport_identifier @ ''__get_message_type_support_handle__'' @
                package_name @ ''__'' @ (if middle_module = [] then ''msg'' else middle_module) @ ''__'' @ type_name;
              attempt = obind (std_throw (get_symbol lib symbol_name)) (\<lambda>sym.
                case sym of
                  None \<Rightarrow> Throw (StdException (loading_error @ '' Symbol not found.''))
                | Some h \<Rightarrow> Ok h)
          in case attempt of
               Throw (StdException _) \<Rightarrow> Throw (StdException (loading_error @ '' Library could not be found.''))
             | r \<Rightarrow> r))"

section \<open>The client of a service\<close>

definition TYPESUPPORT_INTROSPECTION_LIB_NAME :: string where
  "TYPESUPPORT_INTROSPECTION_LIB_NAME = ''rosidl_typesupport_introspection_cpp''"

definition TYPESUPPORT_LIB_NAME :: string where
  "TYPESUPPORT_LIB_NAME = ''rosidl_typesupport_cpp''"

definition allocate_message :: "('h, 'm) rcl_library \<Rightarrow> 'h \<Rightarrow> 'm outcome" where
  "allocate_message R members =
     (if malloc_fails R then Throw (StdException ''Failed to allocate memory'') else Ok (init_function R members))"

definition get_type_introspection_symbol_name :: "string \<Rightarrow> string outcome" where
  "get_type_introspection_symbol_name serviceType =
     obind (extract_type_identifier serviceType) (\<lambda>(pkg_name, middle_module, type_name).
     Ok (TYPESUPPORT_INTROSPECTION_LIB_NAME @ ''__get_service_type_support_handle__'' @ pkg_name @ ''__'' @
         (if middle_module = [] then ''srv'' else middle_module) @ ''__'' @ type_name))"

definition length_prefixed_string :: "string \<Rightarrow> string" where
  "length_prefixed_string s = to_string (length s) @ s"

definition get_service_type_support_handle_symbol_name :: "string \<Rightarrow> string outcome" where
  "get_service_type_support_handle_symbol_name service_type =
     obind (extract_type_identifier service_type) (\<lambda>(pkg_name, middle_module, type_name).
     Ok (''_ZN'' @ length_prefixed_string TYPESUPPORT_LIB_NAME @
         length_prefixed_string ''get_service_type_support_handle'' @ ''IN'' @
         length_prefixed_string pkg_name @
         length_prefixed_string (if middle_module = [] then ''srv'' else middle_module) @
         length_prefixed_string type_name @ ''EEEPK'' @
         length_prefixed_string ''rosidl_service_type_support_t'' @ ''v''))"

text \<open>The members of the client.  The promise, the callback and the future of a request are one callback here, and
  \<open>called\<close> has the callbacks that were called, with the sequence number and the response.\<close>

record ('h, 'c) generic_client =
  service_type_support_handle :: 'h
  type_introspection_handle :: 'h
  request_type_support_handle :: 'h
  response_type_support_handle :: 'h
  pending_requests :: "(int64_t \<times> 'c) list"
  called :: "(int64_t \<times> 'c \<times> bytes) list"

definition call_symbol :: "'h shared_library \<Rightarrow> string \<Rightarrow> 'h outcome" where
  "call_symbol lib name =
     obind (std_throw (get_symbol lib name)) (\<lambda>sym.
     case sym of None \<Rightarrow> UB ''call of a null pointer'' | Some h \<Rightarrow> Ok h)"

text \<open>The libraries are never null: \<open>get_typesupport_library\<close> throws or gives one.\<close>

definition GenericClient :: "('h, 'm) rcl_library \<Rightarrow> string \<Rightarrow> string \<Rightarrow> ('h, 'c) generic_client outcome" where
  "GenericClient R service_name service_type =
     obind (extract_type_identifier service_type) (\<lambda>_.
     let request_type_name = service_type @ ''_Request''; response_type_name = service_type @ ''_Response'' in
     obind (get_typesupport_library R service_type TYPESUPPORT_LIB_NAME) (\<lambda>type_support_lib.
     obind (get_typesupport_library R service_type TYPESUPPORT_INTROSPECTION_LIB_NAME) (\<lambda>type_introspection_lib.
     obind (get_service_type_support_handle_symbol_name service_type) (\<lambda>type_support_symbol_name.
     if \<not> has_symbol type_support_lib type_support_symbol_name
     then Throw (StdException (''Failed to find symbol '' @ [CHR 0x27] @ type_support_symbol_name @ [CHR 0x27] @ '' in '' @
            get_library_path type_support_lib))
     else
       obind (call_symbol type_support_lib type_support_symbol_name) (\<lambda>service_handle.
       obind (get_type_introspection_symbol_name service_type) (\<lambda>type_introspection_symbol_name.
       obind (call_symbol type_introspection_lib type_introspection_symbol_name) (\<lambda>introspection_handle.
       obind (get_typesupport_handle request_type_name TYPESUPPORT_LIB_NAME (Some type_support_lib)) (\<lambda>request_handle.
       obind (get_typesupport_handle response_type_name TYPESUPPORT_LIB_NAME (Some type_support_lib)) (\<lambda>response_handle.
       let r = rcl_client_init R service_handle service_name in
       if r \<noteq> RCL_RET_OK
       then (case (if r = RCL_RET_SERVICE_NAME_INVALID then expand_topic_or_service_name R service_name else None) of
               Some what \<Rightarrow> Throw (StdException what)
             | None \<Rightarrow> Throw (throw_from_rcl_error R r ''could not create client''))
       else Ok \<lparr>service_type_support_handle = service_handle, type_introspection_handle = introspection_handle,
              request_type_support_handle = request_handle, response_type_support_handle = response_handle,
              pending_requests = [], called = []\<rparr>)))))))))"

definition create_response :: "('h, 'm) rcl_library \<Rightarrow> (('h, 'c) generic_client, 'm) cpp" where
  "create_response R = bind (gets type_introspection_handle) (\<lambda>h. lift (allocate_message R h))"

definition handle_response :: "('h, 'm) rcl_library \<Rightarrow> int64_t \<Rightarrow> 'm \<Rightarrow> (('h, 'c) generic_client, unit) cpp" where
  "handle_response R sequence_number response =
     bind (gets response_type_support_handle) (\<lambda>h.
     case rmw_serialize R h response of
       Inl _ \<Rightarrow> ret ()
     | Inr ser_response \<Rightarrow>
         bind (gets (\<lambda>s. m_find (pending_requests s) sequence_number)) (\<lambda>entry.
         case entry of
           None \<Rightarrow> ret ()
         | Some callback \<Rightarrow>
             seq (modify (\<lambda>s. s\<lparr>pending_requests := m_erase sequence_number (pending_requests s)\<rparr>)) (
             modify (\<lambda>s. s\<lparr>called := called s @ [(sequence_number, callback, ser_response)]\<rparr>))))"

text \<open>The condition of the first \<open>if\<close> initialises \<open>ret\<close> with the result of the comparison: the error is always number 1.\<close>

definition async_send_request :: "('h, 'm) rcl_library \<Rightarrow> bytes \<Rightarrow> 'c \<Rightarrow> (('h, 'c) generic_client, unit) cpp" where
  "async_send_request R request cb =
     bind (gets type_introspection_handle) (\<lambda>h.
     bind (lift (allocate_message R h)) (\<lambda>_.
     bind (gets request_type_support_handle) (\<lambda>ts.
     case rmw_deserialize R ts request of
       Inl _ \<Rightarrow> throw (throw_from_rcl_error R 1 ''failed to desirialize request'')
     | Inr buf \<Rightarrow>
         (case rcl_send_request R buf of
            (r, sequence_number) \<Rightarrow>
              if r \<noteq> RCL_RET_OK then throw (throw_from_rcl_error R r ''failed to send request'')
              else modify (\<lambda>s. s\<lparr>pending_requests := m_assign sequence_number cb (pending_requests s)\<rparr>)))))"

text \<open>The call without a callback, with the function \<open>nothing\<close> that ignores the response.\<close>

definition async_send_request_ignoring :: "('h, 'm) rcl_library \<Rightarrow> 'c \<Rightarrow> bytes \<Rightarrow> (('h, 'c) generic_client, unit) cpp" where
  "async_send_request_ignoring R nothing request = async_send_request R request nothing"

section \<open>Subscriptions and publishers for Foxy\<close>

definition create_generic_publisher_foxy :: "('h, 'm) rcl_library \<Rightarrow> string \<Rightarrow> string \<Rightarrow> unit outcome" where
  "create_generic_publisher_foxy R topic_name type =
     obind (get_typesupport_library R type ''rosidl_typesupport_cpp'') (\<lambda>library.
     obind (get_typesupport_handle type ''rosidl_typesupport_cpp'' (Some library)) (\<lambda>type_support.
     case make_publisher R type_support topic_name of
       Some what \<Rightarrow> Throw (StdException what)
     | None \<Rightarrow> Ok ()))"

definition GenericPublisher_publish :: "('h, 'm) rcl_library \<Rightarrow> bytes \<Rightarrow> unit outcome" where
  "GenericPublisher_publish R message =
     (let return_code = rcl_publish_serialized_message R message in
      if return_code \<noteq> RCL_RET_OK
      then Throw (throw_from_rcl_error R return_code ''failed to publish serialized message'')
      else Ok ())"


definition GenericSubscription_handle_message ::
    "(bytes \<Rightarrow> uint64_t \<Rightarrow> ('s, unit) cpp) \<Rightarrow> bytes \<Rightarrow> int64_t \<Rightarrow> ('s, unit) cpp" where
  "GenericSubscription_handle_message callback message source_timestamp = callback message source_timestamp"

section \<open>Names of types and symbols\<close>

lemma find_first_of_append: "c \<notin> set u \<Longrightarrow> find_first_of (u @ c # v) c = Some (length u)"
  by (induction u) auto

text \<open>A type has a package, a name and, between them, a module or nothing.\<close>

lemma extract_type_identifier_parts:
  assumes "CHR ''/'' \<notin> set pkg" "CHR ''/'' \<notin> set name" "name \<noteq> []"
  shows "extract_type_identifier (pkg @ ''/'' @ middle @ ''/'' @ name) = Ok (pkg, middle, name)"
    and "pkg \<noteq> [] \<Longrightarrow> extract_type_identifier (pkg @ ''/'' @ name) = Ok (pkg, [], name)"
proof -
  have "find_last_of ((pkg @ ''/'' @ middle) @ CHR ''/'' # name) (CHR ''/'') = Some (length (pkg @ ''/'' @ middle))"
    by (rule find_last_of_append [OF assms(2)])
  then show "extract_type_identifier (pkg @ ''/'' @ middle @ ''/'' @ name) = Ok (pkg, middle, name)"
    using find_first_of_append [OF assms(1), of "middle @ ''/'' @ name"] assms(3)
    by (auto simp: extract_type_identifier_def substr_def)
  show "extract_type_identifier (pkg @ ''/'' @ name) = Ok (pkg, [], name)" if "pkg \<noteq> []"
    using find_first_of_append [OF assms(1), of name] find_last_of_append [OF assms(2), of pkg] assms(3) that
    by (auto simp: extract_type_identifier_def substr_def)
qed

text \<open>The guard refuses \<open>/name\<close> but not an empty package before a module.\<close>

lemma empty_package_accepted: "extract_type_identifier ''/srv/Empty'' = Ok ([], ''srv'', ''Empty'')"
  by code_simp

definition is_digit :: "char \<Rightarrow> bool" where
  "is_digit c \<longleftrightarrow> (of_char c :: nat) \<in> {48..57}"

lemma to_string_digits: "c \<in> set (to_string n) \<Longrightarrow> is_digit c"
proof (induction n rule: to_string.induct)
  case (1 n)
  then show ?case
    by (cases "n < 10") (auto simp: to_string.simps [of n] is_digit_def)
qed

text \<open>A name that does not begin with a digit ends the digits of its length.\<close>

definition is_identifier :: "string \<Rightarrow> bool" where
  "is_identifier s \<longleftrightarrow> s \<noteq> [] \<and> \<not> is_digit (hd s)"

lemma length_prefixed_inject:
  assumes "is_identifier a" "is_identifier b"
  shows "length_prefixed_string a @ x = length_prefixed_string b @ y \<longleftrightarrow> a = b \<and> x = y"
proof
  assume eq: "length_prefixed_string a @ x = length_prefixed_string b @ y"
  have digits: "takeWhile is_digit (length_prefixed_string s @ z) = to_string (length s)" if "is_identifier s" for s z
    using that by (cases s) (auto simp: length_prefixed_string_def is_identifier_def takeWhile_append2 to_string_digits)
  then have "to_string (length a) = to_string (length b)"
    using eq assms by metis
  then show "a = b \<and> x = y"
    using eq by (simp add: length_prefixed_string_def)
qed simp

text \<open>The symbol name of a service is unambiguous: two service types whose parts are identifiers have the same
  mangled name exactly when they have the same package, module and name, where a missing module stands for
  \<open>srv\<close>; for the example of the documentation the name is the one it gives.\<close>

lemma service_symbol_unambiguous:
  assumes "extract_type_identifier t1 = Ok (p1, m1, n1)" "extract_type_identifier t2 = Ok (p2, m2, n2)"
    and "is_identifier p1" "is_identifier n1" "m1 = [] \<or> is_identifier m1"
    and "is_identifier p2" "is_identifier n2" "m2 = [] \<or> is_identifier m2"
  shows "(get_service_type_support_handle_symbol_name t1 = get_service_type_support_handle_symbol_name t2 \<longleftrightarrow>
      p1 = p2 \<and> (if m1 = [] then ''srv'' else m1) = (if m2 = [] then ''srv'' else m2) \<and> n1 = n2) \<and>
    get_service_type_support_handle_symbol_name ''test_msgs/srv/BasicTypes'' =
      Ok ''_ZN22rosidl_typesupport_cpp31get_service_type_support_handleIN9test_msgs3srv10BasicTypesEEEPK29rosidl_service_type_support_tv''"
proof
  have srv: "is_identifier (if m1 = [] then ''srv'' else m1)" "is_identifier (if m2 = [] then ''srv'' else m2)"
    using assms(5,8) by (auto simp: is_identifier_def is_digit_def)
  show "get_service_type_support_handle_symbol_name t1 = get_service_type_support_handle_symbol_name t2 \<longleftrightarrow>
      p1 = p2 \<and> (if m1 = [] then ''srv'' else m1) = (if m2 = [] then ''srv'' else m2) \<and> n1 = n2"
    unfolding get_service_type_support_handle_symbol_name_def assms(1,2) obind.simps prod.case outcome.inject
      same_append_eq length_prefixed_inject [OF assms(3,6)] length_prefixed_inject [OF srv]
      length_prefixed_inject [OF assms(4,7)] by simp
  show "get_service_type_support_handle_symbol_name ''test_msgs/srv/BasicTypes'' =
      Ok ''_ZN22rosidl_typesupport_cpp31get_service_type_support_handleIN9test_msgs3srv10BasicTypesEEEPK29rosidl_service_type_support_tv''"
    by code_simp
qed

lemma service_symbol_unambiguous_witness:
  "get_service_type_support_handle_symbol_name ''a/srv/Bc'' \<noteq> get_service_type_support_handle_symbol_name ''a/Bd''"
proof -
  have "extract_type_identifier ''a/srv/Bc'' = Ok (''a'', ''srv'', ''Bc'')" "extract_type_identifier ''a/Bd'' = Ok (''a'', [], ''Bd'')"
    by code_simp+
  then show ?thesis
    using service_symbol_unambiguous [of "''a/srv/Bc''" "''a''" "''srv''" "''Bc''" "''a/Bd''" "''a''" "[]" "''Bd''"]
    by (simp add: is_identifier_def is_digit_def)
qed

text \<open>Whatever goes wrong with a symbol, the message says that the library was not found.\<close>

lemma symbol_errors_replaced:
  assumes "extract_type_identifier type = Ok (pkg, middle, name)"
  shows "(\<exists>h. get_typesupport_handle type ts (Some lib) = Ok h) \<or>
    get_typesupport_handle type ts (Some lib) =
      Throw (StdException (''Something went wrong loading the typesupport library for message type '' @ pkg @ ''/'' @ name @
        ''.'' @ '' Library could not be found.''))"
  using assms by (auto simp: get_typesupport_handle_def std_throw_def Let_def split: sum.splits option.splits)

section \<open>Requests and responses\<close>

datatype ('m, 'c) client_event = Request bytes 'c | Response int64_t 'm

fun client_step :: "('h, 'm) rcl_library \<times> ('m, 'c) client_event \<Rightarrow> (('h, 'c) generic_client, unit) cpp" where
  "client_step (R, Request request cb) = async_send_request R request cb"
| "client_step (R, Response q m) = handle_response R q m"

fun client_runs :: "(('h, 'm) rcl_library \<times> ('m, 'c) client_event) list \<Rightarrow> ('h, 'c) generic_client \<Rightarrow> ('h, 'c) generic_client" where
  "client_runs [] s = s"
| "client_runs (e # es) s = client_runs es (snd (client_step e s))"

text \<open>The requests that were sent, with the sequence number and the callback, and the responses that could be
  serialised.\<close>

fun sent_by :: "'h \<Rightarrow> ('h, 'm) rcl_library \<times> ('m, 'c) client_event \<Rightarrow> (int64_t \<times> 'c) list" where
  "sent_by ts (R, Request request cb) =
     (case rmw_deserialize R ts request of
        Inl _ \<Rightarrow> []
      | Inr buf \<Rightarrow> (case rcl_send_request R buf of (r, q) \<Rightarrow> if malloc_fails R \<or> r \<noteq> RCL_RET_OK then [] else [(q, cb)]))"
| "sent_by ts (R, Response q m) = []"

fun answered_by :: "'h \<Rightarrow> ('h, 'm) rcl_library \<times> ('m, 'c) client_event \<Rightarrow> (int64_t \<times> bytes) list" where
  "answered_by ts (R, Request request cb) = []"
| "answered_by ts (R, Response q m) = (case rmw_serialize R ts m of Inl _ \<Rightarrow> [] | Inr b \<Rightarrow> [(q, b)])"

abbreviation sent_requests :: "'h \<Rightarrow> (('h, 'm) rcl_library \<times> ('m, 'c) client_event) list \<Rightarrow> (int64_t \<times> 'c) list" where
  "sent_requests ts es \<equiv> concat (map (sent_by ts) es)"

abbreviation answers :: "'h \<Rightarrow> (('h, 'm) rcl_library \<times> ('m, 'c) client_event) list \<Rightarrow> (int64_t \<times> bytes) list" where
  "answers ts es \<equiv> concat (map (answered_by ts) es)"

definition matched :: "(int64_t \<times> 'c) list \<Rightarrow> (int64_t \<times> bytes) list \<Rightarrow> ('h, 'c) generic_client \<Rightarrow> bool" where
  "matched sent answered s \<longleftrightarrow>
     distinct (map fst (called s)) \<and>
     (\<forall>(q, c, b) \<in> set (called s). (q, c) \<in> set sent \<and> (q, b) \<in> set answered) \<and>
     (\<forall>q c. m_find (pending_requests s) q = Some c \<longleftrightarrow> (q, c) \<in> set sent \<and> q \<notin> fst ` set (called s))"

lemma client_step_handles:
  "request_type_support_handle (snd (client_step e s)) = request_type_support_handle s"
  "response_type_support_handle (snd (client_step e s)) = response_type_support_handle s"
  by (cases e rule: client_step.cases; simp add: async_send_request_def handle_response_def allocate_message_def cpp_defs
      split: sum.splits option.splits prod.splits)+
lemma request_step:
  "snd (async_send_request R request cb s) =
     (case sent_by (request_type_support_handle s) (R, Request request cb) of
        [] \<Rightarrow> s
      | (q, c) # _ \<Rightarrow> s\<lparr>pending_requests := m_assign q c (pending_requests s)\<rparr>)"
  by (simp add: async_send_request_def allocate_message_def cpp_defs split: sum.splits prod.splits)

lemma response_step:
  "snd (handle_response R q m s) =
     (case (rmw_serialize R (response_type_support_handle s) m, m_find (pending_requests s) q) of
        (Inr b, Some c) \<Rightarrow> s\<lparr>pending_requests := m_erase q (pending_requests s), called := called s @ [(q, c, b)]\<rparr>
      | _ \<Rightarrow> s)"
  by (simp add: handle_response_def cpp_defs split: sum.splits option.splits)

lemma matched_request:
  assumes "matched sent ans s" "q \<notin> fst ` set sent"
  shows "matched (sent @ [(q, c)]) ans (s\<lparr>pending_requests := m_assign q c (pending_requests s)\<rparr>)"
proof -
  have "q \<notin> fst ` set (called s)"
    using assms unfolding matched_def by force
  with assms show ?thesis
    unfolding matched_def by (auto simp: m_find_assign image_iff)
qed

lemma matched_response:
  assumes "matched sent ans s" "m_find (pending_requests s) q = Some c" "distinct (map fst sent)"
  shows "matched sent (ans @ [(q, b)]) (s\<lparr>pending_requests := m_erase q (pending_requests s), called := called s @ [(q, c, b)]\<rparr>)"
proof -
  have "(q, c) \<in> set sent" "q \<notin> fst ` set (called s)"
    using assms(1,2) unfolding matched_def by blast+
  with assms show ?thesis
    unfolding matched_def by (auto simp: m_find_erase)
qed

lemma matched_more: "matched sent ans s \<Longrightarrow> matched sent (ans @ extra) s"
  unfolding matched_def by fastforce

lemma matched_step:
  assumes "matched sent ans s" "distinct (map fst (sent @ sent_by (request_type_support_handle s) e))"
  shows "matched (sent @ sent_by (request_type_support_handle s) e)
    (ans @ answered_by (response_type_support_handle s) e) (snd (client_step e s))"
proof (cases e rule: client_step.cases)
  case (1 R request cb)
  then show ?thesis
    using assms matched_request [OF assms(1)]
    by (cases "sent_by (request_type_support_handle s) e") (auto simp: request_step split: sum.splits prod.splits if_splits)
next
  case (2 R q m)
  then show ?thesis
    using assms matched_response [OF assms(1)] matched_more [OF assms(1)]
    by (auto simp: response_step split: sum.splits option.splits)
qed

lemma matched_runs:
  assumes "matched sent ans s" "distinct (map fst (sent @ sent_requests (request_type_support_handle s) es))"
  shows "matched (sent @ sent_requests (request_type_support_handle s) es)
    (ans @ answers (response_type_support_handle s) es) (client_runs es s)"
  using assms
proof (induction es arbitrary: sent ans s)
  case (Cons e es)
  have "matched (sent @ sent_by (request_type_support_handle s) e)
      (ans @ answered_by (response_type_support_handle s) e) (snd (client_step e s))"
    using Cons.prems by (intro matched_step) auto
  then show ?case
    using Cons.IH [of "sent @ sent_by (request_type_support_handle s) e"
        "ans @ answered_by (response_type_support_handle s) e" "snd (client_step e s)"] Cons.prems(2)
    by (simp add: client_step_handles)
qed simp

text \<open>C11: Responses reach the right callbacks: when the sequence numbers of the requests sent by a client are
  different, every callback is called at most once, with a response to its own request, and the requests that were sent
  but not answered are exactly those that are pending.\<close>

theorem responses_matched:
  assumes "GenericClient R name type = Ok s" "distinct (map fst (sent_requests (request_type_support_handle s) es))"
  shows "matched (sent_requests (request_type_support_handle s) es) (answers (response_type_support_handle s) es)
    (client_runs es s)"
proof -
  have "pending_requests s = []" "called s = []"
    using assms(1) by (auto simp: GenericClient_def Let_def obind_eq_Ok split: if_splits option.splits)
  then have "matched [] [] s"
    by (simp add: matched_def)
  from matched_runs [OF this] assms(2) show ?thesis by simp
qed

definition echo_rcl :: "int64_t \<Rightarrow> (nat, bytes) rcl_library" where
  "echo_rcl q =
     \<lparr>get_package_prefix = (\<lambda>_. Inr ''/opt''),
      SharedLibrary = (\<lambda>p. Inr \<lparr>get_library_path = p, has_symbol = (\<lambda>_. True), get_symbol = (\<lambda>_. Inr (Some 7))\<rparr>),
      rcl_client_init = (\<lambda>_ _. 0), expand_topic_or_service_name = (\<lambda>_. None),
      throw_from_rcl_error = (\<lambda>_ what. StdException what), malloc_fails = False, init_function = (\<lambda>_. []),
      rmw_serialize = (\<lambda>_ m. Inr m), rmw_deserialize = (\<lambda>_ b. Inr b), rcl_send_request = (\<lambda>_. (0, q)),
      rcl_publish_serialized_message = (\<lambda>_. 0), make_subscription = (\<lambda>_ _. None), add_subscription = (\<lambda>_. None),
      make_publisher = (\<lambda>_ _. None)\<rparr>"

definition echo_client :: "(nat, nat) generic_client" where
  "echo_client = \<lparr>service_type_support_handle = 7, type_introspection_handle = 7, request_type_support_handle = 7,
     response_type_support_handle = 7, pending_requests = [], called = []\<rparr>"

theorem responses_matched_witness:
  "matched [(1, 10), (2, 20)] [(2, [5])] (client_runs
     [(echo_rcl 1, Request [3] 10), (echo_rcl 2, Request [4] 20), (echo_rcl 0, Response 2 [5])] echo_client)"
proof -
  have "GenericClient (echo_rcl 0) ''/s'' ''a/srv/B'' = Ok echo_client"
    by code_simp
  from responses_matched [OF this,
      of "[(echo_rcl 1, Request [3] 10), (echo_rcl 2, Request [4] 20), (echo_rcl 0, Response 2 [5])]"]
  show ?thesis by (simp add: echo_rcl_def echo_client_def RCL_RET_OK_def)
qed

section \<open>Foxy\<close>






end
