(* ===== verification/Server_Lifecycle.thy ===== *)
theory Server_Lifecycle
  imports Server_Invariant
begin

unbundle bit_operations_syntax

text \<open>
  Starting and stopping the server (\<open>websocket_server.hpp\<close>) and its loggers (\<open>websocket_logging.hpp\<close>).  The endpoint of
  the websocket library is its flags: whether it listens, whether its run loop was stopped, and whether the thread of
  the run loop exists.  What the network does is the record \<open>network\<close>.
\<close>

section \<open>Loggers\<close>

datatype WebSocketLogLevel = DebugLog | InfoLog | WarnLog | ErrorLog | CriticalLog

datatype channel_type_hint = AccessHint | ErrorHint

record callback_logger =
  static_channels :: uint32_t
  dynamic_channels :: uint32_t
  hint :: channel_type_hint

definition CallbackLogger :: "uint32_t \<Rightarrow> channel_type_hint \<Rightarrow> callback_logger" where
  "CallbackLogger levels h = \<lparr>static_channels = levels, dynamic_channels = 0, hint = h\<rparr>"

definition clear_channels :: "uint32_t \<Rightarrow> callback_logger \<Rightarrow> callback_logger" where
  "clear_channels levels l = l\<lparr>dynamic_channels := dynamic_channels l AND NOT levels\<rparr>"

definition set_channels :: "uint32_t \<Rightarrow> callback_logger \<Rightarrow> callback_logger" where
  "set_channels levels l =
     (if levels = 0 then clear_channels 0xffffffff l
      else l\<lparr>dynamic_channels := dynamic_channels l OR (levels AND static_channels l)\<rparr>)"

definition static_test :: "uint32_t \<Rightarrow> callback_logger \<Rightarrow> bool" where
  "static_test channel l \<longleftrightarrow> channel AND static_channels l \<noteq> 0"

definition dynamic_test :: "uint32_t \<Rightarrow> callback_logger \<Rightarrow> bool" where
  "dynamic_test channel l \<longleftrightarrow> channel AND dynamic_channels l \<noteq> 0"

text \<open>The level the callback is called with, \<open>None\<close> when it is not called.  The channels of the library are
  \<open>devel\<close>, \<open>library\<close>, \<open>info\<close>, \<open>warn\<close>, \<open>rerror\<close> and \<open>fatal\<close>.\<close>

definition logger_write :: "uint32_t \<Rightarrow> callback_logger \<Rightarrow> WebSocketLogLevel option" where
  "logger_write channel l =
     (if \<not> dynamic_test channel l then None
      else if hint l = AccessHint then Some InfoLog
      else if channel = 0x1 then Some DebugLog
      else if channel = 0x2 then Some DebugLog
      else if channel = 0x4 then Some InfoLog
      else if channel = 0x8 then Some WarnLog
      else if channel = 0x10 then Some ErrorLog
      else if channel = 0x20 then Some CriticalLog
      else None)"

definition APP :: uint32_t where
  "APP = 0x800"

text \<open>What the constructor of the server does to the access logger.\<close>

definition server_access_log :: "callback_logger \<Rightarrow> callback_logger" where
  "server_access_log l = set_channels APP (clear_channels 0xffffffff l)"

text \<open>After that the callback is called for the channel of the application and for no other.\<close>

lemma all_levels: "(0xffffffff :: uint32_t) = - 1"
  by code_simp

lemma server_access_log_app:
  assumes "static_test APP l" "hint l = AccessHint"
  shows "logger_write level (server_access_log l) = (if level AND APP \<noteq> 0 then Some InfoLog else None)"
proof -
  have "static_channels l AND 2 ^ 11 \<noteq> 0"
    using assms(1) by (simp add: static_test_def APP_def and.commute)
  then have "bit (static_channels l) 11"
    using and_exp_eq_0_iff_not_bit [of "static_channels l" 11] by blast
  then have "(2 ^ 11 :: uint32_t) AND static_channels l = 2 ^ 11"
    by (intro bit_word_eqI) (simp only: bit_and_iff bit_exp_iff, blast)
  then have "APP AND static_channels l = APP"
    by (simp add: APP_def)
  then have "dynamic_channels (server_access_log l) = APP"
    by (simp add: server_access_log_def set_channels_def clear_channels_def all_levels APP_def)
  moreover have "hint (server_access_log l) = AccessHint"
    using assms(2) by (simp add: server_access_log_def set_channels_def clear_channels_def)
  ultimately show ?thesis
    by (simp add: logger_write_def dynamic_test_def)
qed

section \<open>The endpoint\<close>

text \<open>What the calls of the library return: errors have a message.  \<open>finish_time closing h\<close> is when the connection is gone
  after the server stopped listening, in milliseconds, if ever; \<open>closing\<close> says that the server asked to close it.\<close>

record network =
  init_error :: "string option"
  listen_error :: "string option"
  accept_error :: "string option"
  listening_after_start :: bool
  local_endpoint :: "string + 16 word"
  stop_listening_error :: "string option"
  finish_time :: "bool \<Rightarrow> hdl \<Rightarrow> nat option"

record 's lifecycle =
  srv :: 's
  listening :: bool
  run_stopped :: bool
  server_thread :: bool

definition Server_init :: "network \<Rightarrow> string \<Rightarrow> server_options \<Rightarrow> server lifecycle outcome" where
  "Server_init N name opts =
     (case init_error N of
        Some what \<Rightarrow> Throw (StdException (''Failed to initialize websocket server: '' @ what))
      | None \<Rightarrow> Ok \<lparr>srv = Server name opts, listening = False, run_stopped = False, server_thread = False\<rparr>)"

text \<open>The last message is that of the error code of \<open>start_accept\<close>, which is \<open>success\<close> there, not that of the failed call.\<close>

definition server_start :: "network \<Rightarrow> string \<Rightarrow> 16 word \<Rightarrow> ('s lifecycle, unit) cpp" where
  "server_start N success port =
     bind (gets server_thread) (\<lambda>started.
     if started then throw (StdException ''Server already started'')
     else
       case listen_error N of
         Some what \<Rightarrow> throw (StdException (''Failed to listen on port '' @ to_string (unat port) @ '': '' @ what))
       | None \<Rightarrow>
           seq (modify (\<lambda>l. l\<lparr>listening := True\<rparr>)) (
           case accept_error N of
             Some what \<Rightarrow> throw (StdException (''Failed to start accepting connections: '' @ what))
           | None \<Rightarrow>
               seq (modify (\<lambda>l. l\<lparr>server_thread := True\<rparr>)) (
               if \<not> listening_after_start N
               then throw (StdException (''WebSocket server failed to listen on port '' @ to_string (unat port)))
               else
                 case local_endpoint N of
                   Inl _ \<Rightarrow> throw (StdException (''Failed to resolve the local endpoint: '' @ success))
                 | Inr _ \<Rightarrow> ret ())))"

definition get_port :: "network \<Rightarrow> 16 word outcome" where
  "get_port N =
     (case local_endpoint N of
        Inl _ \<Rightarrow> Throw (StdException ''Server not listening on any port. Has it been started before?'')
      | Inr port \<Rightarrow> Ok port)"

text \<open>The connections that are open, and whether the run loop has nothing left to do after \<open>duration\<close>: it does not
  listen and no connection is open.\<close>

definition open_handles :: "'e server_scheme \<Rightarrow> hdl list" where
  "open_handles s = map fst (filter (con_open \<circ> snd) (conns s))"

definition idle :: "network \<Rightarrow> hdl list \<Rightarrow> ('e server_scheme) lifecycle \<Rightarrow> nat \<Rightarrow> bool" where
  "idle N closing l duration \<longleftrightarrow>
     \<not> listening l \<and>
     (\<forall>h \<in> set (open_handles (srv l)).
        case finish_time N (h \<in> set closing) h of Some t \<Rightarrow> t \<le> duration | None \<Rightarrow> False)"

definition ends :: "network \<Rightarrow> hdl list \<Rightarrow> ('e server_scheme) lifecycle \<Rightarrow> bool" where
  "ends N closing l \<longleftrightarrow>
     \<not> listening l \<and> (\<forall>h \<in> set (open_handles (srv l)). finish_time N (h \<in> set closing) h \<noteq> None)"

definition MAX_SHUTDOWN_MS :: nat where
  "MAX_SHUTDOWN_MS = 1000"

definition SLEEP_MS :: nat where
  "SLEEP_MS = 10"

text \<open>The wait for the connections to close, and how long it takes.\<close>

function wait_closed :: "(nat \<Rightarrow> bool) \<Rightarrow> nat \<Rightarrow> nat" where
  "wait_closed stopped duration_ms =
     (if \<not> stopped duration_ms \<and> duration_ms < MAX_SHUTDOWN_MS
      then wait_closed stopped (duration_ms + SLEEP_MS)
      else duration_ms)"
  by pat_completeness auto
termination
  by (relation "measure (\<lambda>(_, d). MAX_SHUTDOWN_MS - d)") (auto simp: MAX_SHUTDOWN_MS_def SLEEP_MS_def)

declare wait_closed.simps [simp del]

text \<open>
  \<open>Server::stop\<close>.  The connections of the clients are asked to close and are terminated after a second; then the
  thread of the run loop is joined, which waits until the loop was stopped or has nothing left to do.  A call that waits
  for ever is \<open>None\<close>.  The handlers of the connections that close run on the thread of the callback queue and are
  events of the transport, not a part of this call.
\<close>

definition stop_listening :: "network \<Rightarrow> 's lifecycle \<Rightarrow> 's lifecycle" where
  "stop_listening N l = (if listening l \<and> stop_listening_error N = None then l\<lparr>listening := False\<rparr> else l)"

definition closing_connections :: "'e server_scheme \<Rightarrow> hdl list" where
  "closing_connections s = filter (\<lambda>h. m_contains (conns s) h) (m_keys (clients s))"

definition close_connections :: "network \<Rightarrow> ('e server_scheme) lifecycle \<Rightarrow> ('e server_scheme) lifecycle" where
  "close_connections N l =
     (let connections = closing_connections (srv l);
          duration = wait_closed (idle N connections l) 0
      in if connections = [] then l
         else if idle N connections l duration
         then l\<lparr>run_stopped := True, srv := (srv l)\<lparr>conns := filter (\<lambda>(h, con). \<not> con_open con) (conns (srv l))\<rparr>\<rparr>
         else l\<lparr>run_stopped := True, srv := (srv l)\<lparr>conns := filter (\<lambda>(h, con). h \<notin> set connections) (conns (srv l))\<rparr>\<rparr>)"

definition server_stop :: "network \<Rightarrow> ('e server_scheme) lifecycle \<Rightarrow> ('e server_scheme) lifecycle option" where
  "server_stop N l =
     (if run_stopped l then Some l
      else
        let l' = close_connections N (stop_listening N l) in
        if server_thread l' \<and> \<not> run_stopped l' \<and> \<not> ends N [] l' then None
        else Some (l'\<lparr>run_stopped := run_stopped l' \<or> server_thread l', server_thread := False,
               srv := (srv l')\<lparr>clients := []\<rparr>\<rparr>))"

section \<open>Properties\<close>



text \<open>A server that could not resolve its own address after the start has its thread: it cannot be started again.\<close>

lemma failed_start_keeps_thread:
  assumes "server_start N success port l = (Throw e, t)" "listen_error N = None" "accept_error N = None"
  shows "server_start N' success' port' t = (Throw (StdException ''Server already started''), t)"
  using assms by (auto simp: server_start_def cpp_defs split: if_splits sum.splits)





text \<open>Stopping forgets the clients but not what they advertised.\<close>

lemma stop_keeps_publications:
  "server_stop N l = Some t \<Longrightarrow> client_channels (srv t) = client_channels (srv l)"
  by (auto simp: server_stop_def close_connections_def stop_listening_def Let_def split: if_splits)

end
