(* ===== verification/Bridge_Parameters.thy ===== *)
theory Bridge_Parameters
  imports Bridge_Behaviour Server_Lifecycle
begin

text \<open>
  The parameters of the ROS 2 bridge: their declaration (\<open>ros2_bridge/src/param_utils.cpp\<close>, \<open>param_utils.hpp\<close>), how the
  constructor of the bridge reads them, and how it starts the server (\<open>ros2_bridge.cpp\<close>).  The parameters of a node are a
  function \<open>get\<close> from names to values; that a node keeps to the types and ranges of the descriptors, and that it does
  not set a read-only parameter, are hypotheses of the properties.
\<close>

section \<open>Declarations\<close>

definition PARAM_PORT :: string where
  "PARAM_PORT = ''port''"

definition PARAM_ADDRESS :: string where
  "PARAM_ADDRESS = ''address''"

definition PARAM_SEND_BUFFER_LIMIT :: string where
  "PARAM_SEND_BUFFER_LIMIT = ''send_buffer_limit''"

definition PARAM_USETLS :: string where
  "PARAM_USETLS = ''tls''"

definition PARAM_CERTFILE :: string where
  "PARAM_CERTFILE = ''certfile''"

definition PARAM_KEYFILE :: string where
  "PARAM_KEYFILE = ''keyfile''"

definition PARAM_MIN_QOS_DEPTH :: string where
  "PARAM_MIN_QOS_DEPTH = ''min_qos_depth''"

definition PARAM_MAX_QOS_DEPTH :: string where
  "PARAM_MAX_QOS_DEPTH = ''max_qos_depth''"

definition PARAM_TOPIC_WHITELIST :: string where
  "PARAM_TOPIC_WHITELIST = ''topic_whitelist''"

definition PARAM_SERVICE_WHITELIST :: string where
  "PARAM_SERVICE_WHITELIST = ''service_whitelist''"

definition PARAM_PARAMETER_WHITELIST :: string where
  "PARAM_PARAMETER_WHITELIST = ''param_whitelist''"

definition PARAM_USE_COMPRESSION :: string where
  "PARAM_USE_COMPRESSION = ''use_compression''"

definition PARAM_CAPABILITIES :: string where
  "PARAM_CAPABILITIES = ''capabilities''"

definition PARAM_CLIENT_TOPIC_WHITELIST :: string where
  "PARAM_CLIENT_TOPIC_WHITELIST = ''client_topic_whitelist''"

definition PARAM_INCLUDE_HIDDEN :: string where
  "PARAM_INCLUDE_HIDDEN = ''include_hidden''"

definition PARAM_ASSET_URI_ALLOWLIST :: string where
  "PARAM_ASSET_URI_ALLOWLIST = ''asset_uri_allowlist''"

definition DEFAULT_PORT :: int where
  "DEFAULT_PORT = 21274"

definition DEFAULT_ADDRESS :: string where
  "DEFAULT_ADDRESS = ''0.0.0.0''"

definition DEFAULT_SEND_BUFFER_LIMIT :: int where
  "DEFAULT_SEND_BUFFER_LIMIT = 10000000"

definition DEFAULT_MIN_QOS_DEPTH :: int where
  "DEFAULT_MIN_QOS_DEPTH = 1"

definition DEFAULT_MAX_QOS_DEPTH :: int where
  "DEFAULT_MAX_QOS_DEPTH = 25"

datatype param_type =
    PARAMETER_BOOL_type | PARAMETER_INTEGER_type | PARAMETER_STRING_type | PARAMETER_STRING_ARRAY_type

datatype node_value = NBool bool | NInt int | NString string | NStrings "string list"

text \<open>A descriptor; the range is a lower and an upper bound and a step.\<close>

record descriptor =
  d_name :: string
  d_type :: param_type
  d_description :: string
  d_read_only :: bool
  d_constraints :: string
  d_range :: "(int \<times> int \<times> nat) option"

definition port_description :: descriptor where
  "port_description =
     \<lparr>d_name = PARAM_PORT, d_type = PARAMETER_INTEGER_type,
      d_description = ''The TCP port to bind the WebSocket server to'',
      d_read_only = True, d_constraints = ''Must be a valid TCP port number, or 0 to use a random port'', d_range = Some (0, 65535, 1)\<rparr>"

definition address_description :: descriptor where
  "address_description =
     \<lparr>d_name = PARAM_ADDRESS, d_type = PARAMETER_STRING_type,
      d_description = ''The host address to bind the WebSocket server to'',
      d_read_only = True, d_constraints = '''', d_range = None\<rparr>"

text \<open>The step of this range stays at its default, which allows every value.\<close>

definition send_buffer_limit_description :: descriptor where
  "send_buffer_limit_description =
     \<lparr>d_name = PARAM_SEND_BUFFER_LIMIT, d_type = PARAMETER_INTEGER_type,
      d_description = ''Connection send buffer limit in bytes. Messages will be dropped when a connection'' @ [CHR 0x27] @
        ''s send buffer reaches this limit to avoid a queue of outdated messages building up.'',
      d_read_only = True, d_constraints = '''', d_range = Some (0, 2 ^ 63 - 1, 0)\<rparr>"

definition useT_tls_description :: descriptor where
  "useT_tls_description =
     \<lparr>d_name = PARAM_USETLS, d_type = PARAMETER_BOOL_type,
      d_description = ''Use Transport Layer Security for encrypted communication'',
      d_read_only = True, d_constraints = '''', d_range = None\<rparr>"

definition cert_file_description :: descriptor where
  "cert_file_description =
     \<lparr>d_name = PARAM_CERTFILE, d_type = PARAMETER_STRING_type,
      d_description = ''Path to the certificate to use for TLS'',
      d_read_only = True, d_constraints = '''', d_range = None\<rparr>"

definition keyfile_description :: descriptor where
  "keyfile_description =
     \<lparr>d_name = PARAM_KEYFILE, d_type = PARAMETER_STRING_type,
      d_description = ''Path to the private key to use for TLS'',
      d_read_only = True, d_constraints = '''', d_range = None\<rparr>"

definition min_qos_depth_description :: descriptor where
  "min_qos_depth_description =
     \<lparr>d_name = PARAM_MIN_QOS_DEPTH, d_type = PARAMETER_INTEGER_type,
      d_description = ''Minimum depth used for the QoS profile of subscriptions.'',
      d_read_only = True, d_constraints = ''Must be a non-negative integer'', d_range = Some (0, 2147483647, 1)\<rparr>"

definition max_qos_depth_description :: descriptor where
  "max_qos_depth_description =
     \<lparr>d_name = PARAM_MAX_QOS_DEPTH, d_type = PARAMETER_INTEGER_type,
      d_description = ''Maximum depth used for the QoS profile of subscriptions.'',
      d_read_only = True, d_constraints = ''Must be a non-negative integer'', d_range = Some (0, 2147483647, 1)\<rparr>"

definition topic_whitelist_description :: descriptor where
  "topic_whitelist_description =
     \<lparr>d_name = PARAM_TOPIC_WHITELIST, d_type = PARAMETER_STRING_ARRAY_type,
      d_description = ''List of regular expressions (ECMAScript) of whitelisted topic names.'',
      d_read_only = True, d_constraints = '''', d_range = None\<rparr>"

definition service_whitelist_description :: descriptor where
  "service_whitelist_description =
     \<lparr>d_name = PARAM_SERVICE_WHITELIST, d_type = PARAMETER_STRING_ARRAY_type,
      d_description = ''List of regular expressions (ECMAScript) of whitelisted service names.'',
      d_read_only = True, d_constraints = '''', d_range = None\<rparr>"

definition param_whitelist_description :: descriptor where
  "param_whitelist_description =
     \<lparr>d_name = PARAM_PARAMETER_WHITELIST, d_type = PARAMETER_STRING_ARRAY_type,
      d_description = ''List of regular expressions (ECMAScript) of whitelisted parameter names.'',
      d_read_only = True, d_constraints = '''', d_range = None\<rparr>"

definition use_compression_description :: descriptor where
  "use_compression_description =
     \<lparr>d_name = PARAM_USE_COMPRESSION, d_type = PARAMETER_BOOL_type,
      d_description = ''Use websocket compression (permessage-deflate). Suited for connections with smaller bandwith, '' @
        ''at the cost of additional CPU load.'',
      d_read_only = True, d_constraints = '''', d_range = None\<rparr>"

definition param_capabilities :: descriptor where
  "param_capabilities =
     \<lparr>d_name = PARAM_CAPABILITIES, d_type = PARAMETER_STRING_ARRAY_type,
      d_description = ''Server capabilities'',
      d_read_only = True, d_constraints = '''', d_range = None\<rparr>"

definition client_topic_whitelist_description :: descriptor where
  "client_topic_whitelist_description =
     \<lparr>d_name = PARAM_CLIENT_TOPIC_WHITELIST, d_type = PARAMETER_STRING_ARRAY_type,
      d_description = ''List of regular expressions (ECMAScript) of whitelisted client-published topic names.'',
      d_read_only = True, d_constraints = '''', d_range = None\<rparr>"

definition include_hidden_description :: descriptor where
  "include_hidden_description =
     \<lparr>d_name = PARAM_INCLUDE_HIDDEN, d_type = PARAMETER_BOOL_type,
      d_description = ''Include hidden topics and services'',
      d_read_only = True, d_constraints = '''', d_range = None\<rparr>"

definition asset_uri_allowlist_description :: descriptor where
  "asset_uri_allowlist_description =
     \<lparr>d_name = PARAM_ASSET_URI_ALLOWLIST, d_type = PARAMETER_STRING_ARRAY_type,
      d_description = ''List of regular expressions (ECMAScript) of whitelisted asset URIs.'',
      d_read_only = True, d_constraints = '''', d_range = None\<rparr>"

definition DEFAULT_ASSET_URI :: string where
  "DEFAULT_ASSET_URI =
     ''^package://(?:'' @ [CHR 0x5C] @ ''w+/'' @ '')*'' @ [CHR 0x5C] @ ''w+'' @ [CHR 0x5C] @
     ''.(?:dae|fbx|glb|gltf|jpeg|jpg|mtl|obj|png|stl|tif|tiff|urdf|webp|xacro)$''"

text \<open>The calls of \<open>declare_parameter\<close>: name, default and descriptor.  The last two lists are declared with the descriptor
  of the whitelist of parameters, not with their own.\<close>

definition declare_parameters :: "(string \<times> node_value \<times> descriptor) list" where
  "declare_parameters =
     [(PARAM_PORT, NInt DEFAULT_PORT, port_description),
      (PARAM_ADDRESS, NString DEFAULT_ADDRESS, address_description),
      (PARAM_SEND_BUFFER_LIMIT, NInt DEFAULT_SEND_BUFFER_LIMIT, send_buffer_limit_description),
      (PARAM_USETLS, NBool False, useT_tls_description),
      (PARAM_CERTFILE, NString [], cert_file_description),
      (PARAM_KEYFILE, NString [], keyfile_description),
      (PARAM_MIN_QOS_DEPTH, NInt DEFAULT_MIN_QOS_DEPTH, min_qos_depth_description),
      (PARAM_MAX_QOS_DEPTH, NInt DEFAULT_MAX_QOS_DEPTH, max_qos_depth_description),
      (PARAM_TOPIC_WHITELIST, NStrings [''.*''], topic_whitelist_description),
      (PARAM_SERVICE_WHITELIST, NStrings [''.*''], service_whitelist_description),
      (PARAM_PARAMETER_WHITELIST, NStrings [''.*''], param_whitelist_description),
      (PARAM_USE_COMPRESSION, NBool False, use_compression_description),
      (PARAM_CAPABILITIES, NStrings DEFAULT_CAPABILITIES, param_capabilities),
      (PARAM_CLIENT_TOPIC_WHITELIST, NStrings [''.*''], param_whitelist_description),
      (PARAM_INCLUDE_HIDDEN, NBool False, include_hidden_description),
      (PARAM_ASSET_URI_ALLOWLIST, NStrings [DEFAULT_ASSET_URI], param_whitelist_description)]"

lemmas descriptor_defs = port_description_def address_description_def send_buffer_limit_description_def
  useT_tls_description_def cert_file_description_def keyfile_description_def min_qos_depth_description_def
  max_qos_depth_description_def topic_whitelist_description_def service_whitelist_description_def
  param_whitelist_description_def use_compression_description_def param_capabilities_def
  include_hidden_description_def

section \<open>Reading the parameters\<close>

definition bad_type :: exn where
  "bad_type = StdException ''expected another parameter type''"

fun node_as_int :: "node_value \<Rightarrow> int outcome" where
  "node_as_int (NInt i) = Ok i"
| "node_as_int _ = Throw bad_type"

fun node_as_bool :: "node_value \<Rightarrow> bool outcome" where
  "node_as_bool (NBool b) = Ok b"
| "node_as_bool _ = Throw bad_type"

fun node_as_string :: "node_value \<Rightarrow> string outcome" where
  "node_as_string (NString s) = Ok s"
| "node_as_string _ = Throw bad_type"

fun node_as_string_array :: "node_value \<Rightarrow> string list outcome" where
  "node_as_string_array (NStrings ss) = Ok ss"
| "node_as_string_array _ = Throw bad_type"

text \<open>What the constructor takes from its surroundings besides the parameters.\<close>

record bridge_env =
  ev_ros_distro :: string
  ev_colink_ip :: string
  ev_mac_addresses :: string
  ev_ip_addresses :: "string list"
  ev_time :: string

definition read_parameters ::
    "(string \<Rightarrow> node_value) \<Rightarrow> bridge_env \<Rightarrow> (16 word \<times> string \<times> bridge_config) outcome" where
  "read_parameters get ev =
     obind (node_as_int (get PARAM_PORT)) (\<lambda>port.
     obind (node_as_string (get PARAM_ADDRESS)) (\<lambda>address.
     obind (node_as_int (get PARAM_SEND_BUFFER_LIMIT)) (\<lambda>send_buffer_limit.
     obind (node_as_bool (get PARAM_USETLS)) (\<lambda>useTLS.
     obind (node_as_string (get PARAM_CERTFILE)) (\<lambda>certificate.
     obind (node_as_string (get PARAM_KEYFILE)) (\<lambda>keyfile.
     obind (node_as_int (get PARAM_MIN_QOS_DEPTH)) (\<lambda>min_depth.
     obind (node_as_int (get PARAM_MAX_QOS_DEPTH)) (\<lambda>max_depth.
     obind (node_as_string_array (get PARAM_TOPIC_WHITELIST)) (\<lambda>topic_whitelist.
     obind (node_as_string_array (get PARAM_SERVICE_WHITELIST)) (\<lambda>service_whitelist.
     obind (node_as_string_array (get PARAM_PARAMETER_WHITELIST)) (\<lambda>param_whitelist.
     obind (node_as_bool (get PARAM_USE_COMPRESSION)) (\<lambda>compression.
     obind (node_as_bool (get ''use_sim_time'')) (\<lambda>sim_time.
     obind (node_as_string_array (get PARAM_CAPABILITIES)) (\<lambda>caps.
     obind (node_as_string_array (get PARAM_CLIENT_TOPIC_WHITELIST)) (\<lambda>client_topic_whitelist.
     obind (node_as_bool (get PARAM_INCLUDE_HIDDEN)) (\<lambda>hidden.
     obind (node_as_string_array (get PARAM_ASSET_URI_ALLOWLIST)) (\<lambda>asset_uri_allowlist.
     Ok (of_int port, address,
       \<lparr>cfg_send_buffer_limit = unat (of_int send_buffer_limit :: uint64_t), cfg_tls = useTLS, cfg_certfile = certificate,
        cfg_keyfile = keyfile, cfg_min_qos_depth = of_int min_depth, cfg_max_qos_depth = of_int max_depth,
        cfg_topic_whitelist = topic_whitelist, cfg_service_whitelist = service_whitelist,
        cfg_param_whitelist = param_whitelist, cfg_client_topic_whitelist = client_topic_whitelist,
        cfg_asset_uri_allowlist = asset_uri_allowlist, cfg_use_compression = compression, cfg_use_sim_time = sim_time,
        cfg_capabilities = caps, cfg_include_hidden = hidden, env_ros_distro = ev_ros_distro ev,
        env_colink_ip = ev_colink_ip ev, env_mac_addresses = ev_mac_addresses ev, env_ip_addresses = ev_ip_addresses ev,
        env_time = ev_time ev\<rparr>))))))))))))))))))"

text \<open>Starting the server and writing the port back; \<open>set_parameter\<close> is that of the node.\<close>

definition listen_and_report ::
    "network \<Rightarrow> string \<Rightarrow> (string \<Rightarrow> node_value \<Rightarrow> 'p \<Rightarrow> 'p) \<Rightarrow> 16 word \<Rightarrow> 'p \<Rightarrow> ('s lifecycle, 'p) cpp" where
  "listen_and_report N success set_parameter port params =
     seq (server_start N success port) (
     bind (lift (get_port N)) (\<lambda>listening_port.
     if port \<noteq> listening_port
     then ret (set_parameter PARAM_PORT (NInt (uint listening_port)) params)
     else ret params))"

section \<open>Properties\<close>

fun in_range :: "(int \<times> int \<times> nat) option \<Rightarrow> node_value \<Rightarrow> bool" where
  "in_range (Some (lo, hi, step)) (NInt i) \<longleftrightarrow> lo \<le> i \<and> i \<le> hi \<and> (step = 0 \<or> int step dvd i - lo)"
| "in_range _ _ \<longleftrightarrow> True"

fun type_of :: "node_value \<Rightarrow> param_type" where
  "type_of (NBool _) = PARAMETER_BOOL_type"
| "type_of (NInt _) = PARAMETER_INTEGER_type"
| "type_of (NString _) = PARAMETER_STRING_type"
| "type_of (NStrings _) = PARAMETER_STRING_ARRAY_type"

text \<open>What a node accepts for a descriptor: the type and the range.\<close>

definition satisfies :: "descriptor \<Rightarrow> node_value \<Rightarrow> bool" where
  "satisfies d v \<longleftrightarrow> type_of v = d_type d \<and> in_range (d_range d) v"

lemma satisfies_cases:
  "satisfies d v \<Longrightarrow> d_type d = PARAMETER_INTEGER_type \<Longrightarrow> \<exists>i. v = NInt i"
  "satisfies d v \<Longrightarrow> d_type d = PARAMETER_BOOL_type \<Longrightarrow> \<exists>b. v = NBool b"
  "satisfies d v \<Longrightarrow> d_type d = PARAMETER_STRING_type \<Longrightarrow> \<exists>s. v = NString s"
  "satisfies d v \<Longrightarrow> d_type d = PARAMETER_STRING_ARRAY_type \<Longrightarrow> \<exists>ss. v = NStrings ss"
  by (cases v; simp add: satisfies_def)+

text \<open>The defaults are accepted, the names are different, and every parameter is read-only; two descriptors have the
  name and the text of another parameter.\<close>

lemma defaults_accepted:
  "list_all (\<lambda>(n, v, d). satisfies d v \<and> d_read_only d) declare_parameters"
  "distinct (map fst declare_parameters)"
  "map fst (filter (\<lambda>(n, v, d). d_name d \<noteq> n) declare_parameters) =
     [PARAM_CLIENT_TOPIC_WHITELIST, PARAM_ASSET_URI_ALLOWLIST]"
  by code_simp+

lemma descriptor_types [simp]:
  "d_type port_description = PARAMETER_INTEGER_type" "d_type address_description = PARAMETER_STRING_type"
  "d_type send_buffer_limit_description = PARAMETER_INTEGER_type" "d_type useT_tls_description = PARAMETER_BOOL_type"
  "d_type cert_file_description = PARAMETER_STRING_type" "d_type keyfile_description = PARAMETER_STRING_type"
  "d_type min_qos_depth_description = PARAMETER_INTEGER_type" "d_type max_qos_depth_description = PARAMETER_INTEGER_type"
  "d_type topic_whitelist_description = PARAMETER_STRING_ARRAY_type"
  "d_type service_whitelist_description = PARAMETER_STRING_ARRAY_type"
  "d_type param_whitelist_description = PARAMETER_STRING_ARRAY_type"
  "d_type use_compression_description = PARAMETER_BOOL_type" "d_type param_capabilities = PARAMETER_STRING_ARRAY_type"
  "d_type include_hidden_description = PARAMETER_BOOL_type"
  unfolding descriptor_defs descriptor.simps by (rule refl)+

lemma descriptor_ranges [simp]:
  "d_range port_description = Some (0, 65535, 1)" "d_range send_buffer_limit_description = Some (0, 2 ^ 63 - 1, 0)"
  "d_range min_qos_depth_description = Some (0, 2147483647, 1)"
  "d_range max_qos_depth_description = Some (0, 2147483647, 1)" "d_read_only port_description"
  unfolding descriptor_defs descriptor.simps by (rule refl TrueI)+

lemma declared_satisfies:
  assumes "\<forall>(n, v, d) \<in> set declare_parameters. satisfies d (get n)"
  shows "satisfies port_description (get PARAM_PORT)" "satisfies address_description (get PARAM_ADDRESS)"
    "satisfies send_buffer_limit_description (get PARAM_SEND_BUFFER_LIMIT)"
    "satisfies useT_tls_description (get PARAM_USETLS)" "satisfies cert_file_description (get PARAM_CERTFILE)"
    "satisfies keyfile_description (get PARAM_KEYFILE)" "satisfies min_qos_depth_description (get PARAM_MIN_QOS_DEPTH)"
    "satisfies max_qos_depth_description (get PARAM_MAX_QOS_DEPTH)"
    "satisfies topic_whitelist_description (get PARAM_TOPIC_WHITELIST)"
    "satisfies service_whitelist_description (get PARAM_SERVICE_WHITELIST)"
    "satisfies param_whitelist_description (get PARAM_PARAMETER_WHITELIST)"
    "satisfies use_compression_description (get PARAM_USE_COMPRESSION)"
    "satisfies param_capabilities (get PARAM_CAPABILITIES)"
    "satisfies param_whitelist_description (get PARAM_CLIENT_TOPIC_WHITELIST)"
    "satisfies include_hidden_description (get PARAM_INCLUDE_HIDDEN)"
    "satisfies param_whitelist_description (get PARAM_ASSET_URI_ALLOWLIST)"
  using assms by (simp_all add: declare_parameters_def)

lemma of_int_fits:
  "0 \<le> i \<Longrightarrow> i \<le> 65535 \<Longrightarrow> uint (of_int i :: 16 word) = i"
  "0 \<le> i \<Longrightarrow> i \<le> 2 ^ 63 - 1 \<Longrightarrow> uint (of_int i :: uint64_t) = i"
  by (simp_all add: uint_word_of_int)

lemma CoBridge_depths:
  "min_qos_depth (CoBridge regex cfg) = cfg_min_qos_depth cfg" "max_qos_depth (CoBridge regex cfg) = cfg_max_qos_depth cfg"
  by (simp_all add: CoBridge_def cobridge.defs server.defs)

text \<open>C12: Every set of parameters that a node accepts is read without an exception and without loss: the port, the limit
  of the send buffer and the two depths have the values of the parameters, although they are cast from 64 to
  16 bits and from signed to unsigned.\<close>

theorem accepted_parameters_exact:
  assumes "\<forall>(n, v, d) \<in> set declare_parameters. satisfies d (get n)" "get ''use_sim_time'' = NBool sim"
  shows "\<exists>port address cfg. read_parameters get ev = Ok (port, address, cfg) \<and> get PARAM_PORT = NInt (uint port) \<and>
    get PARAM_SEND_BUFFER_LIMIT = NInt (int (cfg_send_buffer_limit cfg)) \<and>
    get PARAM_MIN_QOS_DEPTH = NInt (uint (min_qos_depth (CoBridge regex cfg))) \<and>
    get PARAM_MAX_QOS_DEPTH = NInt (uint (max_qos_depth (CoBridge regex cfg)))"
proof -
  note sat = declared_satisfies [OF assms(1)]
  obtain port limit mi ma where ints: "get PARAM_PORT = NInt port" "get PARAM_SEND_BUFFER_LIMIT = NInt limit"
    "get PARAM_MIN_QOS_DEPTH = NInt mi" "get PARAM_MAX_QOS_DEPTH = NInt ma"
    using satisfies_cases(1) [OF sat(1)] satisfies_cases(1) [OF sat(3)] satisfies_cases(1) [OF sat(7)]
      satisfies_cases(1) [OF sat(8)] by auto
  have range: "0 \<le> port" "port \<le> 65535" "0 \<le> limit" "limit \<le> 2 ^ 63 - 1" "0 \<le> mi" "mi \<le> 2 ^ 63 - 1"
    "0 \<le> ma" "ma \<le> 2 ^ 63 - 1"
    using sat(1,3,7,8) by (simp_all add: ints satisfies_def)
  obtain a ck kf where strings: "get PARAM_ADDRESS = NString a" "get PARAM_CERTFILE = NString ck" "get PARAM_KEYFILE = NString kf"
    using satisfies_cases(3) [OF sat(2)] satisfies_cases(3) [OF sat(5)] satisfies_cases(3) [OF sat(6)]
    by auto
  obtain b1 b2 b3 where bools: "get PARAM_USETLS = NBool b1" "get PARAM_USE_COMPRESSION = NBool b2" "get PARAM_INCLUDE_HIDDEN = NBool b3"
    using satisfies_cases(2) [OF sat(4)] satisfies_cases(2) [OF sat(12)] satisfies_cases(2) [OF sat(15)]
    by auto
  obtain l1 l2 l3 l4 l5 l6 where lists: "get PARAM_TOPIC_WHITELIST = NStrings l1" "get PARAM_SERVICE_WHITELIST = NStrings l2"
    "get PARAM_PARAMETER_WHITELIST = NStrings l3" "get PARAM_CAPABILITIES = NStrings l4"
    "get PARAM_CLIENT_TOPIC_WHITELIST = NStrings l5" "get PARAM_ASSET_URI_ALLOWLIST = NStrings l6"
    using satisfies_cases(4) [OF sat(9)] satisfies_cases(4) [OF sat(10)] satisfies_cases(4) [OF sat(11)]
      satisfies_cases(4) [OF sat(13)] satisfies_cases(4) [OF sat(14)] satisfies_cases(4) [OF sat(16)]
    by auto
  obtain cfg where cfg: "read_parameters get ev = Ok (of_int port, a, cfg)"
    "cfg_send_buffer_limit cfg = unat (of_int limit :: uint64_t)" "cfg_min_qos_depth cfg = of_int mi"
    "cfg_max_qos_depth cfg = of_int ma"
    by (simp add: read_parameters_def ints strings bools lists assms(2))
  have "int (cfg_send_buffer_limit cfg) = limit"
    unfolding cfg(2) using of_int_fits(2) [OF range(3,4)] by simp
  moreover have "uint (min_qos_depth (CoBridge regex cfg)) = mi" "uint (max_qos_depth (CoBridge regex cfg)) = ma"
    unfolding CoBridge_depths cfg(3,4) by (rule of_int_fits(2) [OF range(5,6)] of_int_fits(2) [OF range(7,8)])+
  moreover have "uint (of_int port :: 16 word) = port"
    by (rule of_int_fits(1) [OF range(1,2)])
  ultimately show ?thesis
    unfolding ints by (intro exI [of _ "of_int port"] exI [of _ a] exI [of _ cfg] conjI cfg(1)) simp_all
qed

definition default_value :: "string \<Rightarrow> node_value" where
  "default_value n = (case map_of declare_parameters n of Some (v, _) \<Rightarrow> v | None \<Rightarrow> NBool False)"

theorem accepted_parameters_exact_witness:
  "\<exists>port address cfg. read_parameters default_value
     \<lparr>ev_ros_distro = ''humble'', ev_colink_ip = [], ev_mac_addresses = [], ev_ip_addresses = [], ev_time = ''0''\<rparr> =
       Ok (port, address, cfg) \<and> uint port = 21274 \<and> cfg_send_buffer_limit cfg = 10000000"
proof -
  have "list_all (\<lambda>(n, v, d). satisfies d (default_value n)) declare_parameters"
    "default_value ''use_sim_time'' = NBool False" "default_value PARAM_PORT = NInt 21274"
    "default_value PARAM_SEND_BUFFER_LIMIT = NInt 10000000"
    by code_simp+
  then show ?thesis
    using accepted_parameters_exact [of default_value False
        "\<lparr>ev_ros_distro = ''humble'', ev_colink_ip = [], ev_mac_addresses = [], ev_ip_addresses = [], ev_time = ''0''\<rparr>"]
    by (fastforce simp: list_all_iff)
qed

text \<open>With port 0 the server listens on a port of the system.  The bridge writes that port to its parameter, which is
  declared read-only: a node that refuses to set such parameters keeps the value 0.\<close>

lemma random_port_not_reported:
  assumes "\<forall>(n, v, d) \<in> set declare_parameters. \<forall>w. d_read_only d \<longrightarrow> set_parameter n w params = params"
    and "listen_and_report N success set_parameter port params l = (Ok params', t)"
  shows "params' = params"
proof -
  have "set_parameter PARAM_PORT w params = params" for w
    using assms(1) by (auto simp: declare_parameters_def)
  with assms(2) show ?thesis
    by (auto simp: listen_and_report_def cpp_defs split: prod.splits outcome.splits if_splits)
qed

end
