(* ===== verification/Ros1_Service.thy ===== *)
theory Ros1_Service
  imports Wire
begin

text \<open>
  \<open>GenericService\<close> of the ROS 1 bridge (\<open>generic_service.hpp\<close>): the request or the response of a service of any type, which
  the serialisation of ROS 1 writes to and reads from streams.  A stream is a buffer that begins at its position.
\<close>

record generic_service =
  gs_type :: string
  gs_md5sum :: string
  gs_data :: bytes

definition GenericService_write :: "generic_service \<Rightarrow> bytes \<Rightarrow> bytes outcome" where
  "GenericService_write m stream = poke 0 (gs_data m) stream"

definition GenericService_read :: "bytes \<Rightarrow> generic_service \<Rightarrow> generic_service outcome" where
  "GenericService_read stream m =
     obind (peek 0 (length stream) stream) (\<lambda>bs. Ok (m\<lparr>gs_data := bs\<rparr>))"

definition serializedLength :: "generic_service \<Rightarrow> uint32_t" where
  "serializedLength m = of_nat (length (gs_data m))"

text \<open>\<open>MD5Sum::value\<close> and \<open>DataType::value\<close>, of a message and without one.\<close>

definition MD5Sum_value :: "generic_service option \<Rightarrow> string" where
  "MD5Sum_value m = (case m of Some x \<Rightarrow> gs_md5sum x | None \<Rightarrow> ''*'')"

definition DataType_value :: "generic_service option \<Rightarrow> string" where
  "DataType_value m = (case m of Some x \<Rightarrow> gs_type x | None \<Rightarrow> ''*'')"

text \<open>What is written to a buffer of the announced length is read back, for data of less than four gigabytes.\<close>

lemma generic_service_roundtrip:
  assumes "length (gs_data m) < 2 ^ 32" "length stream = unat (serializedLength m)"
  shows "\<exists>written. GenericService_write m stream = Ok written \<and>
    GenericService_read written m' = Ok (m'\<lparr>gs_data := gs_data m\<rparr>)"
proof -
  have "length stream = length (gs_data m)"
    using assms by (simp add: serializedLength_def unat_of_nat)
  then show ?thesis
    by (simp add: GenericService_write_def GenericService_read_def poke_def peek_def)
qed

text \<open>The length is announced modulo \<open>2 ^ 32\<close>: a buffer of that length is too short for longer data.\<close>

lemma generic_service_too_long:
  assumes "2 ^ 32 \<le> length (gs_data m)" "length stream = unat (serializedLength m)"
  shows "GenericService_write m stream = UB ''write out of bounds''"
proof -
  have "length stream < 2 ^ 32"
    using assms(2) by (simp add: serializedLength_def unat_of_nat)
  then have "length stream < length (gs_data m)"
    using assms(1) by (rule less_le_trans)
  then show ?thesis
    by (simp add: GenericService_write_def poke_def)
qed

end
