(* ===== verification/Message_Spec.thy ===== *)
theory Message_Spec
  imports Cpp_Prelude
begin

text \<open>
  The parser of ROS 1 message definitions that the sources patch into the library for messages of any type
  (\<open>src/patches/description_provider_cpp-fix.patch\<close>, \<open>DescriptionProvider::createSpec\<close>): it replaces the regular expressions of
  the library by searches in strings.  The built-in types are the argument \<open>builtin\<close>.
\<close>

section \<open>Searches in strings\<close>

text \<open>The first position with a property (\<open>find\<close>, \<open>find_first_of\<close>, \<open>find_first_not_of\<close>), the same from a position on,
  and the last position; \<open>None\<close> is \<open>npos\<close>.\<close>

fun find_idx :: "('a \<Rightarrow> bool) \<Rightarrow> 'a list \<Rightarrow> nat option" where
  "find_idx P [] = None"
| "find_idx P (x # xs) = (if P x then Some 0 else map_option Suc (find_idx P xs))"

definition find_idx_from :: "('a \<Rightarrow> bool) \<Rightarrow> 'a list \<Rightarrow> nat \<Rightarrow> nat option" where
  "find_idx_from P xs pos = map_option (\<lambda>i. pos + i) (find_idx P (drop pos xs))"

definition find_last_idx :: "('a \<Rightarrow> bool) \<Rightarrow> 'a list \<Rightarrow> nat option" where
  "find_last_idx P xs = map_option (\<lambda>i. length xs - 1 - i) (find_idx P (rev xs))"

section \<open>The parser\<close>

record message_spec1 =
  sp_package :: string
  sp_constants :: "(string \<times> string \<times> string) list"
  sp_dependencies :: "string list"
  sp_types :: "string list"
  sp_names :: "string list"

definition is_blank :: "char \<Rightarrow> bool" where
  "is_blank c \<longleftrightarrow> c = CHR '' '' \<or> c = CHR 0x09"

definition is_blank_cr :: "char \<Rightarrow> bool" where
  "is_blank_cr c \<longleftrightarrow> is_blank c \<or> c = CHR 0x0D"

text \<open>The line without the white space around it, \<open>None\<close> when nothing is left.\<close>

definition trim_line :: "string \<Rightarrow> string option" where
  "trim_line line =
     (case (find_idx (\<lambda>c. \<not> is_blank_cr c) line, find_last_idx (\<lambda>c. \<not> is_blank_cr c) line) of
        (Some first_pos, Some last_pos) \<Rightarrow> Some (substr line first_pos (last_pos - first_pos + 1))
      | _ \<Rightarrow> None)"

text \<open>The type and the name at the beginning of a part of a line; both branches of the parser look for them in the same
  way.\<close>

definition type_and_name :: "string \<Rightarrow> (string \<times> string) option" where
  "type_and_name part =
     (case find_idx is_blank part of
        None \<Rightarrow> None
      | Some space_pos \<Rightarrow>
          let name_part = drop space_pos part in
          (case find_idx (\<lambda>c. \<not> is_blank c) name_part of
             None \<Rightarrow> None
           | Some name_start \<Rightarrow>
               Some (take space_pos part,
                 case find_idx_from is_blank name_part name_start of
                   None \<Rightarrow> drop name_start name_part
                 | Some name_end \<Rightarrow> substr name_part name_start (name_end - name_start))))"

definition constant_value :: "string \<Rightarrow> string \<Rightarrow> string option" where
  "constant_value constant_type value_part =
     (case find_idx (\<lambda>c. \<not> is_blank c) value_part of
        None \<Rightarrow> None
      | Some val_start \<Rightarrow>
          let val = drop val_start value_part in
          if constant_type \<noteq> ''string''
          then (case find_idx (\<lambda>c. c = CHR 0x23) val of
                  None \<Rightarrow> Some val
                | Some comment_pos \<Rightarrow>
                    let val = take comment_pos val in
                    (case find_last_idx (\<lambda>c. \<not> is_blank c) val of
                       None \<Rightarrow> Some val
                     | Some val_end \<Rightarrow> Some (take (val_end + 1) val)))
          else Some val)"

definition base_type :: "string \<Rightarrow> string" where
  "base_type type_part = (case find_idx (\<lambda>c. c = CHR ''['') type_part of None \<Rightarrow> type_part | Some i \<Rightarrow> take i type_part)"

definition add_dependency :: "(string \<Rightarrow> bool) \<Rightarrow> string \<Rightarrow> message_spec1 \<Rightarrow> message_spec1" where
  "add_dependency builtin dep spec =
     (let dep_type = (if dep = ''Header'' then ''std_msgs/Header'' else dep) in
      if builtin dep_type then spec
      else
        let dep_type = (if CHR ''/'' \<in> set dep_type then dep_type else sp_package spec @ ''/'' @ dep_type) in
        if dep_type \<in> set (sp_dependencies spec) then spec
        else spec\<lparr>sp_dependencies := sp_dependencies spec @ [dep_type]\<rparr>)"

definition parse_constant :: "string \<Rightarrow> string \<Rightarrow> message_spec1 \<Rightarrow> message_spec1" where
  "parse_constant left_part value_part spec =
     (case type_and_name left_part of
        None \<Rightarrow> spec
      | Some (constant_type, name) \<Rightarrow>
          (case constant_value constant_type value_part of
             None \<Rightarrow> spec
           | Some val \<Rightarrow> spec\<lparr>sp_constants := sp_constants spec @ [(constant_type, name, val)]\<rparr>))"

definition parse_field :: "(string \<Rightarrow> bool) \<Rightarrow> string \<Rightarrow> message_spec1 \<Rightarrow> message_spec1" where
  "parse_field builtin line spec =
     (case type_and_name line of
        None \<Rightarrow> spec
      | Some (type_part, name) \<Rightarrow>
          let spec = add_dependency builtin (base_type type_part) spec in
          spec\<lparr>sp_types := sp_types spec @ [type_part], sp_names := sp_names spec @ [name]\<rparr>)"

definition parse_line :: "(string \<Rightarrow> bool) \<Rightarrow> string \<Rightarrow> message_spec1 \<Rightarrow> message_spec1" where
  "parse_line builtin raw spec =
     (case trim_line raw of
        None \<Rightarrow> spec
      | Some line \<Rightarrow>
          if line = [] \<or> hd line = CHR 0x23 then spec
          else
            (case find_idx (\<lambda>c. c = CHR ''='') line of
               Some eq_pos \<Rightarrow> parse_constant (take eq_pos line) (drop (eq_pos + 1) line) spec
             | None \<Rightarrow> parse_field builtin line spec))"

lemma find_idx_less: "find_idx P xs = Some i \<Longrightarrow> i < length xs"
  by (induction xs arbitrary: i) (auto split: if_splits)

function parse_lines :: "(string \<Rightarrow> bool) \<Rightarrow> string \<Rightarrow> message_spec1 \<Rightarrow> message_spec1" where
  "parse_lines builtin specification spec =
     (case find_idx (\<lambda>c. c = CHR 0x0A) specification of
        None \<Rightarrow> parse_line builtin specification spec
      | Some e \<Rightarrow> parse_lines builtin (drop (e + 1) specification) (parse_line builtin (take e specification) spec))"
  by pat_completeness auto
termination
  by (relation "measure (\<lambda>(_, text, _). length text)") (auto dest: find_idx_less)

declare parse_lines.simps [simp del]

definition createSpec :: "(string \<Rightarrow> bool) \<Rightarrow> string \<Rightarrow> string \<Rightarrow> message_spec1" where
  "createSpec builtin package specification =
     parse_lines builtin specification
       \<lparr>sp_package = package, sp_constants = [], sp_dependencies = [], sp_types = [], sp_names = []\<rparr>"

section \<open>What the parser reads\<close>




definition rstrip :: "string \<Rightarrow> string" where
  "rstrip s = rev (dropWhile is_blank_cr (rev s))"








section \<open>Lines of a definition\<close>





lemma add_dependency_frame [simp]:
  "sp_types (add_dependency b d spec) = sp_types spec" "sp_names (add_dependency b d spec) = sp_names spec"
  by (simp_all add: add_dependency_def Let_def)




lemma rstrip_Nil [simp]: "rstrip [] = []"
  by (simp add: rstrip_def)















text \<open>A field whose comment has an equals sign is taken for a constant: it is missing from the fields.  The regular
  expression that the parser replaces allows nothing but white space between the name of a constant and the
  equals sign.\<close>

lemma commented_field_lost:
  "createSpec (\<lambda>t. t = ''float64'') ''geo'' ''float64 x # m = 1'' =
     \<lparr>sp_package = ''geo'', sp_constants = [(''float64'', ''x'', ''1'')], sp_dependencies = [], sp_types = [], sp_names = []\<rparr>"
  by code_simp

end
