(* ===== verification/Spec2Isabelle.thy ===== *)
theory Spec2Isabelle
  imports Bridge_Behaviour Nodelet_Runs Send_Queue Http_Server Standard Generic_Interfaces Bridge_Parameters
    Ros1_Service Message_Spec
begin

text \<open>
  coBridge connects a ROS system to a web client over one websocket connection.  A server
  (\<open>src/cobridge_base\<close>) speaks the protocol; a bridge for ROS 2 (\<open>src/ros2_bridge\<close>) or for ROS 1
  (\<open>src/ros1_bridge\<close>) owns the server, gives it a table of handlers and calls its public operations when
  something happens in ROS; a small HTTP server (\<open>src/http_server\<close>) tells clients which device they found.

  \<^bold>\<open>Model.\<close>  Code with effects is a function \<open>('s, 'a) cpp\<close> from a state to an outcome and a state
  (\<open>Cpp_Monad\<close>): \<open>Ok\<close> a value, \<open>Throw\<close> an exception, or \<open>UB\<close> where the behaviour of the C++ code is
  undefined.  Integers have their width, strings are lists of bytes, maps are association lists with the
  laws of \<open>Cpp_Containers\<close>, JSON values are trees.  The state of a bridge extends the record of the server, so
  that the server, its handlers and the bridge run on one state.  Every operation is atomic: mutexes are not
  part of the model, and a handler that the source calls while it holds no lock may see the state of another
  step only between operations.  Frames that are sent are appended to \<open>outbox\<close> with the flag \<open>reliable\<close>; logging
  is left out.

  \<^bold>\<open>Theories, bottom up.\<close>
  \<^item> \<open>Cpp_Prelude\<close>, \<open>Cpp_Containers\<close>, \<open>Cpp_Monad\<close>: integers, strings, containers (locale \<open>assoc_container\<close>),
    computations with their triples, kept predicates and frames.
  \<^item> \<open>Wire\<close> (\<open>serialization.hpp\<close>, \<open>common.hpp\<close>), \<open>Base64\<close> (\<open>base64.cpp\<close>), \<open>Json\<close> and \<open>Serialization\<close>
    (\<open>serialization.cpp\<close>, \<open>parameter.cpp\<close>): the encodings.  Round trips, and that no read leaves its buffer.
  \<^item> \<open>Server_State\<close>, \<open>Server_Publish\<close>, \<open>Server_Requests\<close>, \<open>Server_Dispatch\<close> (\<open>websocket_server.hpp\<close>): the members
    of \<open>Server\<close>, its public operations, the requests of a client and their dispatch.  What each operation
    sends and stores, identifiers (locale \<open>id_registry\<close>), the exception barrier, capabilities and the hash of the
    operation names.
  \<^item> \<open>Server_Invariant\<close>: the contracts of the handlers (locales \<open>quiet_handlers\<close>, \<open>server_handlers\<close>) and the
    invariants of the server, proved once for every table of handlers that satisfies them.
  \<^item> \<open>Message_Definitions\<close>, \<open>Definition_Closure\<close> (\<open>message_definition_cache.cpp\<close>): reading and concatenating
    definitions; the cache is transparent (locale \<open>definition_loader\<close>), the result is complete and the
    recursion ends.
  \<^item> \<open>Parameter_Interface\<close> (\<open>parameter_interface.cpp\<close>), \<open>Callback_Queue\<close> (\<open>callback_queue.hpp\<close>).
  \<^item> \<open>Ros2_Bridge\<close> (\<open>ros2_bridge.cpp\<close>): the bridge.  \<open>Bridge_Links\<close> relates its tables to those of the server and
    interprets the contracts of the server on its handlers; \<open>Bridge_Runs\<close> has the step relation of the whole
    program and the invariants of the reachable states; \<open>Bridge_Behaviour\<close> has what single operations do in them.
  \<^item> \<open>Ros1_Params\<close> (\<open>ros1_bridge/src/param_utils.cpp\<close>), \<open>Ros1_Bridge\<close> (\<open>ros1_bridge_nodelet.cpp\<close>,
    \<open>service_utils.cpp\<close>) and \<open>Nodelet_Runs\<close>: the ROS 1 bridge, a second provider of the contracts, with its
    reachable states, the schedule of its updates and its parameters.
  \<^item> \<open>Send_Queue\<close> (\<open>src/patches/connection_impl_hpp-fix.patch\<close>): the queue that the sources patch into the
    transport; order, reliable messages, the size of the buffer, and that it drains.
  \<^item> \<open>Http_Server\<close> (\<open>http_server.cpp\<close>): the addresses of the device and the answers to requests.
  \<^item> \<open>Websocket_Client\<close> (\<open>websocket_client.hpp\<close>): the messages of a client, and the path from its calls through the server
    to ROS and back: parameters reach the handlers, a subscription is served.
  \<^item> \<open>Server_Lifecycle\<close> (\<open>websocket_server.hpp\<close>, \<open>websocket_logging.hpp\<close>): start and stop of the server, when stopping
    returns, and the channels of the loggers.
  \<^item> \<open>Standard\<close> (\<open>standard.hpp\<close>, \<open>parameter.hpp\<close>): the classes \<open>any\<close>, \<open>string_view\<close> and \<open>optional\<close>, which implement values,
    lists and \<open>option\<close>; \<open>ParameterValue\<close> as a tag and an \<open>any\<close>, with the type safety of its reads.  The other theories
    use the datatype \<open>parameter_value\<close>.
  \<^item> \<open>Generic_Interfaces\<close> (\<open>typesupport_helpers.cpp\<close>, \<open>generic_client.cpp\<close>, the classes for Foxy): names of symbols, the
    matching of responses to requests, and subscriptions that ROS refuses.
  \<^item> \<open>Bridge_Parameters\<close> (\<open>ros2_bridge/src/param_utils.cpp\<close>): the declared parameters and how the constructor of the bridge
    reads them.
  \<^item> \<open>Ros1_Service\<close> (\<open>generic_service.hpp\<close>) and \<open>Message_Spec\<close> (\<open>src/patches/description_provider_cpp-fix.patch\<close>): service messages
    of any type and the parser of ROS 1 definitions.

  \<^bold>\<open>Parameters.\<close>  What is not in the sources is an argument: the parser and the printer of JSON, compiled
  regular expressions (predicates on strings), the clock, the file system and the package index (record
  \<open>ament\<close>), the ROS node (records \<open>ros_node\<close>, \<open>ros\<close>, \<open>ros1\<close>), the ROS client library and shared libraries (\<open>rcl_library\<close>), the network
  (\<open>network\<close>), the interfaces of the machine (\<open>interfaces\<close>), and whether a compiler lays out two classes alike (\<open>layout\<close>).  A call
  that may throw gives \<open>Inl\<close> with the text of the exception.  No property assumes a law of them beyond its
  stated hypotheses, and every property with hypotheses has a witness on concrete values.

  \<^bold>\<open>Bounds.\<close>  The recursion over the dependencies of a message definition has the depth of the stack
  (\<open>stack_depth\<close>) as fuel; \<open>full_definition_returns\<close> shows that one more than the number of reachable
  definitions is enough.  All other functions are total without fuel.  Identifiers of channels and services are
  32 bits wide: properties that need fresh ones assume that fewer than \<open>2 ^ 32\<close> were given out.

  \<^bold>\<open>Not modelled.\<close>  The websocket protocol, TLS, compression and socket options, which belong to a library, and the
  factory that chooses between the two configurations of it; connecting and closing the client, which are calls of that
  library; the destructors of the bridges and the log handlers, which only forward to other components or to the log of
  ROS; the executables, which load a component; launch files; the tests; the patches that only rename types, replace hash
  functions or change paths inside vendored libraries; the rest of the library for ROS 1 messages (files, dependencies
  and checksums).  Of the type support helpers the branch for Linux is modelled.  Interleavings inside an operation,
  where the source holds no lock, are not modelled.
\<close>

end
